theory Spec2Isabelle
  imports Main
begin

section \<open>Data model\<close>

text \<open>
  A bookmark item of the core: \<^verbatim>\<open>{ line, column, label }\<close>. Lines and columns are the
  non-negative numbers of a \<^verbatim>\<open>vscode.Position\<close>.
\<close>

record bookmark =
  line :: nat
  column :: nat
  label :: string

text \<open>A \<^verbatim>\<open>BookmarkedFile\<close>: the path of a file and its bookmark array.\<close>

record bookmarkedFile =
  path :: string
  bookmarks :: "bookmark list"

text \<open>
  The \<^verbatim>\<open>BookmarksController\<close>. \<^verbatim>\<open>activeBookmark\<close> is a reference to one of the objects
  of the file list: it is an index into \<open>fileList\<close>, and \<open>None\<close> is \<^verbatim>\<open>undefined\<close>.
\<close>

record bookmarksController =
  fileList :: "bookmarkedFile list"
  activeBookmark :: "nat option"

text \<open>\<^verbatim>\<open>vscode.Position\<close> and the part of a \<^verbatim>\<open>vscode.TextEditor\<close> the extension reads.\<close>

record position =
  pos_line :: nat
  character :: nat

text \<open>
  A text document is a shared object that the host mutates on every edit. A reference to
  it is its \<^verbatim>\<open>uri.fsPath\<close> (the host keeps one document object per path), and the store
  \<open>docs\<close> of the state maps the reference to the document's lines.
\<close>

type_synonym docref = string

record textEditor =
  document :: docref
  selection_active :: position

text \<open>
  An argument as JavaScript passes it to \<^verbatim>\<open>indexOfBookmark\<close>: the callers of
  \<^verbatim>\<open>extension.ts\<close> pass a line number, and one of them passes a bookmark object.
\<close>

datatype jsarg = Number int | Object bookmark

datatype direction = Forward | Backward

datatype revealType = InCenter | InCenterIfOutsideViewport

text \<open>What a handler does to the host, in the order it does it.\<close>

datatype event =
    SetDecorations "nat list"
  | ShowInformationMessage string
  | ShowWarningMessage string
  | ShowErrorMessage string
  | ConsoleLog string
  | ShowTextDocument docref
  | RevealRange nat nat revealType
  | CallAddBookmark nat
  | CallRemoveBookmark int int
  | CallStickyBookmarks "nat option"
  | CallNextBookmark direction
  | CallNextDocumentWithBookmarks direction
  | SaveWorkspaceState bookmarksController

text \<open>What JavaScript throws in the modelled code, and the errors the spec names.\<close>

datatype error =
    SyntaxError
  | TypeError
  | DuplicateLine
  | IndexOutOfRange
  | OtherError string

text \<open>
  A value that reaches \<^verbatim>\<open>checkBookmarks\<close> or a \<^verbatim>\<open>catch\<close> handler: the resolved value of
  a navigation promise, or the reason of a rejection.
\<close>

datatype jsvalue = JSNumber int | JSPosition position | JSString string | JSError error

text \<open>
  \<^verbatim>\<open>nextBookmark\<close> resolves to \<^verbatim>\<open>number | vscode.Position\<close> and
  \<^verbatim>\<open>nextDocumentWithBookmarks\<close> to a number or a path.
\<close>

datatype navResult = NavNumber int | NavPosition position

datatype docResult = DocNumber int | DocPath string

text \<open>A parsed JSON document, and the event of \<^verbatim>\<open>onDidChangeTextDocument\<close>.\<close>

datatype json =
    JNull
  | JBool bool
  | JNum int
  | JStr string
  | JArr "json list"
  | JObj "(string \<times> json) list"

record contentChange =
  range_start :: position
  range_end :: position
  change_text :: string

record changeEvent =
  ev_document :: docref
  contentChanges :: "contentChange list"

text \<open>
  The variables of \<^verbatim>\<open>activate\<close>'s closure (\<open>bookmarksCtl\<close> is the variable
  \<^verbatim>\<open>bookmarks\<close>, and \<open>timeout\<close> says that the timer of
  \<^verbatim>\<open>triggerUpdateDecorations\<close> has been set), and what the handlers read from the host:
  \<^verbatim>\<open>vscode.window.activeTextEditor\<close>, the documents, the two settings of the
  configuration, the workspace folders, the file system and the workspace state. Of the
  closure's \<^verbatim>\<open>activeEditor\<close> the extension reads the document only.
\<close>

record state =
  bookmarksCtl :: bookmarksController
  activeEditorCountLine :: "nat option"
  activeEditor :: "textEditor option"
  timeout :: bool
  window_activeTextEditor :: "textEditor option"
  docs :: "docref \<Rightarrow> string list"
  useWorkaroundForFormatters :: bool
  saveBookmarksInProject :: bool
  workspaceFolders :: "string list option"
  files :: "string \<Rightarrow> string option"
  workspaceState :: "string option"
  trace :: "event list"

definition lineCount :: "state \<Rightarrow> docref \<Rightarrow> nat" where
  "lineCount st d = length (docs st d)"

definition lineAt :: "state \<Rightarrow> docref \<Rightarrow> nat \<Rightarrow> string" where
  "lineAt st d i = docs st d ! i"

definition emit :: "event \<Rightarrow> state \<Rightarrow> state" where
  "emit e st = st\<lparr>trace := trace st @ [e]\<rparr>"

section \<open>JavaScript arrays\<close>

text \<open>
  \<^verbatim>\<open>Array.prototype.splice(start, deleteCount)\<close>: a negative start counts from the end,
  and both numbers are clamped to the array.
\<close>

definition splice_js :: "int \<Rightarrow> int \<Rightarrow> 'a list \<Rightarrow> 'a list" where
  "splice_js start deleteCount xs =
     (let len = int (length xs);
          actualStart = (if start < 0 then max (len + start) 0 else min start len);
          actualDeleteCount = min (max deleteCount 0) (len - actualStart)
      in take (nat actualStart) xs @ drop (nat (actualStart + actualDeleteCount)) xs)"

text \<open>
  \<^verbatim>\<open>bookmarks.sort((n1, n2) => ...)\<close> with the comparator of \<^verbatim>\<open>toggle\<close> and
  \<^verbatim>\<open>askForBookmarkLabel\<close>, which orders by \<^verbatim>\<open>line\<close> alone. The model sorts stably;
  only the order of bookmarks at the same line could differ in an engine that does not.
\<close>

definition sortByLine :: "bookmark list \<Rightarrow> bookmark list" where
  "sortByLine bs = sort_key line bs"

section \<open>The core's file bookmark set\<close>

text \<open>
  Modelled from the spec: \<^verbatim>\<open>BookmarkedFile.indexOfBookmark\<close> is in the core, which is
  not among the sources. The spec has \<^verbatim>\<open>indexOfBookmark(line) -> index or -1\<close>, a search
  over the current entries for the one at that line. The comparison is JavaScript's
  strict equality of the entry's line with the argument, which no object satisfies.
\<close>

fun strictEq :: "jsarg \<Rightarrow> jsarg \<Rightarrow> bool" where
  "strictEq (Number m) (Number n) = (m = n)"
| "strictEq _ _ = False"

fun indexOfBookmark :: "bookmark list \<Rightarrow> jsarg \<Rightarrow> int" where
  "indexOfBookmark [] a = - 1"
| "indexOfBookmark (b # bs) a =
     (if strictEq (Number (int (line b))) a then 0
      else (let i = indexOfBookmark bs a in if i < 0 then - 1 else i + 1))"

section \<open>The active file\<close>

definition activeFile :: "bookmarksController \<Rightarrow> bookmarkedFile option" where
  "activeFile c =
     (case activeBookmark c of
        None \<Rightarrow> None
      | Some i \<Rightarrow> if i < length (fileList c) then Some (fileList c ! i) else None)"

definition setBookmarks :: "nat \<Rightarrow> bookmark list \<Rightarrow> bookmarksController \<Rightarrow> bookmarksController" where
  "setBookmarks i bs c = c\<lparr>fileList := (fileList c)[i := (fileList c ! i)\<lparr>bookmarks := bs\<rparr>]\<rparr>"

definition activeBookmarks :: "state \<Rightarrow> bookmark list option" where
  "activeBookmarks st = map_option bookmarks (activeFile (bookmarksCtl st))"

section \<open>updateDecorations\<close>

text \<open>
  The second loop of \<^verbatim>\<open>updateDecorations\<close>: for each element of \<^verbatim>\<open>invalids\<close>,
  \<^verbatim>\<open>idxInvalid = indexOfBookmark(element)\<close> on the array as it is then, and
  \<^verbatim>\<open>splice(idxInvalid, 1)\<close>.
\<close>

fun removeInvalids :: "bookmark list \<Rightarrow> bookmark list \<Rightarrow> bookmark list" where
  "removeInvalids [] bs = bs"
| "removeInvalids (element # invalids) bs =
     removeInvalids invalids (splice_js (indexOfBookmark bs (Object element)) 1 bs)"

definition updateDecorations :: "state \<Rightarrow> state" where
  "updateDecorations st =
     (case activeEditor st of
        None \<Rightarrow> st
      | Some ed \<Rightarrow>
         (case activeBookmark (bookmarksCtl st) of
            None \<Rightarrow> st
          | Some i \<Rightarrow>
             (case activeFile (bookmarksCtl st) of
                None \<Rightarrow> st
              | Some f \<Rightarrow>
                 if length (bookmarks f) = 0 then emit (SetDecorations []) st
                 else if lineCount st (document ed) = 1 \<and> lineAt st (document ed) 0 = ''''
                 then emit (SetDecorations [])
                        (st\<lparr>bookmarksCtl := setBookmarks i [] (bookmarksCtl st)\<rparr>)
                 else
                   (let books = map line
                          (filter (\<lambda>element. line element \<le> lineCount st (document ed))
                             (bookmarks f));
                        invalids =
                          filter (\<lambda>element. \<not> line element \<le> lineCount st (document ed))
                            (bookmarks f)
                    in emit (SetDecorations books)
                         (st\<lparr>bookmarksCtl :=
                               setBookmarks i (removeInvalids invalids (bookmarks f))
                                 (bookmarksCtl st)\<rparr>)))))"

section \<open>What the extension takes from the core and from the host\<close>

text \<open>
  \<^verbatim>\<open>extension.ts\<close> imports the bookmarks core and runs inside the editor. The parts of
  both that no claim fixes are parameters of the model:
  \<^item> \<open>normalize\<close> is \<^verbatim>\<open>BookmarksController.normalize\<close>;
  \<^item> \<open>JSON_parse\<close> is \<^verbatim>\<open>JSON.parse\<close>, which throws on malformed input;
  \<^item> \<open>loadFrom\<close> is \<^verbatim>\<open>bookmarks.loadFrom(json, relativePath)\<close>: the controller as it
    leaves it, and what it threw, if it did;
  \<^item> \<open>zip_stringify\<close> is \<^verbatim>\<open>JSON.stringify(bookmarks.zip(relativePath))\<close>;
  \<^item> \<open>stickyBookmarks\<close> is \<^verbatim>\<open>Sticky.stickyBookmarks\<close>, called with the event, the
    tracked line count, the active file's bookmarks, the editor and the document's lines:
    its result and the bookmarks of the active file as it leaves them;
  \<^item> \<open>nextBookmark\<close> and \<open>nextDocumentWithBookmarks\<close> are the promises of the
    navigator: \<open>Inl\<close> is a rejection with its reason;
  \<^item> \<open>openTextDocument\<close> is the host opening a path (\<open>None\<close>: the promise rejects), and
    \<open>hostSelection\<close> the selection the host gives the editor it shows;
  \<^item> the three sentinel numbers of \<^verbatim>\<open>api/bookmark\<close>.
\<close>

record env =
  normalize :: "string \<Rightarrow> string"
  JSON_parse :: "string \<Rightarrow> error + json"
  loadFrom :: "json \<Rightarrow> bool \<Rightarrow> bookmarksController \<Rightarrow> bookmarksController \<times> error option"
  zip_stringify :: "bool \<Rightarrow> bookmarksController \<Rightarrow> string"
  stickyBookmarks ::
    "changeEvent \<Rightarrow> nat option \<Rightarrow> bookmark list \<Rightarrow> textEditor \<Rightarrow> string list
       \<Rightarrow> bool \<times> bookmark list"
  nextBookmark :: "bookmark list \<Rightarrow> position \<Rightarrow> direction \<Rightarrow> jsvalue + navResult"
  nextDocumentWithBookmarks :: "bookmarksController \<Rightarrow> direction \<Rightarrow> jsvalue + docResult"
  openTextDocument :: "string \<Rightarrow> docref option"
  hostSelection :: "docref \<Rightarrow> position"
  NO_BOOKMARKS_BEFORE :: int
  NO_BOOKMARKS_AFTER :: int
  NO_MORE_BOOKMARKS :: int

section \<open>Strings of numbers and errors\<close>

definition digitChar :: "nat \<Rightarrow> char" where
  "digitChar n = ''0123456789'' ! n"

fun showNat :: "nat \<Rightarrow> string" where
  "showNat n = (if n < 10 then [digitChar n] else showNat (n div 10) @ [digitChar (n mod 10)])"

declare showNat.simps [simp del]

definition showInt :: "int \<Rightarrow> string" where
  "showInt i = (if i < 0 then ''-'' @ showNat (nat (- i)) else showNat (nat i))"

fun errorToString :: "error \<Rightarrow> string" where
  "errorToString SyntaxError = ''SyntaxError''"
| "errorToString TypeError = ''TypeError''"
| "errorToString DuplicateLine = ''Error: DuplicateLine''"
| "errorToString IndexOutOfRange = ''Error: IndexOutOfRange''"
| "errorToString (OtherError m) = ''Error: '' @ m"

fun valueToString :: "jsvalue \<Rightarrow> string" where
  "valueToString (JSNumber n) = showInt n"
| "valueToString (JSPosition p) = ''[object Object]''"
| "valueToString (JSString s) = s"
| "valueToString (JSError e) = errorToString e"

fun navValue :: "navResult \<Rightarrow> jsvalue" where
  "navValue (NavNumber n) = JSNumber n"
| "navValue (NavPosition p) = JSPosition p"

fun docToString :: "docResult \<Rightarrow> string" where
  "docToString (DocNumber n) = showInt n"
| "docToString (DocPath p) = p"

section \<open>The core's controller\<close>

fun findFile :: "string \<Rightarrow> bookmarkedFile list \<Rightarrow> nat option" where
  "findFile p [] = None"
| "findFile p (f # fs) = (if path f = p then Some 0 else map_option Suc (findFile p fs))"

text \<open>
  Modelled from the spec: \<^verbatim>\<open>bookmarks.add(fsPath)\<close> is in the core. It is the spec's
  \<^verbatim>\<open>ensureFile(path)\<close>: it registers a new empty set for the normalized path unless one
  exists, and is idempotent.
\<close>

definition bookmarks_add :: "env \<Rightarrow> string \<Rightarrow> bookmarksController \<Rightarrow> bookmarksController" where
  "bookmarks_add env uri c =
     (let u = normalize env uri
      in if findFile u (fileList c) = None
         then c\<lparr>fileList := fileList c @ [\<lparr>path = u, bookmarks = []\<rparr>]\<rparr>
         else c)"

text \<open>
  Modelled from the spec: \<^verbatim>\<open>bookmarks.fromUri(fsPath)\<close> is in the core. It resolves the
  normalized path to its set, and is \<^verbatim>\<open>undefined\<close> when the path is unknown (the spec's
  \<^verbatim>\<open>setActive\<close> leaves the active reference undefined then).
\<close>

definition fromUri :: "env \<Rightarrow> string \<Rightarrow> bookmarksController \<Rightarrow> nat option" where
  "fromUri env uri c = findFile (normalize env uri) (fileList c)"

definition fileAt :: "bookmarksController \<Rightarrow> nat \<Rightarrow> bookmarkedFile option" where
  "fileAt c i = (if i < length (fileList c) then Some (fileList c ! i) else None)"

text \<open>The file an optional \<^verbatim>\<open>book\<close> argument stands for: \<^verbatim>\<open>book ? book : activeBookmark\<close>.\<close>

definition bookOrActive :: "nat option \<Rightarrow> bookmarksController \<Rightarrow> nat option" where
  "bookOrActive book c = (case book of Some i \<Rightarrow> Some i | None \<Rightarrow> activeBookmark c)"

text \<open>
  Modelled from the spec: \<^verbatim>\<open>bookmarks.addBookmark(position, label, book)\<close> is in the core.
  It is the spec's \<^verbatim>\<open>add(position, label)\<close> on the given or the active set: it inserts
  a new bookmark and keeps the order, and fails with \<^verbatim>\<open>DuplicateLine\<close> if the set has a
  bookmark at that line.
\<close>

definition addBookmark ::
  "position \<Rightarrow> string \<Rightarrow> nat option \<Rightarrow> bookmarksController \<Rightarrow> error + bookmarksController" where
  "addBookmark pos lbl book c =
     (case bookOrActive book c of
        None \<Rightarrow> Inl TypeError
      | Some i \<Rightarrow>
         (case fileAt c i of
            None \<Rightarrow> Inl TypeError
          | Some f \<Rightarrow>
             if pos_line pos \<in> set (map line (bookmarks f)) then Inl DuplicateLine
             else Inr (setBookmarks i
                         (insort_key line
                            \<lparr>line = pos_line pos, column = character pos, label = lbl\<rparr>
                            (bookmarks f)) c)))"

text \<open>
  Modelled from the spec: \<^verbatim>\<open>bookmarks.removeBookmark(index, line, book)\<close> is in the core.
  It is the spec's \<^verbatim>\<open>remove(index)\<close> on the given or the active set: it removes the
  entry at the index, and fails with \<^verbatim>\<open>IndexOutOfRange\<close> if the index is invalid.
\<close>

definition removeBookmark ::
  "int \<Rightarrow> int \<Rightarrow> nat option \<Rightarrow> bookmarksController \<Rightarrow> error + bookmarksController" where
  "removeBookmark index aline book c =
     (case bookOrActive book c of
        None \<Rightarrow> Inl TypeError
      | Some i \<Rightarrow>
         (case fileAt c i of
            None \<Rightarrow> Inl TypeError
          | Some f \<Rightarrow>
             if 0 \<le> index \<and> index < int (length (bookmarks f))
             then Inr (setBookmarks i
                         (take (nat index) (bookmarks f) @ drop (Suc (nat index)) (bookmarks f))
                         c)
             else Inl IndexOutOfRange))"

text \<open>
  Modelled from the spec: \<^verbatim>\<open>bookmarks.clear(book)\<close> and \<^verbatim>\<open>bookmarks.clearAll()\<close> are in
  the core. The spec's \<^verbatim>\<open>clear()\<close> empties a set and does not destroy the set object;
  \<^verbatim>\<open>clearAll\<close> does so for every set.
\<close>

definition bookmarks_clear :: "nat option \<Rightarrow> bookmarksController \<Rightarrow> error + bookmarksController" where
  "bookmarks_clear book c =
     (case bookOrActive book c of
        None \<Rightarrow> Inl TypeError
      | Some i \<Rightarrow>
         (case fileAt c i of
            None \<Rightarrow> Inl TypeError
          | Some f \<Rightarrow> Inr (setBookmarks i [] c)))"

definition clearAll :: "bookmarksController \<Rightarrow> bookmarksController" where
  "clearAll c = c\<lparr>fileList := map (\<lambda>f. f\<lparr>bookmarks := []\<rparr>) (fileList c)\<rparr>"

text \<open>
  Modelled from the spec: \<^verbatim>\<open>bookmarks.hasAnyBookmark()\<close> is in the core; it is true iff
  any owned set has at least one bookmark.
\<close>

definition hasAnyBookmark :: "bookmarksController \<Rightarrow> bool" where
  "hasAnyBookmark c = list_ex (\<lambda>f. bookmarks f \<noteq> []) (fileList c)"

section \<open>Persistence\<close>

definition canSaveBookmarksInProject :: "state \<Rightarrow> bool" where
  "canSaveBookmarksInProject st =
     (if saveBookmarksInProject st \<and>
         (case workspaceFolders st of None \<Rightarrow> True | Some folders \<Rightarrow> length folders > 1)
      then False
      else saveBookmarksInProject st)"

text \<open>\<^verbatim>\<open>path.join(workspaceFolders[0].uri.fsPath, ".vscode", "bookmarks.json")\<close>\<close>

definition bookmarksFileInProject :: "string \<Rightarrow> string" where
  "bookmarksFileInProject folder = folder @ ''/.vscode/bookmarks.json''"

text \<open>
  \<^verbatim>\<open>loadWorkspaceState\<close>: its result \<^verbatim>\<open>didLoadBookmarks\<close> and the state, or the exception
  that leaves it. \<^verbatim>\<open>workspaceFolders[0]\<close> of an empty array is \<^verbatim>\<open>undefined\<close>, and reading
  its \<^verbatim>\<open>uri\<close> throws.
\<close>

definition loadWorkspaceState :: "env \<Rightarrow> state \<Rightarrow> error + (bool \<times> state)" where
  "loadWorkspaceState env st0 =
     (let saveBookmarksInProject' = canSaveBookmarksInProject st0;
          st = st0\<lparr>bookmarksCtl := \<lparr>fileList = [], activeBookmark = None\<rparr>\<rparr>
      in if saveBookmarksInProject' then
           (case workspaceFolders st of
              None \<Rightarrow> Inr (False, st)
            | Some [] \<Rightarrow> Inl TypeError
            | Some (folder # _) \<Rightarrow>
               (case files st (bookmarksFileInProject folder) of
                  None \<Rightarrow> Inr (False, st)
                | Some content \<Rightarrow>
                   (case JSON_parse env content of
                      Inl e \<Rightarrow>
                        Inr (False,
                             emit (ShowErrorMessage
                                     (''Error loading Bookmarks: '' @ errorToString e)) st)
                    | Inr j \<Rightarrow>
                       (case loadFrom env j True (bookmarksCtl st) of
                          (c, None) \<Rightarrow> Inr (True, st\<lparr>bookmarksCtl := c\<rparr>)
                        | (c, Some e) \<Rightarrow>
                            Inr (False,
                                 emit (ShowErrorMessage
                                         (''Error loading Bookmarks: '' @ errorToString e))
                                   (st\<lparr>bookmarksCtl := c\<rparr>))))))
         else
           (let savedBookmarks = (case workspaceState st of None \<Rightarrow> '''' | Some s \<Rightarrow> s)
            in if savedBookmarks \<noteq> '''' then
                 (case JSON_parse env savedBookmarks of
                    Inl e \<Rightarrow> Inl e
                  | Inr j \<Rightarrow>
                     (case loadFrom env j False (bookmarksCtl st) of
                        (c, None) \<Rightarrow> Inr (True, st\<lparr>bookmarksCtl := c\<rparr>)
                      | (c, Some e) \<Rightarrow> Inl e))
               else Inr (False, st)))"

text \<open>
  \<^verbatim>\<open>saveWorkspaceState\<close>. The file system of the model maps a path to its content, and
  does not track directories. The trace records the controller that was saved.
\<close>

definition saveWorkspaceState :: "env \<Rightarrow> state \<Rightarrow> error + state" where
  "saveWorkspaceState env st =
     (if canSaveBookmarksInProject st then
        (case workspaceFolders st of
           None \<Rightarrow> Inl TypeError
         | Some [] \<Rightarrow> Inl TypeError
         | Some (folder # _) \<Rightarrow>
            (let file = bookmarksFileInProject folder
             in if \<not> hasAnyBookmark (bookmarksCtl st)
                then Inr (emit (SaveWorkspaceState (bookmarksCtl st))
                            (if files st file \<noteq> None
                             then st\<lparr>files := (files st)(file := None)\<rparr> else st))
                else Inr (emit (SaveWorkspaceState (bookmarksCtl st))
                            (st\<lparr>files := (files st)
                                  (file \<mapsto> zip_stringify env True (bookmarksCtl st))\<rparr>))))
      else Inr (emit (SaveWorkspaceState (bookmarksCtl st))
                  (st\<lparr>workspaceState := Some (zip_stringify env False (bookmarksCtl st))\<rparr>)))"

text \<open>What the persistent storage holds when the controller \<open>c\<close> has been saved to it.\<close>

definition persisted :: "env \<Rightarrow> bookmarksController \<Rightarrow> state \<Rightarrow> bool" where
  "persisted env c st =
     (if canSaveBookmarksInProject st then
        (case workspaceFolders st of
           Some (folder # _) \<Rightarrow>
             files st (bookmarksFileInProject folder) =
               (if hasAnyBookmark c then Some (zip_stringify env True c) else None)
         | _ \<Rightarrow> False)
      else workspaceState st = Some (zip_stringify env False c))"

section \<open>Activation and the editor's events\<close>

text \<open>\<^verbatim>\<open>triggerUpdateDecorations\<close> sets the timer that will run \<^verbatim>\<open>updateDecorations\<close>.\<close>

definition triggerUpdateDecorations :: "state \<Rightarrow> state" where
  "triggerUpdateDecorations st = st\<lparr>timeout := True\<rparr>"

definition setActiveBookmark :: "nat option \<Rightarrow> state \<Rightarrow> state" where
  "setActiveBookmark r st = st\<lparr>bookmarksCtl := (bookmarksCtl st)\<lparr>activeBookmark := r\<rparr>\<rparr>"

text \<open>
  \<^verbatim>\<open>activate\<close>, as far as the bookmarks, the tracked line count and the active editor go:
  the closure's variables start undefined, the saved bookmarks are loaded, and the editor
  that is active then is connected.
\<close>

definition activate :: "env \<Rightarrow> state \<Rightarrow> error + state" where
  "activate env st0 =
     (case loadWorkspaceState env
             (st0\<lparr>activeEditorCountLine := None, activeEditor := None, timeout := False\<rparr>) of
        Inl e \<Rightarrow> Inl e
      | Inr (didLoadBookmarks, st1) \<Rightarrow>
         (let st2 = st1\<lparr>activeEditor := window_activeTextEditor st1\<rparr>
          in case activeEditor st2 of
               None \<Rightarrow> Inr st2
             | Some ed \<Rightarrow>
                (let st3 = (if \<not> didLoadBookmarks
                            then st2\<lparr>bookmarksCtl :=
                                      bookmarks_add env (document ed) (bookmarksCtl st2)\<rparr>
                            else st2);
                     st4 = st3\<lparr>activeEditorCountLine := Some (lineCount st3 (document ed))\<rparr>;
                     st5 = setActiveBookmark (fromUri env (document ed) (bookmarksCtl st4)) st4
                 in Inr (triggerUpdateDecorations st5))))"

definition onDidOpenTextDocument :: "env \<Rightarrow> docref \<Rightarrow> state \<Rightarrow> state" where
  "onDidOpenTextDocument env doc st =
     st\<lparr>bookmarksCtl := bookmarks_add env doc (bookmarksCtl st)\<rparr>"

definition onDidChangeActiveTextEditor :: "env \<Rightarrow> textEditor option \<Rightarrow> state \<Rightarrow> state" where
  "onDidChangeActiveTextEditor env editor st0 =
     (let st = st0\<lparr>activeEditor := editor\<rparr>
      in case editor of
           None \<Rightarrow> st
         | Some ed \<Rightarrow>
            (let st1 = st\<lparr>activeEditorCountLine := Some (lineCount st (document ed))\<rparr>;
                 st2 = setActiveBookmark (fromUri env (document ed) (bookmarksCtl st1)) st1
             in triggerUpdateDecorations st2))"

text \<open>
  The call of \<^verbatim>\<open>Sticky.stickyBookmarks\<close> in the text-change handler, guarded by
  \<^verbatim>\<open>bookmarks.activeBookmark && bookmarks.activeBookmark.bookmarks.length > 0\<close>.
\<close>

definition callSticky :: "env \<Rightarrow> changeEvent \<Rightarrow> textEditor \<Rightarrow> state \<Rightarrow> bool \<times> state" where
  "callSticky env ev ed st =
     (case activeBookmark (bookmarksCtl st) of
        None \<Rightarrow> (False, st)
      | Some i \<Rightarrow>
         (case activeFile (bookmarksCtl st) of
            None \<Rightarrow> (False, st)
          | Some f \<Rightarrow>
             if length (bookmarks f) > 0 then
               (let (updatedBookmark, bs) =
                      stickyBookmarks env ev (activeEditorCountLine st) (bookmarks f) ed
                        (docs st (document ed))
                in (updatedBookmark,
                    emit (CallStickyBookmarks (activeEditorCountLine st))
                      (st\<lparr>bookmarksCtl := setBookmarks i bs (bookmarksCtl st)\<rparr>)))
             else (False, st)))"

text \<open>
  The handler of \<^verbatim>\<open>onDidChangeTextDocument\<close>. The host has changed the document before
  it fires the event, so \<open>docs\<close> holds the document after the edit; \<^verbatim>\<open>event.document\<close>
  and \<^verbatim>\<open>activeEditor.document\<close> are compared as references.
\<close>

definition onDidChangeTextDocument :: "env \<Rightarrow> changeEvent \<Rightarrow> state \<Rightarrow> error + state" where
  "onDidChangeTextDocument env ev st =
     (case activeEditor st of
        None \<Rightarrow> Inr st
      | Some ed \<Rightarrow>
         if ev_document ev = document ed then
           (if useWorkaroundForFormatters st then Inr (updateDecorations st)
            else
              (let (updatedBookmark, st1) = callSticky env ev ed st;
                   st2 = st1\<lparr>activeEditorCountLine := Some (lineCount st1 (ev_document ev))\<rparr>;
                   st3 = updateDecorations st2
               in if updatedBookmark then saveWorkspaceState env st3 else Inr st3))
         else Inr st)"

text \<open>The host edits a document: it replaces the lines, then fires the event.\<close>

definition hostChangesDocument ::
  "env \<Rightarrow> changeEvent \<Rightarrow> string list \<Rightarrow> state \<Rightarrow> error + state" where
  "hostChangesDocument env ev newLines st =
     onDidChangeTextDocument env ev (st\<lparr>docs := (docs st)(ev_document ev := newLines)\<rparr>)"

section \<open>Commands that clear and delete\<close>

definition clear :: "env \<Rightarrow> state \<Rightarrow> error + state" where
  "clear env st =
     (case window_activeTextEditor st of
        None \<Rightarrow> Inr (emit (ShowInformationMessage ''Open a file first to clear bookmarks'') st)
      | Some wed \<Rightarrow>
         (case bookmarks_clear None (bookmarksCtl st) of
            Inl e \<Rightarrow> Inl e
          | Inr c \<Rightarrow>
             (case saveWorkspaceState env (st\<lparr>bookmarksCtl := c\<rparr>) of
                Inl e \<Rightarrow> Inl e
              | Inr st1 \<Rightarrow> Inr (updateDecorations st1))))"

definition clearFromAllFiles :: "env \<Rightarrow> state \<Rightarrow> error + state" where
  "clearFromAllFiles env st =
     (case saveWorkspaceState env (st\<lparr>bookmarksCtl := clearAll (bookmarksCtl st)\<rparr>) of
        Inl e \<Rightarrow> Inl e
      | Inr st1 \<Rightarrow> Inr (updateDecorations st1))"

text \<open>
  The command \<^verbatim>\<open>bookmarks.deleteBookmark\<close>; \<open>arg0\<close> and \<open>arg1\<close> are
  \<^verbatim>\<open>node.command.arguments[0]\<close>, a path, and \<^verbatim>\<open>node.command.arguments[1]\<close>, a line
  counted from one.
\<close>

definition deleteBookmark :: "env \<Rightarrow> string \<Rightarrow> int \<Rightarrow> state \<Rightarrow> error + state" where
  "deleteBookmark env arg0 arg1 st =
     (case fromUri env arg0 (bookmarksCtl st) of
        None \<Rightarrow> Inl TypeError
      | Some book \<Rightarrow>
         (case fileAt (bookmarksCtl st) book of
            None \<Rightarrow> Inl TypeError
          | Some f \<Rightarrow>
             (let index = indexOfBookmark (bookmarks f) (Number (arg1 - 1));
                  st1 = emit (CallRemoveBookmark index (arg1 - 1)) st
              in case removeBookmark index (arg1 - 1) (Some book) (bookmarksCtl st1) of
                   Inl e \<Rightarrow> Inl e
                 | Inr c \<Rightarrow>
                    (case saveWorkspaceState env (st1\<lparr>bookmarksCtl := c\<rparr>) of
                       Inl e \<Rightarrow> Inl e
                     | Inr st2 \<Rightarrow> Inr (updateDecorations st2)))))"

section \<open>Toggling\<close>

text \<open>\<^verbatim>\<open>b.bookmarks.sort(...)\<close> on the file a reference stands for.\<close>

definition sortBookmarksOf :: "nat option \<Rightarrow> state \<Rightarrow> error + state" where
  "sortBookmarksOf b st =
     (case b of
        None \<Rightarrow> Inl TypeError
      | Some i \<Rightarrow>
         (case fileAt (bookmarksCtl st) i of
            None \<Rightarrow> Inl TypeError
          | Some f \<Rightarrow>
             Inr (st\<lparr>bookmarksCtl :=
                       setBookmarks i (sortByLine (bookmarks f)) (bookmarksCtl st)\<rparr>)))"

text \<open>
  The block "fix issue emptyAtLaunch" of \<^verbatim>\<open>toggle\<close> and \<^verbatim>\<open>toggleLabeled\<close>: without an
  active bookmark, the file of the active text editor is added and made active.
\<close>

definition ensureActiveBookmark :: "env \<Rightarrow> textEditor \<Rightarrow> state \<Rightarrow> state" where
  "ensureActiveBookmark env wed st =
     (if activeFile (bookmarksCtl st) = None then
        (let st1 = st\<lparr>bookmarksCtl := bookmarks_add env (document wed) (bookmarksCtl st)\<rparr>
         in setActiveBookmark (fromUri env (document wed) (bookmarksCtl st1)) st1)
      else st)"

definition toggle :: "env \<Rightarrow> state \<Rightarrow> error + state" where
  "toggle env st0 =
     (case window_activeTextEditor st0 of
        None \<Rightarrow> Inr (emit (ShowInformationMessage ''Open a file first to toggle bookmarks'') st0)
      | Some wed \<Rightarrow>
         (let position = selection_active wed;
              st = ensureActiveBookmark env wed st0
          in case activeFile (bookmarksCtl st) of
               None \<Rightarrow> Inl TypeError
             | Some f \<Rightarrow>
                (let index = indexOfBookmark (bookmarks f) (Number (int (pos_line position)))
                 in case
                      (if index < 0 then
                         (case addBookmark position '''' None (bookmarksCtl st) of
                            Inl e \<Rightarrow> Inl e
                          | Inr c \<Rightarrow>
                              Inr (emit (ShowTextDocument (document wed))
                                     (emit (CallAddBookmark (pos_line position))
                                        (st\<lparr>bookmarksCtl := c\<rparr>))))
                       else
                         (case removeBookmark index (int (pos_line position)) None
                                 (bookmarksCtl st) of
                            Inl e \<Rightarrow> Inl e
                          | Inr c \<Rightarrow>
                              Inr (emit (CallRemoveBookmark index (int (pos_line position)))
                                     (st\<lparr>bookmarksCtl := c\<rparr>))))
                    of
                      Inl e \<Rightarrow> Inl e
                    | Inr st1 \<Rightarrow>
                       (case sortBookmarksOf (activeBookmark (bookmarksCtl st1)) st1 of
                          Inl e \<Rightarrow> Inl e
                        | Inr st2 \<Rightarrow>
                           (case saveWorkspaceState env st2 of
                              Inl e \<Rightarrow> Inl e
                            | Inr st3 \<Rightarrow> Inr (updateDecorations st3))))))"

text \<open>
  The callback of \<^verbatim>\<open>askForBookmarkLabel\<close>, run on the state in which the input box
  resolves to \<open>bookmarkLabel\<close> (\<open>None\<close> is \<^verbatim>\<open>undefined\<close>: the user cancelled).
  \<open>oldLabel\<close> and \<open>book\<close> are optional arguments, and an omitted \<open>jumpToPosition\<close>
  is \<open>False\<close>.
\<close>

definition askForBookmarkLabel ::
  "env \<Rightarrow> int \<Rightarrow> position \<Rightarrow> string option \<Rightarrow> bool \<Rightarrow> nat option \<Rightarrow> string option \<Rightarrow> state
     \<Rightarrow> error + state" where
  "askForBookmarkLabel env index position oldLabel jumpToPosition book bookmarkLabel st =
     (case bookmarkLabel of
        None \<Rightarrow> Inr st
      | Some lbl \<Rightarrow>
         if lbl = '''' \<and> (oldLabel = Some '''' \<or> jumpToPosition)
         then Inr (emit (ShowWarningMessage ''You must define a label for the bookmark.'') st)
         else
           (case
              (if index \<ge> 0 then
                 (case removeBookmark index (int (pos_line position)) book (bookmarksCtl st) of
                    Inl e \<Rightarrow> Inl e
                  | Inr c \<Rightarrow>
                      Inr (emit (CallRemoveBookmark index (int (pos_line position)))
                             (st\<lparr>bookmarksCtl := c\<rparr>)))
               else Inr st)
            of
              Inl e \<Rightarrow> Inl e
            | Inr st1 \<Rightarrow>
               (case addBookmark position lbl book (bookmarksCtl st1) of
                  Inl e \<Rightarrow> Inl e
                | Inr c \<Rightarrow>
                   (let st2 = emit (CallAddBookmark (pos_line position))
                                (st1\<lparr>bookmarksCtl := c\<rparr>)
                    in case
                         (if jumpToPosition then
                            (case window_activeTextEditor st2 of
                               None \<Rightarrow> Inl TypeError
                             | Some wed \<Rightarrow> Inr (emit (ShowTextDocument (document wed)) st2))
                          else Inr st2)
                       of
                         Inl e \<Rightarrow> Inl e
                       | Inr st3 \<Rightarrow>
                          (case sortBookmarksOf (bookOrActive book (bookmarksCtl st3)) st3 of
                             Inl e \<Rightarrow> Inl e
                           | Inr st4 \<Rightarrow>
                              (case saveWorkspaceState env st4 of
                                 Inl e \<Rightarrow> Inl e
                               | Inr st5 \<Rightarrow> Inr (updateDecorations st5)))))))"

text \<open>
  \<^verbatim>\<open>toggleLabeled\<close>, with the label the user then types; no other event runs between the
  command and the input.
\<close>

definition toggleLabeled :: "env \<Rightarrow> string option \<Rightarrow> state \<Rightarrow> error + state" where
  "toggleLabeled env bookmarkLabel st0 =
     (case window_activeTextEditor st0 of
        None \<Rightarrow> Inr (emit (ShowInformationMessage ''Open a file first to toggle bookmarks'') st0)
      | Some wed \<Rightarrow>
         (let position = selection_active wed;
              st = ensureActiveBookmark env wed st0
          in case activeFile (bookmarksCtl st) of
               None \<Rightarrow> Inl TypeError
             | Some f \<Rightarrow>
                (let index = indexOfBookmark (bookmarks f) (Number (int (pos_line position)));
                     oldLabel = (if index > - 1 then label (bookmarks f ! nat index) else '''')
                 in if index < 0
                    then askForBookmarkLabel env index position None True None bookmarkLabel st
                    else askForBookmarkLabel env index position (Some oldLabel) False None
                           bookmarkLabel st)))"

section \<open>Jumping\<close>

definition revealLine :: "nat \<Rightarrow> state \<Rightarrow> error + state" where
  "revealLine ln st =
     (case window_activeTextEditor st of
        None \<Rightarrow> Inl TypeError
      | Some wed \<Rightarrow>
         (let reviewType = (if ln = pos_line (selection_active wed)
                            then InCenterIfOutsideViewport else InCenter);
              newSe = \<lparr>pos_line = ln, character = 0\<rparr>
          in Inr (emit (RevealRange ln 0 reviewType)
                    (st\<lparr>window_activeTextEditor := Some (wed\<lparr>selection_active := newSe\<rparr>)\<rparr>))))"

text \<open>\<^verbatim>\<open>revealPosition(line, column)\<close>; the column \<open>None\<close> is one that \<^verbatim>\<open>isNaN\<close> accepts.\<close>

definition revealPosition :: "nat \<Rightarrow> nat option \<Rightarrow> state \<Rightarrow> error + state" where
  "revealPosition ln col st =
     (case col of
        None \<Rightarrow> revealLine ln st
      | Some cl \<Rightarrow>
         (case window_activeTextEditor st of
            None \<Rightarrow> Inl TypeError
          | Some wed \<Rightarrow>
             (let reviewType = (if ln = pos_line (selection_active wed)
                                then InCenterIfOutsideViewport else InCenter);
                  newSe = \<lparr>pos_line = ln, character = cl\<rparr>
              in Inr (emit (RevealRange ln cl reviewType)
                        (st\<lparr>window_activeTextEditor :=
                              Some (wed\<lparr>selection_active := newSe\<rparr>)\<rparr>)))))"

definition checkBookmarks :: "env \<Rightarrow> jsvalue \<Rightarrow> state \<Rightarrow> bool \<times> state" where
  "checkBookmarks env result st =
     (if result = JSNumber (NO_BOOKMARKS_BEFORE env) \<or> result = JSNumber (NO_BOOKMARKS_AFTER env)
      then (False, emit (ShowInformationMessage ''No more bookmarks'') st)
      else (True, st))"

text \<open>
  The host shows a document: the editor on it becomes the active one, and the host fires
  \<^verbatim>\<open>onDidChangeActiveTextEditor\<close> before the promise of \<^verbatim>\<open>showTextDocument\<close> resolves.
\<close>

definition showTextDocument :: "env \<Rightarrow> docref \<Rightarrow> state \<Rightarrow> state" where
  "showTextDocument env doc st =
     (let editor = \<lparr>document = doc, selection_active = hostSelection env doc\<rparr>
      in onDidChangeActiveTextEditor env (Some editor)
           (emit (ShowTextDocument doc) (st\<lparr>window_activeTextEditor := Some editor\<rparr>)))"

text \<open>
  \<^verbatim>\<open>revealPosition(bookmarks.activeBookmark.bookmarks[k].line, ...[k].column)\<close> with
  \<open>k = 0\<close> in \<^verbatim>\<open>jumpToNext\<close> and \<open>k = length - 1\<close> in \<^verbatim>\<open>jumpToPrevious\<close>.
\<close>

definition revealActiveBookmark :: "direction \<Rightarrow> state \<Rightarrow> error + state" where
  "revealActiveBookmark dir st =
     (case activeFile (bookmarksCtl st) of
        None \<Rightarrow> Inl TypeError
      | Some f \<Rightarrow>
         (case bookmarks f of
            [] \<Rightarrow> Inl TypeError
          | b # bs \<Rightarrow>
             (let target = (case dir of Forward \<Rightarrow> b | Backward \<Rightarrow> last (b # bs))
              in revealPosition (line target) (Some (column target)) st)))"

text \<open>
  The callback on the resolved \<^verbatim>\<open>nextDocumentWithBookmarks\<close>, the same in both jump
  commands but for the index. What is thrown in the branch of the same document reaches
  \<^verbatim>\<open>.catch(checkBookmarks)\<close>; the promise of the other branch is not returned, so a
  rejection there is handled by nobody.
\<close>

definition gotoNextDocument :: "env \<Rightarrow> direction \<Rightarrow> docResult \<Rightarrow> state \<Rightarrow> error + state" where
  "gotoNextDocument env dir nextDocument st =
     (if nextDocument = DocNumber (NO_MORE_BOOKMARKS env) then Inr st
      else
        (case window_activeTextEditor st of
           None \<Rightarrow> Inl TypeError
         | Some wed \<Rightarrow>
            (let activeDocument = normalize env (document wed)
             in if docToString nextDocument = activeDocument then revealActiveBookmark dir st
                else
                  (case openTextDocument env (docToString nextDocument) of
                     None \<Rightarrow> Inr st
                   | Some doc \<Rightarrow>
                      (let st1 = showTextDocument env doc (onDidOpenTextDocument env doc st)
                       in case revealActiveBookmark dir st1 of
                            Inl e \<Rightarrow> Inr st1
                          | Inr st2 \<Rightarrow> Inr st2)))))"

definition consultNextDocument :: "env \<Rightarrow> direction \<Rightarrow> state \<Rightarrow> state" where
  "consultNextDocument env dir st =
     (let st1 = emit (CallNextDocumentWithBookmarks dir) st
      in case nextDocumentWithBookmarks env (bookmarksCtl st1) dir of
           Inl reason \<Rightarrow> snd (checkBookmarks env reason st1)
         | Inr nextDocument \<Rightarrow>
            (case gotoNextDocument env dir nextDocument st1 of
               Inl e \<Rightarrow> snd (checkBookmarks env (JSError e) st1)
             | Inr st2 \<Rightarrow> st2))"

definition logReject :: "jsvalue \<Rightarrow> state \<Rightarrow> state" where
  "logReject reason st =
     emit (ConsoleLog (''activeBookmark.nextBookmark REJECT'' @ valueToString reason)) st"

definition jumpToNext :: "env \<Rightarrow> state \<Rightarrow> state" where
  "jumpToNext env st =
     (case window_activeTextEditor st of
        None \<Rightarrow> emit (ShowInformationMessage ''Open a file first to jump to bookmarks'') st
      | Some wed \<Rightarrow>
         (case activeFile (bookmarksCtl st) of
            None \<Rightarrow> st
          | Some f \<Rightarrow>
             (let st1 = emit (CallNextBookmark Forward) st
              in case nextBookmark env (bookmarks f) (selection_active wed) Forward of
                   Inl reason \<Rightarrow> logReject reason st1
                 | Inr next \<Rightarrow>
                    (case next of
                       NavNumber n \<Rightarrow>
                         (let (ok, st2) = checkBookmarks env (navValue next) st1
                          in if \<not> ok then st2 else consultNextDocument env Forward st2)
                     | NavPosition p \<Rightarrow>
                         (case revealPosition (pos_line p) (Some (character p)) st1 of
                            Inl e \<Rightarrow> logReject (JSError e) st1
                          | Inr st2 \<Rightarrow> st2)))))"

definition jumpToPrevious :: "env \<Rightarrow> state \<Rightarrow> state" where
  "jumpToPrevious env st =
     (case window_activeTextEditor st of
        None \<Rightarrow> emit (ShowInformationMessage ''Open a file first to jump to bookmarks'') st
      | Some wed \<Rightarrow>
         (case activeFile (bookmarksCtl st) of
            None \<Rightarrow> st
          | Some f \<Rightarrow>
             (let st1 = emit (CallNextBookmark Backward) st
              in case nextBookmark env (bookmarks f) (selection_active wed) Backward of
                   Inl reason \<Rightarrow> logReject reason st1
                 | Inr next \<Rightarrow>
                    (let (ok, st2) = checkBookmarks env (navValue next) st1
                     in if \<not> ok then st2
                        else
                          (case next of
                             NavNumber n \<Rightarrow> consultNextDocument env Backward st2
                           | NavPosition p \<Rightarrow>
                               (case revealPosition (pos_line p) (Some (character p)) st2 of
                                  Inl e \<Rightarrow> logReject (JSError e) st2
                                | Inr st3 \<Rightarrow> st3))))))"

section \<open>The core's navigator\<close>

text \<open>
  Modelled from the spec: the ordering of the position model is by line, then by column.
\<close>

definition positionBefore :: "position \<Rightarrow> position \<Rightarrow> bool" where
  "positionBefore p q =
     (pos_line p < pos_line q \<or> (pos_line p = pos_line q \<and> character p < character q))"

definition positionOf :: "bookmark \<Rightarrow> position" where
  "positionOf b = \<lparr>pos_line = line b, character = column b\<rparr>"

text \<open>
  Modelled from the spec: the navigator is in the core. The spec's
  \<^verbatim>\<open>nextWithinFile(currentPos, direction)\<close> finds, among the sorted bookmarks of the
  active set, the first bookmark strictly after \<^verbatim>\<open>currentPos\<close> (forward) or strictly
  before it (backward) in the ordering of positions; if there is none it returns the
  sentinel \<^verbatim>\<open>NO_BOOKMARKS_AFTER\<close> resp. \<^verbatim>\<open>NO_BOOKMARKS_BEFORE\<close>, and if the set is
  empty the sentinel \<^verbatim>\<open>NO_MORE_BOOKMARKS\<close>.
\<close>

definition nextWithinFile :: "env \<Rightarrow> bookmark list \<Rightarrow> position \<Rightarrow> direction \<Rightarrow> navResult" where
  "nextWithinFile env bs currentPos dir =
     (if bs = [] then NavNumber (NO_MORE_BOOKMARKS env)
      else
        (case dir of
           Forward \<Rightarrow>
             (case find (\<lambda>b. positionBefore currentPos (positionOf b)) (sortByLine bs) of
                None \<Rightarrow> NavNumber (NO_BOOKMARKS_AFTER env)
              | Some b \<Rightarrow> NavPosition (positionOf b))
         | Backward \<Rightarrow>
             (case find (\<lambda>b. positionBefore (positionOf b) currentPos) (rev (sortByLine bs)) of
                None \<Rightarrow> NavNumber (NO_BOOKMARKS_BEFORE env)
              | Some b \<Rightarrow> NavPosition (positionOf b))))"

text \<open>
  Modelled from the spec: \<^verbatim>\<open>nextFileWithBookmarks(fromFile, direction)\<close> iterates the
  files of the store in their order of insertion, treated as circular, starting just
  after resp. before \<^verbatim>\<open>fromFile\<close>, skips the files without bookmarks, and returns
  \<^verbatim>\<open>NO_MORE_BOOKMARKS\<close> if no other file qualifies. \<^verbatim>\<open>fromFile\<close> is the active file
  (the jump commands never ask without one).
\<close>

definition nextFileWithBookmarks :: "env \<Rightarrow> bookmarksController \<Rightarrow> direction \<Rightarrow> docResult" where
  "nextFileWithBookmarks env c dir =
     (case activeBookmark c of
        None \<Rightarrow> DocNumber (NO_MORE_BOOKMARKS env)
      | Some i \<Rightarrow>
         (let n = length (fileList c);
              later = [Suc i..<n];
              earlier = [0..<min i n];
              others = (case dir of
                          Forward \<Rightarrow> later @ earlier
                        | Backward \<Rightarrow> rev earlier @ rev later)
          in case find (\<lambda>j. bookmarks (fileList c ! j) \<noteq> []) others of
               None \<Rightarrow> DocNumber (NO_MORE_BOOKMARKS env)
             | Some j \<Rightarrow> DocPath (path (fileList c ! j))))"

text \<open>
  Modelled from the spec: the core whose navigator is the one above. Navigation is
  synchronous over the data in memory and returns a sentinel or a value, so both promises
  resolve to the result of the function.
\<close>

definition withNavigator :: "env \<Rightarrow> env" where
  "withNavigator env =
     env\<lparr>nextBookmark := (\<lambda>bs p dir. Inr (nextWithinFile env bs p dir)),
         nextDocumentWithBookmarks := (\<lambda>c dir. Inr (nextFileWithBookmarks env c dir))\<rparr>"

section \<open>Notions used to state the properties\<close>

text \<open>The controller with the active file's bookmarks cut down to their first \<open>n\<close>.\<close>

definition pruneActive :: "nat \<Rightarrow> bookmarksController \<Rightarrow> bookmarksController" where
  "pruneActive n c =
     (case activeBookmark c of
        None \<Rightarrow> c
      | Some i \<Rightarrow>
          if i < length (fileList c)
          then setBookmarks i (take n (bookmarks (fileList c ! i))) c
          else c)"

definition isSetDecorations :: "event \<Rightarrow> bool" where
  "isSetDecorations e = (case e of SetDecorations ls \<Rightarrow> True | _ \<Rightarrow> False)"

definition isSave :: "event \<Rightarrow> bool" where
  "isSave e = (case e of SaveWorkspaceState c \<Rightarrow> True | _ \<Rightarrow> False)"

definition isConsoleLog :: "event \<Rightarrow> bool" where
  "isConsoleLog e = (case e of ConsoleLog m \<Rightarrow> True | _ \<Rightarrow> False)"

text \<open>The events a handler added to the trace of the state it started from.\<close>

definition newEvents :: "state \<Rightarrow> state \<Rightarrow> event list" where
  "newEvents st st' = drop (length (trace st)) (trace st')"

text \<open>
  The tracked line count is the line count of the active editor's document (nothing is
  asked of it while no editor is active).
\<close>

definition countTracksDocument :: "state \<Rightarrow> bool" where
  "countTracksDocument st =
     (case activeEditor st of
        None \<Rightarrow> True
      | Some ed \<Rightarrow> activeEditorCountLine st = Some (lineCount st (document ed)))"

text \<open>
  \<open>withinDocument st bs\<close>: the decoration pass of \<open>st\<close> finds nothing to cut from the
  bookmarks \<open>bs\<close>: no editor is active, or its document is not the empty one and has
  a line for each of them.
\<close>

definition withinDocument :: "state \<Rightarrow> bookmark list \<Rightarrow> bool" where
  "withinDocument st bs =
     (case activeEditor st of
        None \<Rightarrow> True
      | Some ed \<Rightarrow>
          \<not> (lineCount st (document ed) = 1 \<and> lineAt st (document ed) 0 = '''') \<and>
          list_all (\<lambda>b. line b \<le> lineCount st (document ed)) bs)"

text \<open>
  \<open>savedStore env st st' c\<close>: between \<open>st\<close> and \<open>st'\<close> the handler has called
  \<^verbatim>\<open>saveWorkspaceState\<close> once, on the controller \<open>c\<close>, and the persistent storage of
  \<open>st'\<close> holds \<open>c\<close>.
\<close>

definition savedStore :: "env \<Rightarrow> state \<Rightarrow> state \<Rightarrow> bookmarksController \<Rightarrow> bool" where
  "savedStore env st st' c =
     (filter isSave (newEvents st st') = [SaveWorkspaceState c] \<and> persisted env c st')"

text \<open>
  \<open>sortedAt i c\<close>: the controller \<open>c\<close> after \<^verbatim>\<open>bookmarks.sort(...)\<close> on its file
  \<open>i\<close>. \<open>savedThenDecorated env st st' c\<close>: the handler has saved \<open>c\<close> and has
  then run the decoration pass on it, which gave the controller of \<open>st'\<close>.
\<close>

definition sortedAt :: "nat \<Rightarrow> bookmarksController \<Rightarrow> bookmarksController" where
  "sortedAt i c = setBookmarks i (sortByLine (bookmarks (fileList c ! i))) c"

definition savedThenDecorated ::
  "env \<Rightarrow> state \<Rightarrow> state \<Rightarrow> bookmarksController \<Rightarrow> bool" where
  "savedThenDecorated env st st' c =
     (savedStore env st st' c \<and>
      bookmarksCtl st' = bookmarksCtl (updateDecorations (st\<lparr>bookmarksCtl := c\<rparr>)))"

section \<open>A concrete editor session\<close>

text \<open>
  One file \<^verbatim>\<open>/a.txt\<close>, open in the active editor with the cursor at line \<open>cur\<close>, with
  the bookmarks \<open>bs\<close> and the lines \<open>ls\<close>; bookmarks are saved in the workspace
  state.
\<close>

definition mark :: "nat \<Rightarrow> bookmark" where
  "mark l = \<lparr>line = l, column = 0, label = ''''\<rparr>"

definition exampleEditor :: "nat \<Rightarrow> textEditor" where
  "exampleEditor cur =
     \<lparr>document = ''/a.txt'', selection_active = \<lparr>pos_line = cur, character = 0\<rparr>\<rparr>"

definition exampleState :: "bookmark list \<Rightarrow> string list \<Rightarrow> nat \<Rightarrow> state" where
  "exampleState bs ls cur =
     \<lparr>bookmarksCtl =
        \<lparr>fileList = [\<lparr>path = ''/a.txt'', bookmarks = bs\<rparr>], activeBookmark = Some 0\<rparr>,
      activeEditorCountLine = Some (length ls),
      activeEditor = Some (exampleEditor cur),
      timeout = False,
      window_activeTextEditor = Some (exampleEditor cur),
      docs = (\<lambda>d. ls),
      useWorkaroundForFormatters = False,
      saveBookmarksInProject = False,
      workspaceFolders = None,
      files = (\<lambda>p. None),
      workspaceState = None,
      trace = []\<rparr>"

text \<open>
  A core and a host to run the session with: paths are their own normal form, the parser
  accepts the empty object only, the adjuster reports no change, and both navigators
  find nothing.
\<close>

definition exampleEnv :: env where
  "exampleEnv =
     \<lparr>normalize = (\<lambda>p. p),
      JSON_parse = (\<lambda>s. if s = ''{}'' then Inr (JObj []) else Inl SyntaxError),
      loadFrom = (\<lambda>j relativePath c. (c, None)),
      zip_stringify = (\<lambda>relativePath c. ''{}''),
      stickyBookmarks = (\<lambda>ev n bs ed ls. (False, bs)),
      nextBookmark = (\<lambda>bs p d. Inr (NavNumber (- 3))),
      nextDocumentWithBookmarks = (\<lambda>c d. Inr (DocNumber (- 3))),
      openTextDocument = (\<lambda>p. None),
      hostSelection = (\<lambda>d. \<lparr>pos_line = 0, character = 0\<rparr>),
      NO_BOOKMARKS_BEFORE = - 1,
      NO_BOOKMARKS_AFTER = - 2,
      NO_MORE_BOOKMARKS = - 3\<rparr>"

text \<open>
  The same core with an adjuster that moves every bookmark one line down and reports the
  update.
\<close>

definition stickyEnv :: env where
  "stickyEnv =
     exampleEnv\<lparr>stickyBookmarks :=
                  (\<lambda>ev n bs ed ls. (True, map (\<lambda>b. b\<lparr>line := line b + 1\<rparr>) bs))\<rparr>"

text \<open>A text change in \<^verbatim>\<open>/a.txt\<close>, and documents of five and six lines.\<close>

definition exampleEvent :: changeEvent where
  "exampleEvent = \<lparr>ev_document = ''/a.txt'', contentChanges = []\<rparr>"

definition fiveLines :: "string list" where
  "fiveLines = [''a'', ''b'', ''c'', ''d'', ''e'']"

definition sixLines :: "string list" where
  "sixLines = [''a'', ''b'', ''c'', ''d'', ''e'', ''f'']"

text \<open>
  A session with a second file \<^verbatim>\<open>/b.txt\<close> that has bookmarks at lines 4 and 9, a
  navigator that finds it, and a host that opens every path.
\<close>

definition twoFileState :: state where
  "twoFileState =
     (exampleState [mark 1] fiveLines 0)
       \<lparr>bookmarksCtl :=
          \<lparr>fileList = [\<lparr>path = ''/a.txt'', bookmarks = [mark 1]\<rparr>,
                       \<lparr>path = ''/b.txt'', bookmarks = [mark 4, mark 9]\<rparr>],
           activeBookmark = Some 0\<rparr>\<rparr>"

definition crossFileEnv :: env where
  "crossFileEnv =
     exampleEnv\<lparr>nextDocumentWithBookmarks := (\<lambda>c d. Inr (DocPath ''/b.txt'')),
                openTextDocument := (\<lambda>p. Some p)\<rparr>"

text \<open>
  The session with three lines, a bookmark at line 1 and the workaround for formatters
  switched on, and the state in which the handler leaves it when the document grows to
  five lines.
\<close>

definition workaroundState :: state where
  "workaroundState =
     (exampleState [mark 1] [''a'', ''b'', ''c''] 0)\<lparr>useWorkaroundForFormatters := True\<rparr>"

definition afterWorkaroundEdit :: state where
  "afterWorkaroundEdit =
     updateDecorations (workaroundState\<lparr>docs := (docs workaroundState)(''/a.txt'' := fiveLines)\<rparr>)"

section \<open>Properties of the decoration pass\<close>

lemma indexOfBookmark_Object: "indexOfBookmark bs (Object e) = - 1"
  by (induction bs) simp_all

lemma splice_last: "splice_js (- 1) 1 xs = butlast xs"
proof (cases xs rule: rev_cases)
  case Nil
  then show ?thesis by (simp add: splice_js_def)
next
  case (snoc ys y)
  then show ?thesis by (simp add: splice_js_def Let_def)
qed

lemma removeInvalids_take: "removeInvalids invalids bs = take (length bs - length invalids) bs"
proof (induction invalids arbitrary: bs)
  case Nil
  then show ?case by simp
next
  case (Cons e invalids)
  have "take (length (butlast bs) - length invalids) (butlast bs) =
        take (length bs - Suc (length invalids)) bs"
    by (simp add: butlast_conv_take min_def)
  with Cons show ?case
    by (simp add: indexOfBookmark_Object splice_last)
qed

lemma setBookmarks_same: "setBookmarks i (bookmarks (fileList c ! i)) c = c"
  by (simp add: setBookmarks_def)

lemma activeFile_SomeD:
  "activeFile c = Some f \<Longrightarrow>
   \<exists>i. activeBookmark c = Some i \<and> i < length (fileList c) \<and> f = fileList c ! i"
  by (auto simp: activeFile_def split: option.splits if_splits)

lemma activeFile_setBookmarks:
  "activeBookmark c = Some i \<Longrightarrow> i < length (fileList c) \<Longrightarrow>
   activeFile (setBookmarks i bs c) = Some ((fileList c ! i)\<lparr>bookmarks := bs\<rparr>)"
  by (simp add: activeFile_def setBookmarks_def)

lemma activeBookmarks_SomeD:
  "activeBookmarks st = Some bs \<Longrightarrow>
   \<exists>i f. activeBookmark (bookmarksCtl st) = Some i \<and> i < length (fileList (bookmarksCtl st)) \<and>
         activeFile (bookmarksCtl st) = Some f \<and> f = fileList (bookmarksCtl st) ! i \<and>
         bookmarks f = bs"
  by (auto simp: activeBookmarks_def dest: activeFile_SomeD)

lemma pruneActive_id: "\<exists>n. pruneActive n c = c"
proof (cases "activeBookmark c")
  case None
  then show ?thesis by (simp add: pruneActive_def)
next
  case (Some i)
  then have "pruneActive (length (bookmarks (fileList c ! i))) c = c"
    by (simp add: pruneActive_def setBookmarks_same)
  then show ?thesis ..
qed

text \<open>
  Whatever branch it takes, the pass leaves a prefix of the active file's bookmarks,
  adds only decorations to the trace, and changes nothing else.
\<close>

lemma updateDecorations_shape:
  "\<exists>n ds. updateDecorations st =
          st\<lparr>bookmarksCtl := pruneActive n (bookmarksCtl st), trace := trace st @ ds\<rparr>
        \<and> list_all isSetDecorations ds"
proof -
  let ?c = "bookmarksCtl st"
  obtain n0 where n0: "pruneActive n0 ?c = ?c" using pruneActive_id by blast
  have same: "st = st\<lparr>bookmarksCtl := pruneActive n0 ?c, trace := trace st @ []\<rparr>"
    using n0 by simp
  have one: "emit (SetDecorations []) st =
      st\<lparr>bookmarksCtl := pruneActive n0 ?c, trace := trace st @ [SetDecorations []]\<rparr>"
    using n0 by (simp add: emit_def)
  have prune: "emit (SetDecorations ds)
        (st\<lparr>bookmarksCtl := setBookmarks i (take n (bookmarks f)) ?c\<rparr>) =
      st\<lparr>bookmarksCtl := pruneActive n ?c, trace := trace st @ [SetDecorations ds]\<rparr>"
    if "activeFile ?c = Some f" "activeBookmark ?c = Some i" for ds i n f
    using that activeFile_SomeD [of ?c f] by (auto simp: emit_def pruneActive_def)
  consider (unchanged) "updateDecorations st = st"
    | (redraw) "updateDecorations st = emit (SetDecorations []) st"
    | (pruned) ds i n f where "activeFile ?c = Some f" "activeBookmark ?c = Some i"
        "updateDecorations st =
           emit (SetDecorations ds)
             (st\<lparr>bookmarksCtl := setBookmarks i (take n (bookmarks f)) ?c\<rparr>)"
  proof (cases "activeEditor st")
    case None
    then show ?thesis using unchanged by (simp add: updateDecorations_def)
  next
    case ed: (Some ed)
    show ?thesis
    proof (cases "activeBookmark ?c")
      case None
      then show ?thesis using unchanged ed by (simp add: updateDecorations_def)
    next
      case i: (Some i)
      show ?thesis
      proof (cases "activeFile ?c")
        case None
        then show ?thesis using unchanged ed i by (simp add: updateDecorations_def)
      next
        case f: (Some f)
        show ?thesis
        proof (cases "length (bookmarks f) = 0")
          case True
          then show ?thesis using redraw ed i f by (simp add: updateDecorations_def)
        next
          case nonempty: False
          show ?thesis
          proof (cases "lineCount st (document ed) = 1 \<and> lineAt st (document ed) 0 = ''''")
            case True
            then have "updateDecorations st =
               emit (SetDecorations [])
                 (st\<lparr>bookmarksCtl := setBookmarks i (take 0 (bookmarks f)) ?c\<rparr>)"
              using ed i f nonempty by (simp add: updateDecorations_def)
            then show ?thesis using pruned f i by blast
          next
            case False
            then have "\<exists>ds n. updateDecorations st =
               emit (SetDecorations ds)
                 (st\<lparr>bookmarksCtl := setBookmarks i (take n (bookmarks f)) ?c\<rparr>)"
              using ed i f nonempty
              by (auto simp: updateDecorations_def Let_def removeInvalids_take)
            then show ?thesis using pruned f i by blast
          qed
        qed
      qed
    qed
  qed
  then show ?thesis
  proof cases
    case unchanged
    then have "updateDecorations st =
        st\<lparr>bookmarksCtl := pruneActive n0 ?c, trace := trace st @ []\<rparr>
       \<and> list_all isSetDecorations []"
      using same by simp
    then show ?thesis by blast
  next
    case redraw
    then have "updateDecorations st =
        st\<lparr>bookmarksCtl := pruneActive n0 ?c, trace := trace st @ [SetDecorations []]\<rparr>
       \<and> list_all isSetDecorations [SetDecorations []]"
      using one by (simp add: isSetDecorations_def)
    then show ?thesis by blast
  next
    case (pruned ds i n f)
    then have "updateDecorations st =
        st\<lparr>bookmarksCtl := pruneActive n ?c, trace := trace st @ [SetDecorations ds]\<rparr>
       \<and> list_all isSetDecorations [SetDecorations ds]"
      using prune by (simp add: isSetDecorations_def)
    then show ?thesis by blast
  qed
qed

text \<open>
  In a list sorted by line, the bookmarks beyond a line count are the last ones, so
  cutting as many from the end as there are invalid ones leaves the valid ones.
\<close>

lemma take_valid_sorted:
  "sorted (map line bs) \<Longrightarrow>
   take (length bs - length (filter (\<lambda>e. \<not> line e \<le> n) bs)) bs =
   filter (\<lambda>e. line e \<le> n) bs"
proof (induction bs)
  case Nil
  then show ?case by simp
next
  case (Cons b bs)
  show ?case
  proof (cases "line b \<le> n")
    case True
    have "length (filter (\<lambda>e. \<not> line e \<le> n) bs) \<le> length bs" by simp
    then have "Suc (length bs) - length (filter (\<lambda>e. \<not> line e \<le> n) bs) =
               Suc (length bs - length (filter (\<lambda>e. \<not> line e \<le> n) bs))"
      by arith
    with True Cons show ?thesis by simp
  next
    case False
    with Cons.prems have "\<forall>e\<in>set bs. \<not> line e \<le> n" by auto
    then have "filter (\<lambda>e. \<not> line e \<le> n) bs = bs" "filter (\<lambda>e. line e \<le> n) bs = []"
      by (simp_all add: filter_id_conv filter_empty_conv)
    with False show ?thesis by simp
  qed
qed

lemma updateDecorations_valid_if_sorted:
  assumes "activeEditor st = Some ed" and "activeBookmarks st = Some bs"
    and "sorted (map line bs)" and "b \<in> set (the (activeBookmarks (updateDecorations st)))"
  shows "line b \<le> lineCount st (document ed)"
proof -
  from assms(2) obtain i f where
    i: "activeBookmark (bookmarksCtl st) = Some i" "i < length (fileList (bookmarksCtl st))" and
    f: "activeFile (bookmarksCtl st) = Some f" "bookmarks f = bs"
    using activeBookmarks_SomeD by blast
  show ?thesis
  proof (cases "bs = [] \<or> (lineCount st (document ed) = 1 \<and> lineAt st (document ed) 0 = '''')")
    case True
    then have "activeBookmarks (updateDecorations st) = Some []"
      using assms(1) i f
      by (auto simp: updateDecorations_def activeBookmarks_def emit_def activeFile_setBookmarks)
    with assms(4) show ?thesis by simp
  next
    case False
    then have "activeBookmarks (updateDecorations st) =
       Some (filter (\<lambda>e. line e \<le> lineCount st (document ed)) bs)"
      using assms(1,3) i f
      by (auto simp: updateDecorations_def activeBookmarks_def emit_def activeFile_setBookmarks
          Let_def removeInvalids_take take_valid_sorted)
    with assms(4) show ?thesis by simp
  qed
qed

section \<open>The claims about the decoration pass\<close>

text \<open>
  C1. The claim: after \<^verbatim>\<open>updateDecorations\<close> has run over the active file's bookmarks,
  every bookmark whose line exceeds the document's line count has been removed, so that
  every bookmark that remains has its line within the line count. The pass looks each
  invalid bookmark up with \<^verbatim>\<open>indexOfBookmark(element)\<close>, passing the bookmark where the
  line is expected; the search finds nothing, and \<^verbatim>\<open>splice(-1, 1)\<close> removes the last
  entry instead. With the bookmarks at lines 10 and 2, in that order, in a document of
  five lines, the pass removes the bookmark at line 2 and keeps the one at line 10.
\<close>

theorem updateDecorations_keeps_invalid_bookmark:
  "activeBookmarks (exampleState [mark 10, mark 2] [''a'', ''b'', ''c'', ''d'', ''e''] 0) =
     Some [mark 10, mark 2] \<and>
   lineCount (exampleState [mark 10, mark 2] [''a'', ''b'', ''c'', ''d'', ''e''] 0) ''/a.txt'' = 5 \<and>
   activeBookmarks
     (updateDecorations (exampleState [mark 10, mark 2] [''a'', ''b'', ''c'', ''d'', ''e''] 0)) =
     Some [mark 10]"
  by (simp add: exampleState_def updateDecorations_def activeBookmarks_def activeFile_def
      lineCount_def lineAt_def emit_def setBookmarks_def splice_js_def mark_def
      exampleEditor_def)

text \<open>
  C2. When the document of the active editor has exactly one line and that line is the
  empty string, \<^verbatim>\<open>updateDecorations\<close> leaves the active file with no bookmarks.
\<close>

theorem updateDecorations_empty_document:
  assumes "activeEditor st = Some ed" and "activeBookmarks st = Some bs"
    and "lineCount st (document ed) = 1" and "lineAt st (document ed) 0 = ''''"
  shows "activeBookmarks (updateDecorations st) = Some []"
proof -
  from assms(2) obtain i f where
    i: "activeBookmark (bookmarksCtl st) = Some i" "i < length (fileList (bookmarksCtl st))" and
    f: "activeFile (bookmarksCtl st) = Some f" "bookmarks f = bs"
    using activeBookmarks_SomeD by blast
  show ?thesis
  proof (cases "bs = []")
    case True
    then show ?thesis
      using assms i f by (simp add: updateDecorations_def activeBookmarks_def emit_def)
  next
    case False
    then show ?thesis
      using assms i f
      by (simp add: updateDecorations_def activeBookmarks_def emit_def activeFile_setBookmarks)
  qed
qed

theorem updateDecorations_empty_document_witness:
  "activeEditor (exampleState [mark 3, mark 7] [''''] 0) = Some (exampleEditor 0) \<and>
   activeBookmarks (exampleState [mark 3, mark 7] [''''] 0) = Some [mark 3, mark 7] \<and>
   lineCount (exampleState [mark 3, mark 7] [''''] 0) ''/a.txt'' = 1 \<and>
   lineAt (exampleState [mark 3, mark 7] [''''] 0) ''/a.txt'' 0 = '''' \<and>
   activeBookmarks (updateDecorations (exampleState [mark 3, mark 7] [''''] 0)) = Some []"
proof -
  let ?st = "exampleState [mark 3, mark 7] [''''] 0"
  let ?ed = "exampleEditor 0"
  have h1: "activeEditor ?st = Some ?ed" by (simp add: exampleState_def)
  have h2: "activeBookmarks ?st = Some [mark 3, mark 7]"
    by (simp add: exampleState_def activeBookmarks_def activeFile_def)
  have h3: "lineCount ?st (document ?ed) = 1" by (simp add: exampleState_def lineCount_def)
  have h4: "lineAt ?st (document ?ed) 0 = ''''" by (simp add: exampleState_def lineAt_def)
  from updateDecorations_empty_document [OF h1 h2 h3 h4] h1 h2 h3 h4 show ?thesis
    by (simp add: exampleEditor_def)
qed

section \<open>Loading the saved bookmarks\<close>

text \<open>
  The branch of the project file: a missing file gives the empty controller, and so does
  a file that does not parse, with the error shown to the user; with a workspace folder,
  this branch always returns.
\<close>

lemma loadWorkspaceState_project_missing:
  assumes "canSaveBookmarksInProject st" and "workspaceFolders st = Some (folder # folders)"
    and "files st (bookmarksFileInProject folder) = None"
  shows "loadWorkspaceState env st =
           Inr (False, st\<lparr>bookmarksCtl := \<lparr>fileList = [], activeBookmark = None\<rparr>\<rparr>)"
  using assms by (simp add: loadWorkspaceState_def Let_def)

lemma loadWorkspaceState_project_malformed:
  assumes "canSaveBookmarksInProject st" and "workspaceFolders st = Some (folder # folders)"
    and "files st (bookmarksFileInProject folder) = Some content"
    and "JSON_parse env content = Inl e"
  shows "loadWorkspaceState env st =
           Inr (False, emit (ShowErrorMessage (''Error loading Bookmarks: '' @ errorToString e))
                         (st\<lparr>bookmarksCtl := \<lparr>fileList = [], activeBookmark = None\<rparr>\<rparr>))"
  using assms by (simp add: loadWorkspaceState_def Let_def)

lemma loadWorkspaceState_project_returns:
  assumes "canSaveBookmarksInProject st" and "workspaceFolders st = Some (folder # folders)"
  shows "\<exists>r. loadWorkspaceState env st = Inr r"
  using assms
  by (auto simp: loadWorkspaceState_def Let_def split: option.splits sum.splits prod.splits)

text \<open>
  The branch of the workspace state: nothing saved gives the empty controller, but a
  saved string that does not parse makes \<^verbatim>\<open>JSON.parse\<close> throw outside any
  \<^verbatim>\<open>try\<close>, and the exception leaves \<^verbatim>\<open>loadWorkspaceState\<close>.
\<close>

lemma loadWorkspaceState_workspaceState_missing:
  assumes "\<not> canSaveBookmarksInProject st"
    and "workspaceState st = None \<or> workspaceState st = Some ''''"
  shows "loadWorkspaceState env st =
           Inr (False, st\<lparr>bookmarksCtl := \<lparr>fileList = [], activeBookmark = None\<rparr>\<rparr>)"
  using assms by (auto simp: loadWorkspaceState_def Let_def)

lemma loadWorkspaceState_workspaceState_throws:
  assumes "\<not> canSaveBookmarksInProject st" and "workspaceState st = Some s" and "s \<noteq> ''''"
    and "JSON_parse env s = Inl e"
  shows "loadWorkspaceState env st = Inl e"
  using assms by (simp add: loadWorkspaceState_def Let_def)

text \<open>
  C3. The claim: loading tolerates a missing source and malformed JSON, and
  \<^verbatim>\<open>loadWorkspaceState\<close> never lets an exception reach its caller, in the branch of the
  project file and in the branch of the workspace state. With bookmarks saved in the
  workspace state and the saved string \<^verbatim>\<open>{\<close>, which the parser rejects,
  \<^verbatim>\<open>loadWorkspaceState\<close> ends with the parser's \<^verbatim>\<open>SyntaxError\<close>.
\<close>

theorem loadWorkspaceState_propagates_SyntaxError:
  "\<not> canSaveBookmarksInProject ((exampleState [] [''a''] 0)\<lparr>workspaceState := Some ''{''\<rparr>) \<and>
   JSON_parse exampleEnv ''{'' = Inl SyntaxError \<and>
   loadWorkspaceState exampleEnv ((exampleState [] [''a''] 0)\<lparr>workspaceState := Some ''{''\<rparr>) =
     Inl SyntaxError"
  by (simp add: loadWorkspaceState_def canSaveBookmarksInProject_def exampleState_def
      exampleEnv_def)

section \<open>Saving, and what the handlers leave unchanged\<close>

lemma canSave_cong:
  "saveBookmarksInProject st' = saveBookmarksInProject st \<Longrightarrow>
   workspaceFolders st' = workspaceFolders st \<Longrightarrow>
   canSaveBookmarksInProject st' = canSaveBookmarksInProject st"
  by (simp add: canSaveBookmarksInProject_def)

lemma saveWorkspaceState_shape:
  assumes "saveWorkspaceState env st = Inr st'"
  shows "\<exists>fs ws. st' = st\<lparr>files := fs, workspaceState := ws,
                          trace := trace st @ [SaveWorkspaceState (bookmarksCtl st)]\<rparr>"
proof (cases "canSaveBookmarksInProject st")
  case False
  then have "st' = st\<lparr>files := files st,
       workspaceState := Some (zip_stringify env False (bookmarksCtl st)),
       trace := trace st @ [SaveWorkspaceState (bookmarksCtl st)]\<rparr>"
    using assms by (auto simp: saveWorkspaceState_def emit_def)
  then show ?thesis by blast
next
  case True
  then obtain folder folders where wf: "workspaceFolders st = Some (folder # folders)"
    using assms by (auto simp: saveWorkspaceState_def split: option.splits list.splits)
  let ?file = "bookmarksFileInProject folder"
  let ?fs = "if hasAnyBookmark (bookmarksCtl st)
             then (files st)(?file \<mapsto> zip_stringify env True (bookmarksCtl st))
             else (files st)(?file := None)"
  have "(files st)(?file := None) = files st" if "files st ?file = None"
    using that by auto
  then have "st' = st\<lparr>files := ?fs, workspaceState := workspaceState st,
       trace := trace st @ [SaveWorkspaceState (bookmarksCtl st)]\<rparr>"
    using assms True wf by (auto simp: saveWorkspaceState_def emit_def Let_def)
  then show ?thesis by blast
qed

lemma saveWorkspaceState_canSave:
  assumes "saveWorkspaceState env st = Inr st'"
  shows "canSaveBookmarksInProject st' = canSaveBookmarksInProject st"
proof -
  from saveWorkspaceState_shape [OF assms] obtain fs ws where
    "st' = st\<lparr>files := fs, workspaceState := ws,
               trace := trace st @ [SaveWorkspaceState (bookmarksCtl st)]\<rparr>" by blast
  then show ?thesis by (simp add: canSaveBookmarksInProject_def)
qed

lemma saveWorkspaceState_persisted:
  assumes "saveWorkspaceState env st = Inr st'"
  shows "persisted env (bookmarksCtl st) st'"
proof (cases "canSaveBookmarksInProject st")
  case False
  then have "st' = emit (SaveWorkspaceState (bookmarksCtl st))
                  (st\<lparr>workspaceState := Some (zip_stringify env False (bookmarksCtl st))\<rparr>)"
    using assms by (simp add: saveWorkspaceState_def)
  then have "workspaceState st' = Some (zip_stringify env False (bookmarksCtl st))"
    by (simp add: emit_def)
  then show ?thesis using False saveWorkspaceState_canSave [OF assms]
    by (simp add: persisted_def)
next
  case True
  then obtain folder folders where wf: "workspaceFolders st = Some (folder # folders)"
    using assms by (auto simp: saveWorkspaceState_def split: option.splits list.splits)
  have "workspaceFolders st' = Some (folder # folders) \<and>
        files st' (bookmarksFileInProject folder) =
          (if hasAnyBookmark (bookmarksCtl st)
           then Some (zip_stringify env True (bookmarksCtl st)) else None)"
    using assms True wf
    by (auto simp: saveWorkspaceState_def emit_def Let_def split: if_splits)
  then show ?thesis using True saveWorkspaceState_canSave [OF assms]
    by (simp add: persisted_def)
qed

lemma newEvents_append [simp]: "newEvents st (st'\<lparr>trace := trace st @ ds\<rparr>) = ds"
  by (simp add: newEvents_def)

lemma updateDecorations_frame:
  "activeEditorCountLine (updateDecorations st) = activeEditorCountLine st"
  "activeEditor (updateDecorations st) = activeEditor st"
  "window_activeTextEditor (updateDecorations st) = window_activeTextEditor st"
  "docs (updateDecorations st) = docs st"
  "files (updateDecorations st) = files st"
  "workspaceState (updateDecorations st) = workspaceState st"
  "workspaceFolders (updateDecorations st) = workspaceFolders st"
  "saveBookmarksInProject (updateDecorations st) = saveBookmarksInProject st"
  "useWorkaroundForFormatters (updateDecorations st) = useWorkaroundForFormatters st"
  "timeout (updateDecorations st) = timeout st"
  using updateDecorations_shape [of st] by auto

lemma updateDecorations_newEvents:
  "list_all isSetDecorations (newEvents st (updateDecorations st))"
  using updateDecorations_shape [of st] by auto

lemma updateDecorations_prunes:
  "\<exists>n. bookmarksCtl (updateDecorations st) = pruneActive n (bookmarksCtl st)"
  using updateDecorations_shape [of st] by auto

lemma pruneActive_files:
  "length (fileList (pruneActive n c)) = length (fileList c)"
  "activeBookmark (pruneActive n c) = activeBookmark c"
  "j < length (fileList c) \<Longrightarrow> path (fileList (pruneActive n c) ! j) = path (fileList c ! j)"
  "j < length (fileList c) \<Longrightarrow>
     \<exists>m. bookmarks (fileList (pruneActive n c) ! j) = take m (bookmarks (fileList c ! j))"
proof -
  show "length (fileList (pruneActive n c)) = length (fileList c)"
    by (simp add: pruneActive_def setBookmarks_def split: option.splits)
  show "activeBookmark (pruneActive n c) = activeBookmark c"
    by (simp add: pruneActive_def setBookmarks_def split: option.splits)
  show "path (fileList (pruneActive n c) ! j) = path (fileList c ! j)" if "j < length (fileList c)"
    using that by (simp add: pruneActive_def setBookmarks_def nth_list_update split: option.splits)
  show "\<exists>m. bookmarks (fileList (pruneActive n c) ! j) = take m (bookmarks (fileList c ! j))"
    if "j < length (fileList c)"
  proof (cases "activeBookmark c = Some j")
    case True
    then have "bookmarks (fileList (pruneActive n c) ! j) = take n (bookmarks (fileList c ! j))"
      using that by (simp add: pruneActive_def setBookmarks_def)
    then show ?thesis ..
  next
    case False
    then have "bookmarks (fileList (pruneActive n c) ! j) =
               take (length (bookmarks (fileList c ! j))) (bookmarks (fileList c ! j))"
      using that by (auto simp: pruneActive_def setBookmarks_def nth_list_update split: option.splits)
    then show ?thesis ..
  qed
qed

lemma saveWorkspaceState_frame:
  assumes "saveWorkspaceState env st = Inr st'"
  shows "activeEditorCountLine st' = activeEditorCountLine st"
    "activeEditor st' = activeEditor st"
    "window_activeTextEditor st' = window_activeTextEditor st"
    "docs st' = docs st"
    "bookmarksCtl st' = bookmarksCtl st"
    "useWorkaroundForFormatters st' = useWorkaroundForFormatters st"
    "trace st' = trace st @ [SaveWorkspaceState (bookmarksCtl st)]"
  using saveWorkspaceState_shape [OF assms] by auto

lemma callSticky_frame:
  assumes "callSticky env ev ed st = (u, st1)"
  shows "activeEditor st1 = activeEditor st"
    "docs st1 = docs st"
    "window_activeTextEditor st1 = window_activeTextEditor st"
    "trace st1 = trace st \<or> trace st1 = trace st @ [CallStickyBookmarks (activeEditorCountLine st)]"
    "activeBookmarks st = Some bs \<Longrightarrow> bs \<noteq> [] \<Longrightarrow>
       trace st1 = trace st @ [CallStickyBookmarks (activeEditorCountLine st)]"
  using assms
  by (auto simp: callSticky_def emit_def activeBookmarks_def activeFile_def Let_def
      split: option.splits if_splits prod.splits)

lemma updateDecorations_trace:
  "\<exists>ds. trace (updateDecorations st) = trace st @ ds \<and> list_all isSetDecorations ds"
  using updateDecorations_shape [of st] by auto

lemma onDidChangeActiveTextEditor_tracks:
  "countTracksDocument (onDidChangeActiveTextEditor env editor st)"
  by (simp add: onDidChangeActiveTextEditor_def countTracksDocument_def Let_def lineCount_def
      triggerUpdateDecorations_def setActiveBookmark_def split: option.splits)

lemma loadWorkspaceState_frame:
  assumes "loadWorkspaceState env st = Inr (b, st')"
  shows "activeEditorCountLine st' = activeEditorCountLine st"
    "activeEditor st' = activeEditor st"
    "window_activeTextEditor st' = window_activeTextEditor st"
    "docs st' = docs st"
  using assms
  by (auto simp: loadWorkspaceState_def Let_def emit_def
      split: option.splits list.splits sum.splits prod.splits if_splits)

lemma activate_tracks:
  assumes "activate env st0 = Inr st1"
  shows "countTracksDocument st1"
proof -
  let ?s = "st0\<lparr>activeEditorCountLine := None, activeEditor := None, timeout := False\<rparr>"
  from assms obtain b st where l: "loadWorkspaceState env ?s = Inr (b, st)"
    by (auto simp: activate_def split: sum.splits)
  note fr = loadWorkspaceState_frame [OF l]
  show ?thesis
    using assms l fr
    by (auto simp: activate_def Let_def countTracksDocument_def lineCount_def
        triggerUpdateDecorations_def setActiveBookmark_def split: option.splits if_splits)
qed

lemma textChange_tracks:
  assumes "\<not> useWorkaroundForFormatters st" and "activeEditor st = Some ed"
    and "ev_document ev = document ed"
    and "hostChangesDocument env ev newLines st = Inr st'"
  shows "activeEditorCountLine st' = Some (length newLines)"
    and "countTracksDocument st'"
    and "CallStickyBookmarks n \<in> set (newEvents st st') \<Longrightarrow> n = activeEditorCountLine st"
    and "activeBookmarks st = Some bs \<Longrightarrow> bs \<noteq> [] \<Longrightarrow>
         CallStickyBookmarks (activeEditorCountLine st) \<in> set (newEvents st st')"
proof -
  let ?sa = "st\<lparr>docs := (docs st)(ev_document ev := newLines)\<rparr>"
  obtain u st1 where cs: "callSticky env ev ed ?sa = (u, st1)" by (cases "callSticky env ev ed ?sa")
  let ?s2 = "st1\<lparr>activeEditorCountLine := Some (lineCount st1 (ev_document ev))\<rparr>"
  let ?s3 = "updateDecorations ?s2"
  note c = callSticky_frame [OF cs]
  have fin: "st' = ?s3 \<or> saveWorkspaceState env ?s3 = Inr st'"
    using assms cs
    by (auto simp: hostChangesDocument_def onDidChangeTextDocument_def Let_def split: if_splits)
  have cnt3: "activeEditorCountLine ?s3 = Some (length newLines)"
    using c by (simp add: updateDecorations_frame lineCount_def)
  have ed3: "activeEditor ?s3 = Some ed" using c assms(2) by (simp add: updateDecorations_frame)
  have docs3: "docs ?s3 = (docs st)(ev_document ev := newLines)"
    using c by (simp add: updateDecorations_frame)
  obtain ds where ds: "trace ?s3 = trace ?s2 @ ds" "list_all isSetDecorations ds"
    using updateDecorations_trace by blast
  have sticky_ds: "CallStickyBookmarks n \<notin> set ds" for n
    using ds(2) by (auto simp: list_all_iff isSetDecorations_def)
  from fin show "activeEditorCountLine st' = Some (length newLines)"
    using cnt3 by (auto simp: saveWorkspaceState_frame)
  from fin show "countTracksDocument st'"
    using cnt3 ed3 docs3 assms(3)
    by (auto simp: saveWorkspaceState_frame countTracksDocument_def lineCount_def)
  have tr: "\<exists>sv. trace st' = trace ?s2 @ ds @ sv \<and> list_all isSave sv"
  proof -
    from fin consider "st' = ?s3" | "saveWorkspaceState env ?s3 = Inr st'" by blast
    then show ?thesis
    proof cases
      case 1
      then have "trace st' = trace ?s2 @ ds @ [] \<and> list_all isSave []" using ds by simp
      then show ?thesis by blast
    next
      case 2
      then have "trace st' = trace ?s2 @ ds @ [SaveWorkspaceState (bookmarksCtl ?s3)] \<and>
                 list_all isSave [SaveWorkspaceState (bookmarksCtl ?s3)]"
        using ds saveWorkspaceState_frame(7) [OF 2] by (simp add: isSave_def)
      then show ?thesis by blast
    qed
  qed
  then obtain sv where sv: "trace st' = trace ?s2 @ ds @ sv" "list_all isSave sv" by blast
  have sticky_sv: "CallStickyBookmarks n \<notin> set sv" for n
    using sv(2) by (auto simp: list_all_iff isSave_def)
  show "n = activeEditorCountLine st" if "CallStickyBookmarks n \<in> set (newEvents st st')"
    using that c(4) sv(1) sticky_ds sticky_sv by (auto simp: newEvents_def)
  show "CallStickyBookmarks (activeEditorCountLine st) \<in> set (newEvents st st')"
    if "activeBookmarks st = Some bs" "bs \<noteq> []"
  proof -
    have "activeBookmarks ?sa = Some bs" using that by (simp add: activeBookmarks_def)
    from c(5) [OF this that(2)] sv(1) show ?thesis by (simp add: newEvents_def)
  qed
qed

section \<open>The text-change handler\<close>

text \<open>
  C9. With \<^verbatim>\<open>bookmarks.useWorkaroundForFormatters\<close> set, a text change in the document
  of the active editor runs \<^verbatim>\<open>updateDecorations\<close> and returns: the handler's result is
  that of the decoration pass alone, whatever the adjuster of the core is; every event it
  adds to the trace is a redraw of the decorations (so none is a call of the adjuster or a
  save), the tracked line count and the persistent storage are as before, and the
  bookmarks of every file are a prefix of what they were, so that none has changed its
  line or column.
\<close>

theorem textChange_with_workaround_only_redraws:
  assumes "activeEditor st = Some ed" and "ev_document ev = document ed"
    and "useWorkaroundForFormatters st"
  shows "\<exists>st'. onDidChangeTextDocument env ev st = Inr st' \<and>
           st' = updateDecorations st \<and>
           list_all isSetDecorations (newEvents st st') \<and>
           activeEditorCountLine st' = activeEditorCountLine st \<and>
           files st' = files st \<and> workspaceState st' = workspaceState st \<and>
           length (fileList (bookmarksCtl st')) = length (fileList (bookmarksCtl st)) \<and>
           (\<forall>j < length (fileList (bookmarksCtl st)).
              \<exists>m. bookmarks (fileList (bookmarksCtl st') ! j) =
                   take m (bookmarks (fileList (bookmarksCtl st) ! j)))"
proof -
  have run: "onDidChangeTextDocument env ev st = Inr (updateDecorations st)"
    using assms by (simp add: onDidChangeTextDocument_def)
  obtain n where n: "bookmarksCtl (updateDecorations st) = pruneActive n (bookmarksCtl st)"
    using updateDecorations_prunes by blast
  show ?thesis
    using run n updateDecorations_newEvents [of st]
    by (simp add: updateDecorations_frame pruneActive_files)
qed

theorem textChange_with_workaround_only_redraws_witness:
  "activeEditor workaroundState = Some (exampleEditor 0) \<and>
   ev_document exampleEvent = document (exampleEditor 0) \<and>
   useWorkaroundForFormatters workaroundState \<and>
   (\<exists>st'. onDidChangeTextDocument exampleEnv exampleEvent workaroundState = Inr st' \<and>
          st' = updateDecorations workaroundState \<and>
          list_all isSetDecorations (newEvents workaroundState st') \<and>
          activeEditorCountLine st' = activeEditorCountLine workaroundState \<and>
          files st' = files workaroundState \<and>
          workspaceState st' = workspaceState workaroundState \<and>
          length (fileList (bookmarksCtl st')) = length (fileList (bookmarksCtl workaroundState)) \<and>
          (\<forall>j < length (fileList (bookmarksCtl workaroundState)).
             \<exists>m. bookmarks (fileList (bookmarksCtl st') ! j) =
                  take m (bookmarks (fileList (bookmarksCtl workaroundState) ! j))))"
proof -
  have h1: "activeEditor workaroundState = Some (exampleEditor 0)"
    by (simp add: workaroundState_def exampleState_def)
  have h2: "ev_document exampleEvent = document (exampleEditor 0)"
    by (simp add: exampleEvent_def exampleEditor_def)
  have h3: "useWorkaroundForFormatters workaroundState"
    by (simp add: workaroundState_def)
  from textChange_with_workaround_only_redraws [OF h1 h2 h3, of exampleEnv] h1 h2 h3
  show ?thesis by blast
qed

text \<open>
  C10, as amended. \<^verbatim>\<open>activeEditorCountLine\<close> is set to the line count of the active
  editor's document by \<^verbatim>\<open>activate\<close> and by every change of the active editor. While
  \<^verbatim>\<open>bookmarks.useWorkaroundForFormatters\<close> is off, a text change in the active document
  that finds the variable at the line count the document had before the edit passes
  exactly that count to the adjuster (and does call it when the active file has
  bookmarks), and afterwards holds the line count after the edit.
\<close>

theorem activeEditorCountLine_tracks_line_count:
  "(activate env st0 = Inr st1 \<longrightarrow> countTracksDocument st1) \<and>
   countTracksDocument (onDidChangeActiveTextEditor env editor st) \<and>
   (\<not> useWorkaroundForFormatters st \<and> countTracksDocument st \<and> activeEditor st = Some ed \<and>
    ev_document ev = document ed \<and> hostChangesDocument env ev newLines st = Inr st' \<longrightarrow>
      (\<forall>n. CallStickyBookmarks n \<in> set (newEvents st st') \<longrightarrow>
            n = Some (lineCount st (document ed))) \<and>
      (\<forall>bs. activeBookmarks st = Some bs \<and> bs \<noteq> [] \<longrightarrow>
            CallStickyBookmarks (Some (lineCount st (document ed))) \<in> set (newEvents st st')) \<and>
      activeEditorCountLine st' = Some (length newLines) \<and>
      countTracksDocument st')"
proof (intro conjI impI)
  show "countTracksDocument st1" if "activate env st0 = Inr st1"
    using that by (rule activate_tracks)
  show "countTracksDocument (onDidChangeActiveTextEditor env editor st)"
    by (rule onDidChangeActiveTextEditor_tracks)
next
  assume a: "\<not> useWorkaroundForFormatters st \<and> countTracksDocument st \<and>
    activeEditor st = Some ed \<and> ev_document ev = document ed \<and>
    hostChangesDocument env ev newLines st = Inr st'"
  then have w: "\<not> useWorkaroundForFormatters st" and e: "activeEditor st = Some ed"
    and d: "ev_document ev = document ed"
    and h: "hostChangesDocument env ev newLines st = Inr st'" by simp_all
  from a e have pre: "activeEditorCountLine st = Some (lineCount st (document ed))"
    by (auto simp: countTracksDocument_def)
  note t = textChange_tracks [OF w e d h]
  show "\<forall>n. CallStickyBookmarks n \<in> set (newEvents st st') \<longrightarrow>
            n = Some (lineCount st (document ed))"
    using t(3) pre by auto
  show "\<forall>bs. activeBookmarks st = Some bs \<and> bs \<noteq> [] \<longrightarrow>
            CallStickyBookmarks (Some (lineCount st (document ed))) \<in> set (newEvents st st')"
    using t(4) pre by auto
  show "activeEditorCountLine st' = Some (length newLines)" by (rule t(1))
  show "countTracksDocument st'" by (rule t(2))
qed

theorem activeEditorCountLine_tracks_line_count_witness:
  "(\<exists>st1. activate exampleEnv (exampleState [mark 1] [''a'', ''b'', ''c''] 0) = Inr st1 \<and>
          countTracksDocument st1) \<and>
   countTracksDocument
     (onDidChangeActiveTextEditor exampleEnv (Some (exampleEditor 0))
        (exampleState [mark 1] [''a'', ''b'', ''c''] 0)) \<and>
   \<not> useWorkaroundForFormatters (exampleState [mark 1] [''a'', ''b'', ''c''] 0) \<and>
   countTracksDocument (exampleState [mark 1] [''a'', ''b'', ''c''] 0) \<and>
   activeEditor (exampleState [mark 1] [''a'', ''b'', ''c''] 0) = Some (exampleEditor 0) \<and>
   ev_document exampleEvent = document (exampleEditor 0) \<and>
   activeBookmarks (exampleState [mark 1] [''a'', ''b'', ''c''] 0) = Some [mark 1] \<and>
   (\<exists>st'. hostChangesDocument exampleEnv exampleEvent fiveLines
            (exampleState [mark 1] [''a'', ''b'', ''c''] 0) = Inr st' \<and>
          CallStickyBookmarks (Some 3)
            \<in> set (newEvents (exampleState [mark 1] [''a'', ''b'', ''c''] 0) st') \<and>
          activeEditorCountLine st' = Some 5 \<and>
          countTracksDocument st')"
proof -
  let ?st = "exampleState [mark 1] [''a'', ''b'', ''c''] 0"
  have act: "\<exists>st1. activate exampleEnv ?st = Inr st1"
    by (simp add: activate_def loadWorkspaceState_def canSaveBookmarksInProject_def
        exampleState_def exampleEnv_def Let_def)
  then obtain st1 where st1: "activate exampleEnv ?st = Inr st1" by blast
  have w: "\<not> useWorkaroundForFormatters ?st" by (simp add: exampleState_def)
  have c: "countTracksDocument ?st"
    by (simp add: exampleState_def countTracksDocument_def lineCount_def)
  have e: "activeEditor ?st = Some (exampleEditor 0)" by (simp add: exampleState_def)
  have d: "ev_document exampleEvent = document (exampleEditor 0)"
    by (simp add: exampleEvent_def exampleEditor_def)
  have b: "activeBookmarks ?st = Some [mark 1]"
    by (simp add: exampleState_def activeBookmarks_def activeFile_def)
  have lc: "lineCount ?st (document (exampleEditor 0)) = 3"
    by (simp add: exampleState_def lineCount_def)
  have "\<exists>st'. hostChangesDocument exampleEnv exampleEvent fiveLines ?st = Inr st'"
    by (simp add: hostChangesDocument_def onDidChangeTextDocument_def exampleState_def
        exampleEnv_def exampleEvent_def exampleEditor_def callSticky_def activeFile_def Let_def)
  then obtain st' where h: "hostChangesDocument exampleEnv exampleEvent fiveLines ?st = Inr st'"
    by blast
  note t = activeEditorCountLine_tracks_line_count
    [of exampleEnv ?st st1 "Some (exampleEditor 0)" ?st "exampleEditor 0" exampleEvent
        fiveLines st']
  have "CallStickyBookmarks (Some 3) \<in> set (newEvents ?st st') \<and>
        activeEditorCountLine st' = Some 5 \<and> countTracksDocument st'"
    using t w c e d b h lc by (simp add: fiveLines_def)
  with h have last: "\<exists>st'. hostChangesDocument exampleEnv exampleEvent fiveLines ?st = Inr st' \<and>
      CallStickyBookmarks (Some 3) \<in> set (newEvents ?st st') \<and>
      activeEditorCountLine st' = Some 5 \<and> countTracksDocument st'" by blast
  have first: "\<exists>st1. activate exampleEnv ?st = Inr st1 \<and> countTracksDocument st1"
    using t st1 by blast
  have second: "countTracksDocument
     (onDidChangeActiveTextEditor exampleEnv (Some (exampleEditor 0)) ?st)"
    using t by blast
  from first second w c e d b last show ?thesis by blast
qed

text \<open>
  The variable does not always hold the line count before the current text change: with
  the workaround switched on, the handler returns before it refreshes the variable. When
  the document grows from three lines to five, the variable stays at three; and if the
  setting is switched off then, the next text change calls the adjuster with three for a
  document that had five lines before the edit.
\<close>

theorem activeEditorCountLine_stale_after_workaround:
  "hostChangesDocument exampleEnv exampleEvent fiveLines workaroundState = Inr afterWorkaroundEdit \<and>
   activeEditor afterWorkaroundEdit = Some (exampleEditor 0) \<and>
   lineCount afterWorkaroundEdit (document (exampleEditor 0)) = 5 \<and>
   activeEditorCountLine afterWorkaroundEdit = Some 3 \<and>
   trace (projr (hostChangesDocument exampleEnv exampleEvent sixLines
                   (afterWorkaroundEdit\<lparr>useWorkaroundForFormatters := False\<rparr>))) =
     [SetDecorations [1], CallStickyBookmarks (Some 3), SetDecorations [1]]"
  by (simp add: hostChangesDocument_def onDidChangeTextDocument_def afterWorkaroundEdit_def
      workaroundState_def exampleState_def exampleEnv_def exampleEvent_def exampleEditor_def
      fiveLines_def sixLines_def updateDecorations_def activeFile_def lineCount_def lineAt_def
      emit_def setBookmarks_def callSticky_def mark_def Let_def)

section \<open>Toggling: what the handlers do\<close>

lemma indexOfBookmark_lower: "- 1 \<le> indexOfBookmark bs a"
  by (induction bs) (auto simp: Let_def)

lemma indexOfBookmark_neg_iff:
  "indexOfBookmark bs (Number (int l)) < 0 \<longleftrightarrow> l \<notin> set (map line bs)"
  by (induction bs) (auto simp: Let_def)

lemma indexOfBookmark_found:
  "0 \<le> indexOfBookmark bs (Number (int l)) \<Longrightarrow>
   nat (indexOfBookmark bs (Number (int l))) < length bs \<and>
   line (bs ! nat (indexOfBookmark bs (Number (int l)))) = l"
proof (induction bs)
  case Nil
  then show ?case by simp
next
  case (Cons b bs)
  show ?case
  proof (cases "line b = l")
    case True
    then show ?thesis by simp
  next
    case False
    with Cons.prems have nn: "0 \<le> indexOfBookmark bs (Number (int l))"
      by (auto simp: Let_def split: if_splits)
    with Cons.IH have ih: "nat (indexOfBookmark bs (Number (int l))) < length bs"
      "line (bs ! nat (indexOfBookmark bs (Number (int l)))) = l" by simp_all
    have "indexOfBookmark (b # bs) (Number (int l)) = indexOfBookmark bs (Number (int l)) + 1"
      using False nn by (simp add: Let_def)
    moreover have "nat (indexOfBookmark bs (Number (int l)) + 1) =
                   Suc (nat (indexOfBookmark bs (Number (int l))))"
      using nn by simp
    ultimately show ?thesis using ih by simp
  qed
qed

lemma findFile_Some: "findFile p fs = Some i \<Longrightarrow> i < length fs \<and> path (fs ! i) = p"
proof (induction fs arbitrary: i)
  case Nil
  then show ?case by simp
next
  case (Cons f fs)
  then show ?case by (cases "path f = p") auto
qed

lemma findFile_append_new:
  "findFile p fs = None \<Longrightarrow> findFile p (fs @ [\<lparr>path = p, bookmarks = []\<rparr>]) = Some (length fs)"
  by (induction fs) (auto split: if_splits)

lemma fromUri_after_add:
  "\<exists>i. fromUri env uri (bookmarks_add env uri c) = Some i \<and>
       i < length (fileList (bookmarks_add env uri c))"
proof (cases "findFile (normalize env uri) (fileList c)")
  case None
  then show ?thesis
    by (simp add: fromUri_def bookmarks_add_def Let_def findFile_append_new)
next
  case (Some i)
  then show ?thesis
    using findFile_Some [OF Some] by (simp add: fromUri_def bookmarks_add_def Let_def)
qed

lemma ensureActiveBookmark_active:
  "\<exists>i f. activeBookmark (bookmarksCtl (ensureActiveBookmark env wed st)) = Some i \<and>
         activeFile (bookmarksCtl (ensureActiveBookmark env wed st)) = Some f \<and>
         i < length (fileList (bookmarksCtl (ensureActiveBookmark env wed st))) \<and>
         f = fileList (bookmarksCtl (ensureActiveBookmark env wed st)) ! i"
proof (cases "activeFile (bookmarksCtl st)")
  case (Some f)
  then show ?thesis
    using activeFile_SomeD [OF Some] by (auto simp: ensureActiveBookmark_def)
next
  case None
  obtain i where i: "fromUri env (document wed) (bookmarks_add env (document wed) (bookmarksCtl st)) = Some i"
    "i < length (fileList (bookmarks_add env (document wed) (bookmarksCtl st)))"
    using fromUri_after_add by blast
  then show ?thesis using None
    by (simp add: ensureActiveBookmark_def Let_def setActiveBookmark_def activeFile_def)
qed

lemma ensureActiveBookmark_frame:
  "trace (ensureActiveBookmark env wed st) = trace st"
  "window_activeTextEditor (ensureActiveBookmark env wed st) = window_activeTextEditor st"
  "activeEditor (ensureActiveBookmark env wed st) = activeEditor st"
  "docs (ensureActiveBookmark env wed st) = docs st"
  by (simp_all add: ensureActiveBookmark_def Let_def setActiveBookmark_def)

lemma ensureActiveBookmark_id:
  "activeFile (bookmarksCtl st) = Some f \<Longrightarrow> ensureActiveBookmark env wed st = st"
  by (simp add: ensureActiveBookmark_def)

lemma setBookmarks_simps [simp]:
  "activeBookmark (setBookmarks i bs c) = activeBookmark c"
  "length (fileList (setBookmarks i bs c)) = length (fileList c)"
  "i < length (fileList c) \<Longrightarrow>
     fileList (setBookmarks i bs c) ! i = (fileList c ! i)\<lparr>bookmarks := bs\<rparr>"
  by (simp_all add: setBookmarks_def)

lemma setBookmarks_twice [simp]:
  "setBookmarks i bs (setBookmarks i bs' c) = setBookmarks i bs c"
proof (cases "i < length (fileList c)")
  case True
  then show ?thesis by (simp add: setBookmarks_def)
next
  case False
  then have "length (fileList c) \<le> i" by simp
  then show ?thesis by (simp add: setBookmarks_def list_update_beyond)
qed

lemma fileAt_simps [simp]:
  "i < length (fileList c) \<Longrightarrow> fileAt c i = Some (fileList c ! i)"
  by (simp add: fileAt_def)

lemma bookOrActive_simps [simp]:
  "bookOrActive None c = activeBookmark c"
  "bookOrActive (Some j) c = Some j"
  by (simp_all add: bookOrActive_def)

lemma toggle_run:
  assumes w: "window_activeTextEditor st = Some wed"
    and a: "activeBookmarks (ensureActiveBookmark env wed st) = Some bs"
  shows "\<exists>i evs bs1.
      activeBookmark (bookmarksCtl (ensureActiveBookmark env wed st)) = Some i \<and>
      i < length (fileList (bookmarksCtl (ensureActiveBookmark env wed st))) \<and>
      (pos_line (selection_active wed) \<in> set (map line bs) \<longrightarrow>
         0 \<le> indexOfBookmark bs (Number (int (pos_line (selection_active wed)))) \<and>
         evs = [CallRemoveBookmark (indexOfBookmark bs (Number (int (pos_line (selection_active wed)))))
                  (int (pos_line (selection_active wed)))] \<and>
         bs1 = take (nat (indexOfBookmark bs (Number (int (pos_line (selection_active wed)))))) bs @
               drop (Suc (nat (indexOfBookmark bs (Number (int (pos_line (selection_active wed))))))) bs) \<and>
      (pos_line (selection_active wed) \<notin> set (map line bs) \<longrightarrow>
         evs = [CallAddBookmark (pos_line (selection_active wed)), ShowTextDocument (document wed)] \<and>
         bs1 = insort_key line
                 \<lparr>line = pos_line (selection_active wed),
                    column = character (selection_active wed), label = ''''\<rparr> bs) \<and>
      toggle env st =
        (case saveWorkspaceState env
                ((ensureActiveBookmark env wed st)
                   \<lparr>trace := trace st @ evs,
                    bookmarksCtl := setBookmarks i (sortByLine bs1)
                                      (bookmarksCtl (ensureActiveBookmark env wed st))\<rparr>) of
           Inl e \<Rightarrow> Inl e
         | Inr st3 \<Rightarrow> Inr (updateDecorations st3))"
proof -
  let ?s = "ensureActiveBookmark env wed st"
  let ?l = "pos_line (selection_active wed)"
  let ?k = "indexOfBookmark bs (Number (int ?l))"
  from a obtain i f where
    i: "activeBookmark (bookmarksCtl ?s) = Some i" "i < length (fileList (bookmarksCtl ?s))" and
    f: "activeFile (bookmarksCtl ?s) = Some f" "f = fileList (bookmarksCtl ?s) ! i" "bookmarks f = bs"
    using activeBookmarks_SomeD by blast
  have tr: "trace ?s = trace st" by (simp add: ensureActiveBookmark_frame)
  show ?thesis
  proof (cases "?l \<in> set (map line bs)")
    case True
    then have k0: "0 \<le> ?k" using indexOfBookmark_neg_iff [of bs ?l] by auto
    then have kl: "nat ?k < length bs" using indexOfBookmark_found by blast
    let ?bs1 = "take (nat ?k) bs @ drop (Suc (nat ?k)) bs"
    have rm: "removeBookmark ?k (int ?l) None (bookmarksCtl ?s) =
          Inr (setBookmarks i ?bs1 (bookmarksCtl ?s))"
      using i f k0 kl by (simp add: removeBookmark_def)
    have "toggle env st =
        (case saveWorkspaceState env
                (?s\<lparr>trace := trace st @ [CallRemoveBookmark ?k (int ?l)],
                    bookmarksCtl := setBookmarks i (sortByLine ?bs1) (bookmarksCtl ?s)\<rparr>) of
           Inl e \<Rightarrow> Inl e
         | Inr st3 \<Rightarrow> Inr (updateDecorations st3))"
      using w i f k0 rm tr
      by (simp add: toggle_def Let_def sortBookmarksOf_def emit_def)
    then show ?thesis using True k0 i by blast
  next
    case False
    then have k0: "?k < 0" using indexOfBookmark_neg_iff [of bs ?l] by auto
    let ?new = "\<lparr>line = ?l, column = character (selection_active wed), label = ''''\<rparr>"
    let ?bs1 = "insort_key line ?new bs"
    have ad: "addBookmark (selection_active wed) '''' None (bookmarksCtl ?s) =
          Inr (setBookmarks i ?bs1 (bookmarksCtl ?s))"
      using i f False by (simp add: addBookmark_def)
    have "toggle env st =
        (case saveWorkspaceState env
                (?s\<lparr>trace := trace st @ [CallAddBookmark ?l, ShowTextDocument (document wed)],
                    bookmarksCtl := setBookmarks i (sortByLine ?bs1) (bookmarksCtl ?s)\<rparr>) of
           Inl e \<Rightarrow> Inl e
         | Inr st3 \<Rightarrow> Inr (updateDecorations st3))"
      using w i f k0 ad tr
      by (simp add: toggle_def Let_def sortBookmarksOf_def emit_def)
    then show ?thesis using False i by blast
  qed
qed

lemma fileAt_SomeD: "fileAt c i = Some f \<Longrightarrow> i < length (fileList c) \<and> f = fileList c ! i"
  by (auto simp: fileAt_def split: if_splits)

lemma addBookmark_Inr:
  assumes "addBookmark pos lbl book c = Inr c'"
  shows "\<exists>j. bookOrActive book c = Some j \<and> j < length (fileList c) \<and>
           pos_line pos \<notin> set (map line (bookmarks (fileList c ! j))) \<and>
           c' = setBookmarks j
                  (insort_key line \<lparr>line = pos_line pos, column = character pos, label = lbl\<rparr>
                     (bookmarks (fileList c ! j))) c"
  using assms
  by (auto simp: addBookmark_def split: option.splits if_splits dest!: fileAt_SomeD)

lemma removeBookmark_Inr:
  assumes "removeBookmark index aline book c = Inr c'"
  shows "\<exists>j. bookOrActive book c = Some j \<and> j < length (fileList c) \<and>
           0 \<le> index \<and> nat index < length (bookmarks (fileList c ! j)) \<and>
           c' = setBookmarks j
                  (take (nat index) (bookmarks (fileList c ! j)) @
                   drop (Suc (nat index)) (bookmarks (fileList c ! j))) c"
  using assms
  by (auto simp: removeBookmark_def split: option.splits if_splits dest!: fileAt_SomeD)

lemma sortBookmarksOf_Inr:
  assumes "sortBookmarksOf b st = Inr st'"
  shows "\<exists>j. b = Some j \<and> j < length (fileList (bookmarksCtl st)) \<and>
           st' = st\<lparr>bookmarksCtl :=
                      setBookmarks j (sortByLine (bookmarks (fileList (bookmarksCtl st) ! j)))
                        (bookmarksCtl st)\<rparr>"
  using assms
  by (auto simp: sortBookmarksOf_def split: option.splits dest!: fileAt_SomeD)

lemma bookOrActive_setBookmarks [simp]:
  "bookOrActive book (setBookmarks i bs c) = bookOrActive book c"
  by (cases book) simp_all

lemma persisted_updateDecorations [simp]:
  "persisted env c (updateDecorations st) = persisted env c st"
  by (simp add: persisted_def canSaveBookmarksInProject_def updateDecorations_frame
      split: option.splits list.splits)

text \<open>
  A handler that ends with \<^verbatim>\<open>saveWorkspaceState(); updateDecorations();\<close> has saved the
  controller it had then, and leaves that controller but for what the decoration pass
  cut from the active file.
\<close>

lemma save_then_decorate:
  assumes "saveWorkspaceState env s = Inr s3" and "trace s = trace st @ evs"
  shows "\<exists>n ds. bookmarksCtl (updateDecorations s3) = pruneActive n (bookmarksCtl s) \<and>
           newEvents st (updateDecorations s3) = evs @ [SaveWorkspaceState (bookmarksCtl s)] @ ds \<and>
           list_all isSetDecorations ds \<and>
           persisted env (bookmarksCtl s) (updateDecorations s3)"
proof -
  obtain n ds where u: "updateDecorations s3 =
      s3\<lparr>bookmarksCtl := pruneActive n (bookmarksCtl s3), trace := trace s3 @ ds\<rparr>"
    "list_all isSetDecorations ds"
    using updateDecorations_shape by blast
  have c3: "bookmarksCtl s3 = bookmarksCtl s"
    and t3: "trace s3 = trace s @ [SaveWorkspaceState (bookmarksCtl s)]"
    using saveWorkspaceState_frame [OF assms(1)] by simp_all
  have "trace (updateDecorations s3) = trace s3 @ ds"
    by (subst u(1)) simp
  then have "trace (updateDecorations s3) =
      trace st @ evs @ [SaveWorkspaceState (bookmarksCtl s)] @ ds"
    using t3 assms(2) by simp
  then have ne: "newEvents st (updateDecorations s3) = evs @ [SaveWorkspaceState (bookmarksCtl s)] @ ds"
    by (simp add: newEvents_def)
  have "bookmarksCtl (updateDecorations s3) = pruneActive n (bookmarksCtl s3)"
    by (subst u(1)) simp
  then have "bookmarksCtl (updateDecorations s3) = pruneActive n (bookmarksCtl s)"
    using c3 by simp
  with ne u(2) saveWorkspaceState_persisted [OF assms(1)] show ?thesis by auto
qed

lemma activeBookmarks_pruneActive:
  assumes "bookmarksCtl st' = pruneActive n (setBookmarks i bs c)"
    and "activeBookmark c = Some i" and "i < length (fileList c)"
  shows "activeBookmarks st' = Some (take n bs)"
  using assms by (simp add: activeBookmarks_def activeFile_def pruneActive_def)

lemma toggle_result:
  assumes w: "window_activeTextEditor st = Some wed"
    and a: "activeBookmarks (ensureActiveBookmark env wed st) = Some bs"
    and r: "toggle env st = Inr st'"
  shows "\<exists>i evs bs1 n ds.
      (pos_line (selection_active wed) \<in> set (map line bs) \<longrightarrow>
         0 \<le> indexOfBookmark bs (Number (int (pos_line (selection_active wed)))) \<and>
         evs = [CallRemoveBookmark (indexOfBookmark bs (Number (int (pos_line (selection_active wed)))))
                  (int (pos_line (selection_active wed)))] \<and>
         bs1 = take (nat (indexOfBookmark bs (Number (int (pos_line (selection_active wed)))))) bs @
               drop (Suc (nat (indexOfBookmark bs (Number (int (pos_line (selection_active wed))))))) bs) \<and>
      (pos_line (selection_active wed) \<notin> set (map line bs) \<longrightarrow>
         evs = [CallAddBookmark (pos_line (selection_active wed)), ShowTextDocument (document wed)] \<and>
         bs1 = insort_key line
                 \<lparr>line = pos_line (selection_active wed),
                    column = character (selection_active wed), label = ''''\<rparr> bs) \<and>
      activeBookmark (bookmarksCtl (ensureActiveBookmark env wed st)) = Some i \<and>
      i < length (fileList (bookmarksCtl (ensureActiveBookmark env wed st))) \<and>
      bookmarksCtl st' =
        pruneActive n (setBookmarks i (sortByLine bs1)
                         (bookmarksCtl (ensureActiveBookmark env wed st))) \<and>
      newEvents st st' =
        evs @ [SaveWorkspaceState (setBookmarks i (sortByLine bs1)
                 (bookmarksCtl (ensureActiveBookmark env wed st)))] @ ds \<and>
      list_all isSetDecorations ds \<and>
      persisted env (setBookmarks i (sortByLine bs1)
                       (bookmarksCtl (ensureActiveBookmark env wed st))) st' \<and>
      activeBookmarks st' = Some (take n (sortByLine bs1))"
proof -
  let ?s = "ensureActiveBookmark env wed st"
  from toggle_run [OF w a] obtain i evs bs1 where
    i: "activeBookmark (bookmarksCtl ?s) = Some i" "i < length (fileList (bookmarksCtl ?s))" and
    rm: "pos_line (selection_active wed) \<in> set (map line bs) \<longrightarrow>
         0 \<le> indexOfBookmark bs (Number (int (pos_line (selection_active wed)))) \<and>
         evs = [CallRemoveBookmark (indexOfBookmark bs (Number (int (pos_line (selection_active wed)))))
                  (int (pos_line (selection_active wed)))] \<and>
         bs1 = take (nat (indexOfBookmark bs (Number (int (pos_line (selection_active wed)))))) bs @
               drop (Suc (nat (indexOfBookmark bs (Number (int (pos_line (selection_active wed))))))) bs" and
    ad: "pos_line (selection_active wed) \<notin> set (map line bs) \<longrightarrow>
         evs = [CallAddBookmark (pos_line (selection_active wed)), ShowTextDocument (document wed)] \<and>
         bs1 = insort_key line
                 \<lparr>line = pos_line (selection_active wed),
                    column = character (selection_active wed), label = ''''\<rparr> bs" and
    run: "toggle env st =
        (case saveWorkspaceState env
                (?s\<lparr>trace := trace st @ evs,
                    bookmarksCtl := setBookmarks i (sortByLine bs1) (bookmarksCtl ?s)\<rparr>) of
           Inl e \<Rightarrow> Inl e
         | Inr st3 \<Rightarrow> Inr (updateDecorations st3))"
    by blast
  let ?c = "setBookmarks i (sortByLine bs1) (bookmarksCtl ?s)"
  let ?S = "?s\<lparr>trace := trace st @ evs, bookmarksCtl := ?c\<rparr>"
  from run r obtain st3 where s3: "saveWorkspaceState env ?S = Inr st3"
    and st': "st' = updateDecorations st3"
    by (auto split: sum.splits)
  have trS: "trace ?S = trace st @ evs" and cS: "bookmarksCtl ?S = ?c" by simp_all
  from save_then_decorate [OF s3 trS] obtain n ds where
    sd: "bookmarksCtl st' = pruneActive n ?c"
      "newEvents st st' = evs @ [SaveWorkspaceState ?c] @ ds"
      "list_all isSetDecorations ds" "persisted env ?c st'"
    unfolding st' cS by blast
  have "activeBookmarks st' = Some (take n (sortByLine bs1))"
    using activeBookmarks_pruneActive [OF sd(1) i] .
  with i rm ad sd show ?thesis by blast
qed

lemma askForBookmarkLabel_chain:
  assumes lbl: "\<not> (lbl = '''' \<and> (oldLabel = Some '''' \<or> jumpToPosition))"
    and r: "askForBookmarkLabel env index position oldLabel jumpToPosition book (Some lbl) st = Inr st'"
  shows "\<exists>st1 c2 st3 st4 st5.
      (0 \<le> index \<longrightarrow>
         (\<exists>c1. removeBookmark index (int (pos_line position)) book (bookmarksCtl st) = Inr c1 \<and>
               st1 = emit (CallRemoveBookmark index (int (pos_line position)))
                       (st\<lparr>bookmarksCtl := c1\<rparr>))) \<and>
      (\<not> 0 \<le> index \<longrightarrow> st1 = st) \<and>
      addBookmark position lbl book (bookmarksCtl st1) = Inr c2 \<and>
      (jumpToPosition \<longrightarrow>
         (\<exists>wed. window_activeTextEditor st1 = Some wed \<and>
                st3 = emit (ShowTextDocument (document wed))
                        (emit (CallAddBookmark (pos_line position)) (st1\<lparr>bookmarksCtl := c2\<rparr>)))) \<and>
      (\<not> jumpToPosition \<longrightarrow>
         st3 = emit (CallAddBookmark (pos_line position)) (st1\<lparr>bookmarksCtl := c2\<rparr>)) \<and>
      sortBookmarksOf (bookOrActive book (bookmarksCtl st3)) st3 = Inr st4 \<and>
      saveWorkspaceState env st4 = Inr st5 \<and>
      st' = updateDecorations st5"
  using assms
  by (auto simp: askForBookmarkLabel_def Let_def emit_def
      split: sum.splits if_splits option.splits)

lemma emit_frame [simp]:
  "bookmarksCtl (emit e st) = bookmarksCtl st"
  "trace (emit e st) = trace st @ [e]"
  "window_activeTextEditor (emit e st) = window_activeTextEditor st"
  by (simp_all add: emit_def)

lemma pruneActive_nth:
  "j < length (fileList c) \<Longrightarrow>
   \<exists>m. bookmarks (fileList (pruneActive n (setBookmarks j bs c)) ! j) = take m bs"
  using pruneActive_files(4) [of j "setBookmarks j bs c" n] by simp

lemma askForBookmarkLabel_result:
  assumes lbl: "\<not> (lbl = '''' \<and> (oldLabel = Some '''' \<or> jumpToPosition))"
    and r: "askForBookmarkLabel env index position oldLabel jumpToPosition book (Some lbl) st = Inr st'"
  shows "\<exists>j bs2 evs n ds m.
      bookOrActive book (bookmarksCtl st) = Some j \<and>
      j < length (fileList (bookmarksCtl st)) \<and>
      CallAddBookmark (pos_line position) \<in> set evs \<and>
      bookmarksCtl st' = pruneActive n (setBookmarks j (sortByLine bs2) (bookmarksCtl st)) \<and>
      newEvents st st' =
        evs @ [SaveWorkspaceState (setBookmarks j (sortByLine bs2) (bookmarksCtl st))] @ ds \<and>
      list_all isSetDecorations ds \<and>
      persisted env (setBookmarks j (sortByLine bs2) (bookmarksCtl st)) st' \<and>
      bookmarks (fileList (bookmarksCtl st') ! j) = take m (sortByLine bs2)"
proof -
  from askForBookmarkLabel_chain [OF lbl r] obtain st1 c2 st3 st4 st5 where
    rm: "0 \<le> index \<longrightarrow>
         (\<exists>c1. removeBookmark index (int (pos_line position)) book (bookmarksCtl st) = Inr c1 \<and>
               st1 = emit (CallRemoveBookmark index (int (pos_line position)))
                       (st\<lparr>bookmarksCtl := c1\<rparr>))" and
    norm: "\<not> 0 \<le> index \<longrightarrow> st1 = st" and
    ad: "addBookmark position lbl book (bookmarksCtl st1) = Inr c2" and
    jp: "jumpToPosition \<longrightarrow>
         (\<exists>wed. window_activeTextEditor st1 = Some wed \<and>
                st3 = emit (ShowTextDocument (document wed))
                        (emit (CallAddBookmark (pos_line position)) (st1\<lparr>bookmarksCtl := c2\<rparr>)))" and
    nojp: "\<not> jumpToPosition \<longrightarrow>
         st3 = emit (CallAddBookmark (pos_line position)) (st1\<lparr>bookmarksCtl := c2\<rparr>)" and
    so: "sortBookmarksOf (bookOrActive book (bookmarksCtl st3)) st3 = Inr st4" and
    sv: "saveWorkspaceState env st4 = Inr st5" and
    st': "st' = updateDecorations st5"
    by blast
  have s1: "\<exists>bs1 ev1. bookmarksCtl st1 = bookmarksCtl st \<and> trace st1 = trace st @ ev1 \<or>
      (\<exists>j. bookOrActive book (bookmarksCtl st) = Some j \<and> j < length (fileList (bookmarksCtl st)) \<and>
           bookmarksCtl st1 = setBookmarks j bs1 (bookmarksCtl st) \<and> trace st1 = trace st @ ev1)"
  proof (cases "0 \<le> index")
    case True
    with rm obtain c1 where c1: "removeBookmark index (int (pos_line position)) book (bookmarksCtl st) = Inr c1"
      "st1 = emit (CallRemoveBookmark index (int (pos_line position))) (st\<lparr>bookmarksCtl := c1\<rparr>)"
      by blast
    from removeBookmark_Inr [OF c1(1)] obtain j where
      "bookOrActive book (bookmarksCtl st) = Some j" "j < length (fileList (bookmarksCtl st))"
      "c1 = setBookmarks j
                  (take (nat index) (bookmarks (fileList (bookmarksCtl st) ! j)) @
                   drop (Suc (nat index)) (bookmarks (fileList (bookmarksCtl st) ! j)))
                  (bookmarksCtl st)"
      by blast
    then show ?thesis using c1(2) by (auto simp: emit_def)
  next
    case False
    with norm have "bookmarksCtl st1 = bookmarksCtl st \<and> trace st1 = trace st @ []" by simp
    then show ?thesis by blast
  qed
  from addBookmark_Inr [OF ad] obtain j where
    j1: "bookOrActive book (bookmarksCtl st1) = Some j" "j < length (fileList (bookmarksCtl st1))" and
    c2: "c2 = setBookmarks j
                  (insort_key line
                     \<lparr>line = pos_line position, column = character position, label = lbl\<rparr>
                     (bookmarks (fileList (bookmarksCtl st1) ! j))) (bookmarksCtl st1)"
    by blast
  from s1 j1 have j: "bookOrActive book (bookmarksCtl st) = Some j"
    "j < length (fileList (bookmarksCtl st))"
    by auto
  from s1 j1 obtain ev1 where ev1: "trace st1 = trace st @ ev1" by auto
  from s1 j1 c2 j obtain bsa where c2': "c2 = setBookmarks j bsa (bookmarksCtl st)"
    by auto
  have s3: "bookmarksCtl st3 = c2"
    "\<exists>ev3. trace st3 = trace st @ ev1 @ [CallAddBookmark (pos_line position)] @ ev3"
    using jp nojp ev1 by (cases jumpToPosition; auto)+
  then obtain ev3 where ev3: "trace st3 = trace st @ ev1 @ [CallAddBookmark (pos_line position)] @ ev3"
    by blast
  from sortBookmarksOf_Inr [OF so] s3(1) c2' j have
    s4: "st4 = st3\<lparr>bookmarksCtl :=
                      setBookmarks j (sortByLine (bookmarks (fileList c2 ! j))) (bookmarksCtl st)\<rparr>"
    by auto
  let ?bs2 = "bookmarks (fileList c2 ! j)"
  let ?c = "setBookmarks j (sortByLine ?bs2) (bookmarksCtl st)"
  let ?evs = "ev1 @ [CallAddBookmark (pos_line position)] @ ev3"
  have c4: "bookmarksCtl st4 = ?c" and t4: "trace st4 = trace st @ ?evs"
    using s4 ev3 by simp_all
  from save_then_decorate [OF sv t4] obtain n ds where
    sd: "bookmarksCtl st' = pruneActive n ?c"
      "newEvents st st' = ?evs @ [SaveWorkspaceState ?c] @ ds"
      "list_all isSetDecorations ds" "persisted env ?c st'"
    unfolding st' c4 by blast
  obtain m where m: "bookmarks (fileList (bookmarksCtl st') ! j) = take m (sortByLine ?bs2)"
    using pruneActive_nth [OF j(2)] sd(1) by metis
  have "CallAddBookmark (pos_line position) \<in> set ?evs" by simp
  with j sd m show ?thesis by blast
qed

lemma map_insort_key: "map f (insort_key f x xs) = insort (f x) (map f xs)"
  by (induction xs) simp_all

lemma map_sort_key: "map f (sort_key f xs) = sort (map f xs)"
  by (induction xs) (simp_all add: map_insort_key)

lemma sorted_take_sortByLine: "sorted (map line (take n (sortByLine bs)))"
proof -
  have "sorted (map line (sortByLine bs))" by (simp add: sortByLine_def)
  then have "sorted (take n (map line (sortByLine bs)))" by (rule sorted_wrt_take)
  then show ?thesis by (simp add: take_map)
qed

lemma distinct_take_sortByLine:
  "distinct (map line bs) \<Longrightarrow> distinct (map line (take n (sortByLine bs)))"
proof -
  assume "distinct (map line bs)"
  then have "distinct (map line (sortByLine bs))" by (simp add: sortByLine_def map_sort_key)
  then have "distinct (take n (map line (sortByLine bs)))" by (rule distinct_take)
  then show ?thesis by (simp add: take_map)
qed

lemma distinct_insort_line:
  "distinct (map line bs) \<Longrightarrow> line b \<notin> set (map line bs) \<Longrightarrow>
   distinct (map line (insort_key line b bs))"
  by (simp add: map_insort_key distinct_insort)

lemma distinct_remove_nth:
  assumes "distinct xs"
  shows "distinct (take k xs @ drop (Suc k) xs)"
proof -
  have "distinct (take k xs @ drop k xs)" using assms by simp
  then have "set (take k xs) \<inter> set (drop k xs) = {}" by (simp only: distinct_append)
  moreover have "set (drop (Suc k) xs) \<subseteq> set (drop k xs)"
    by (rule set_drop_subset_set_drop) simp
  ultimately have "set (take k xs) \<inter> set (drop (Suc k) xs) = {}" by blast
  with assms show ?thesis by simp
qed

lemma distinct_remove_line:
  "distinct (map line bs) \<Longrightarrow> distinct (map line (take k bs @ drop (Suc k) bs))"
  using distinct_remove_nth [of "map line bs" k] by (simp add: take_map drop_map)

lemma saveWorkspaceState_Inl: "saveWorkspaceState env st = Inl e \<Longrightarrow> e = TypeError"
  by (auto simp: saveWorkspaceState_def Let_def split: if_splits option.splits list.splits)

lemma bookOrActive_pruneActive [simp]:
  "bookOrActive book (pruneActive n c) = bookOrActive book c"
  by (cases book) (simp_all add: pruneActive_files)

text \<open>
  C4. When \<^verbatim>\<open>toggle\<close> has completed, the bookmarks of the active file are sorted by
  line, whether it added or removed one; and when the callback of
  \<^verbatim>\<open>askForBookmarkLabel\<close> has completed an add, the bookmarks of the file it added to
  (the given \<^verbatim>\<open>book\<close>, or the active file) are sorted by line. A sorted sequence with
  at most one bookmark per line is strictly ascending.
\<close>

theorem toggle_and_label_leave_sorted:
  "(window_activeTextEditor st = Some wed \<and> toggle env st = Inr st' \<longrightarrow>
      (\<exists>bs'. activeBookmarks st' = Some bs' \<and> sorted (map line bs') \<and>
             (distinct (map line bs') \<longrightarrow> sorted_wrt (<) (map line bs')))) \<and>
   (\<not> (lbl = '''' \<and> (oldLabel = Some '''' \<or> jumpToPosition)) \<and>
    askForBookmarkLabel env index position oldLabel jumpToPosition book (Some lbl) st = Inr st''
    \<longrightarrow>
      (\<exists>j. bookOrActive book (bookmarksCtl st'') = Some j \<and>
           j < length (fileList (bookmarksCtl st'')) \<and>
           sorted (map line (bookmarks (fileList (bookmarksCtl st'') ! j))) \<and>
           (distinct (map line (bookmarks (fileList (bookmarksCtl st'') ! j))) \<longrightarrow>
            sorted_wrt (<) (map line (bookmarks (fileList (bookmarksCtl st'') ! j))))))"
proof (intro conjI impI)
  assume h: "window_activeTextEditor st = Some wed \<and> toggle env st = Inr st'"
  obtain bs where bs: "activeBookmarks (ensureActiveBookmark env wed st) = Some bs"
    using ensureActiveBookmark_active [of env wed st] by (auto simp: activeBookmarks_def)
  from h toggle_result [OF _ bs] obtain n bs1 where
    "activeBookmarks st' = Some (take n (sortByLine bs1))" by blast
  then show "\<exists>bs'. activeBookmarks st' = Some bs' \<and> sorted (map line bs') \<and>
             (distinct (map line bs') \<longrightarrow> sorted_wrt (<) (map line bs'))"
    using sorted_take_sortByLine [of n bs1] by (simp add: strict_sorted_iff)
next
  assume h: "\<not> (lbl = '''' \<and> (oldLabel = Some '''' \<or> jumpToPosition)) \<and>
    askForBookmarkLabel env index position oldLabel jumpToPosition book (Some lbl) st = Inr st''"
  then have l: "\<not> (lbl = '''' \<and> (oldLabel = Some '''' \<or> jumpToPosition))"
    and r: "askForBookmarkLabel env index position oldLabel jumpToPosition book (Some lbl) st = Inr st''"
    by simp_all
  from askForBookmarkLabel_result [OF l r] obtain j bs2 n m where
    j: "bookOrActive book (bookmarksCtl st) = Some j" "j < length (fileList (bookmarksCtl st))" and
    c: "bookmarksCtl st'' = pruneActive n (setBookmarks j (sortByLine bs2) (bookmarksCtl st))" and
    b: "bookmarks (fileList (bookmarksCtl st'') ! j) = take m (sortByLine bs2)"
    by blast
  have "bookOrActive book (bookmarksCtl st'') = Some j \<and> j < length (fileList (bookmarksCtl st''))"
    using j c by (simp add: pruneActive_files)
  then show "\<exists>j. bookOrActive book (bookmarksCtl st'') = Some j \<and>
           j < length (fileList (bookmarksCtl st'')) \<and>
           sorted (map line (bookmarks (fileList (bookmarksCtl st'') ! j))) \<and>
           (distinct (map line (bookmarks (fileList (bookmarksCtl st'') ! j))) \<longrightarrow>
            sorted_wrt (<) (map line (bookmarks (fileList (bookmarksCtl st'') ! j))))"
    using b sorted_take_sortByLine [of m bs2] by (auto simp: strict_sorted_iff)
qed

lemma toggle_example_runs:
  "\<exists>st'. toggle exampleEnv (exampleState [mark 5, mark 2] fiveLines 3) = Inr st'"
  by (simp add: toggle_def exampleState_def exampleEnv_def exampleEditor_def mark_def
      ensureActiveBookmark_def activeFile_def addBookmark_def sortBookmarksOf_def
      emit_def setBookmarks_def saveWorkspaceState_def canSaveBookmarksInProject_def Let_def)

lemma askForBookmarkLabel_example_runs:
  "\<exists>st'. askForBookmarkLabel exampleEnv (- 1) \<lparr>pos_line = 3, character = 0\<rparr> None True None
           (Some ''todo'') (exampleState [mark 5, mark 2] fiveLines 3) = Inr st'"
  by (simp add: askForBookmarkLabel_def exampleState_def exampleEnv_def exampleEditor_def mark_def
      addBookmark_def sortBookmarksOf_def emit_def setBookmarks_def
      saveWorkspaceState_def canSaveBookmarksInProject_def Let_def)

theorem toggle_and_label_leave_sorted_witness:
  "window_activeTextEditor (exampleState [mark 5, mark 2] fiveLines 3) = Some (exampleEditor 3) \<and>
   (\<exists>st'. toggle exampleEnv (exampleState [mark 5, mark 2] fiveLines 3) = Inr st' \<and>
      (\<exists>bs'. activeBookmarks st' = Some bs' \<and> sorted (map line bs') \<and>
             (distinct (map line bs') \<longrightarrow> sorted_wrt (<) (map line bs')))) \<and>
   \<not> (''todo'' = '''' \<and> (None = Some '''' \<or> True)) \<and>
   (\<exists>st''. askForBookmarkLabel exampleEnv (- 1) \<lparr>pos_line = 3, character = 0\<rparr> None True None
            (Some ''todo'') (exampleState [mark 5, mark 2] fiveLines 3) = Inr st'' \<and>
      (\<exists>j. bookOrActive None (bookmarksCtl st'') = Some j \<and>
           j < length (fileList (bookmarksCtl st'')) \<and>
           sorted (map line (bookmarks (fileList (bookmarksCtl st'') ! j))) \<and>
           (distinct (map line (bookmarks (fileList (bookmarksCtl st'') ! j))) \<longrightarrow>
            sorted_wrt (<) (map line (bookmarks (fileList (bookmarksCtl st'') ! j))))))"
proof -
  let ?st = "exampleState [mark 5, mark 2] fiveLines 3"
  let ?pos = "\<lparr>pos_line = 3, character = 0\<rparr>"
  have w: "window_activeTextEditor ?st = Some (exampleEditor 3)" by (simp add: exampleState_def)
  obtain st' where t: "toggle exampleEnv ?st = Inr st'" using toggle_example_runs by blast
  obtain st'' where a: "askForBookmarkLabel exampleEnv (- 1) ?pos None True None
            (Some ''todo'') ?st = Inr st''"
    using askForBookmarkLabel_example_runs by blast
  have l: "\<not> (''todo'' = '''' \<and> (None = Some '''' \<or> True))" by simp
  note inst = toggle_and_label_leave_sorted
    [of ?st "exampleEditor 3" exampleEnv st' "''todo''" None True "- 1" ?pos None st'']
  from inst w t a l show ?thesis by blast
qed

lemma updateDecorations_ctl_cong:
  assumes "activeEditor s' = activeEditor s" and "docs s' = docs s"
    and "bookmarksCtl s' = bookmarksCtl s"
  shows "bookmarksCtl (updateDecorations s') = bookmarksCtl (updateDecorations s)"
  using assms
  by (simp add: updateDecorations_def lineCount_def lineAt_def emit_def Let_def
      split: option.splits)

lemma removeInvalids_none:
  "\<forall>b\<in>set bs. line b \<le> n \<Longrightarrow> removeInvalids (filter (\<lambda>e. \<not> line e \<le> n) bs) bs = bs"
proof -
  assume "\<forall>b\<in>set bs. line b \<le> n"
  then have "filter (\<lambda>e. \<not> line e \<le> n) bs = []" by (simp add: filter_empty_conv)
  then show ?thesis by simp
qed

text \<open>
  The decoration pass leaves the controller as it is when the document is not the empty
  one and every bookmark of the active file is within its lines.
\<close>

lemma updateDecorations_keeps_valid:
  assumes a: "activeBookmarks st = Some bs"
    and v: "\<forall>ed. activeEditor st = Some ed \<longrightarrow>
              \<not> (lineCount st (document ed) = 1 \<and> lineAt st (document ed) 0 = '''') \<and>
              (\<forall>b\<in>set bs. line b \<le> lineCount st (document ed))"
  shows "bookmarksCtl (updateDecorations st) = bookmarksCtl st"
proof (cases "activeEditor st")
  case None
  then show ?thesis by (simp add: updateDecorations_def)
next
  case (Some ed)
  from a obtain i f where
    i: "activeBookmark (bookmarksCtl st) = Some i" "i < length (fileList (bookmarksCtl st))" and
    f: "activeFile (bookmarksCtl st) = Some f" "bookmarks f = bs"
    using activeBookmarks_SomeD by blast
  from f(1) i have fi: "f = fileList (bookmarksCtl st) ! i" by (simp add: activeFile_def)
  from v Some have ne: "\<not> (lineCount st (document ed) = 1 \<and> lineAt st (document ed) 0 = '''')"
    and ok: "\<forall>b\<in>set bs. line b \<le> lineCount st (document ed)" by simp_all
  have "setBookmarks i bs (bookmarksCtl st) = bookmarksCtl st"
    using setBookmarks_same [of i "bookmarksCtl st"] fi f(2) by simp
  then show ?thesis
    using Some i f ne removeInvalids_none [OF ok]
    by (auto simp: updateDecorations_def Let_def emit_def)
qed

lemma save_then_decorate_exact:
  assumes "saveWorkspaceState env s = Inr s3"
  shows "bookmarksCtl (updateDecorations s3) = bookmarksCtl (updateDecorations s)"
  using saveWorkspaceState_frame [OF assms] by (intro updateDecorations_ctl_cong) simp_all

lemma toggle_exact:
  assumes w: "window_activeTextEditor st = Some wed"
    and a: "activeBookmarks (ensureActiveBookmark env wed st) = Some bs"
    and i: "activeBookmark (bookmarksCtl (ensureActiveBookmark env wed st)) = Some i"
    and r: "toggle env st = Inr st'"
  shows "\<exists>evs bs1 ds.
      (pos_line (selection_active wed) \<in> set (map line bs) \<longrightarrow>
         0 \<le> indexOfBookmark bs (Number (int (pos_line (selection_active wed)))) \<and>
         evs = [CallRemoveBookmark (indexOfBookmark bs (Number (int (pos_line (selection_active wed)))))
                  (int (pos_line (selection_active wed)))] \<and>
         bs1 = take (nat (indexOfBookmark bs (Number (int (pos_line (selection_active wed)))))) bs @
               drop (Suc (nat (indexOfBookmark bs (Number (int (pos_line (selection_active wed))))))) bs) \<and>
      (pos_line (selection_active wed) \<notin> set (map line bs) \<longrightarrow>
         evs = [CallAddBookmark (pos_line (selection_active wed)), ShowTextDocument (document wed)] \<and>
         bs1 = insort_key line
                 \<lparr>line = pos_line (selection_active wed),
                    column = character (selection_active wed), label = ''''\<rparr> bs) \<and>
      i < length (fileList (bookmarksCtl (ensureActiveBookmark env wed st))) \<and>
      newEvents st st' =
        evs @ [SaveWorkspaceState (setBookmarks i (sortByLine bs1)
                 (bookmarksCtl (ensureActiveBookmark env wed st)))] @ ds \<and>
      list_all isSetDecorations ds \<and>
      persisted env (setBookmarks i (sortByLine bs1)
                       (bookmarksCtl (ensureActiveBookmark env wed st))) st' \<and>
      bookmarksCtl st' =
        bookmarksCtl (updateDecorations
          (st\<lparr>bookmarksCtl := setBookmarks i (sortByLine bs1)
                                 (bookmarksCtl (ensureActiveBookmark env wed st))\<rparr>))"
proof -
  let ?s = "ensureActiveBookmark env wed st"
  from toggle_run [OF w a] i obtain evs bs1 where
    il: "i < length (fileList (bookmarksCtl ?s))" and
    rm: "pos_line (selection_active wed) \<in> set (map line bs) \<longrightarrow>
         0 \<le> indexOfBookmark bs (Number (int (pos_line (selection_active wed)))) \<and>
         evs = [CallRemoveBookmark (indexOfBookmark bs (Number (int (pos_line (selection_active wed)))))
                  (int (pos_line (selection_active wed)))] \<and>
         bs1 = take (nat (indexOfBookmark bs (Number (int (pos_line (selection_active wed)))))) bs @
               drop (Suc (nat (indexOfBookmark bs (Number (int (pos_line (selection_active wed))))))) bs" and
    ad: "pos_line (selection_active wed) \<notin> set (map line bs) \<longrightarrow>
         evs = [CallAddBookmark (pos_line (selection_active wed)), ShowTextDocument (document wed)] \<and>
         bs1 = insort_key line
                 \<lparr>line = pos_line (selection_active wed),
                    column = character (selection_active wed), label = ''''\<rparr> bs" and
    run: "toggle env st =
        (case saveWorkspaceState env
                (?s\<lparr>trace := trace st @ evs,
                    bookmarksCtl := setBookmarks i (sortByLine bs1) (bookmarksCtl ?s)\<rparr>) of
           Inl e \<Rightarrow> Inl e
         | Inr st3 \<Rightarrow> Inr (updateDecorations st3))"
    by auto
  let ?c = "setBookmarks i (sortByLine bs1) (bookmarksCtl ?s)"
  let ?S = "?s\<lparr>trace := trace st @ evs, bookmarksCtl := ?c\<rparr>"
  from run r obtain st3 where s3: "saveWorkspaceState env ?S = Inr st3"
    and st': "st' = updateDecorations st3"
    by (auto split: sum.splits)
  have trS: "trace ?S = trace st @ evs" and cS: "bookmarksCtl ?S = ?c" by simp_all
  from save_then_decorate [OF s3 trS] obtain ds where
    sd: "newEvents st st' = evs @ [SaveWorkspaceState ?c] @ ds"
      "list_all isSetDecorations ds" "persisted env ?c st'"
    unfolding st' cS by blast
  have "bookmarksCtl (updateDecorations ?S) =
        bookmarksCtl (updateDecorations (st\<lparr>bookmarksCtl := ?c\<rparr>))"
    by (intro updateDecorations_ctl_cong) (simp_all add: ensureActiveBookmark_frame)
  then have fin: "bookmarksCtl st' = bookmarksCtl (updateDecorations (st\<lparr>bookmarksCtl := ?c\<rparr>))"
    using save_then_decorate_exact [OF s3] st' by simp
  from il rm ad sd fin show ?thesis by blast
qed

lemma distinct_remove_nth_notin:
  assumes "distinct xs" and "k < length xs"
  shows "xs ! k \<notin> set (take k xs @ drop (Suc k) xs)"
proof -
  have "xs = take k xs @ xs ! k # drop (Suc k) xs"
    using assms(2) by (rule id_take_nth_drop)
  then have "distinct (take k xs @ xs ! k # drop (Suc k) xs)" using assms(1) by simp
  then show ?thesis by auto
qed

lemma updateDecorations_within:
  assumes "activeBookmarks st = Some bs" and "withinDocument st bs"
  shows "bookmarksCtl (updateDecorations st) = bookmarksCtl st"
  using assms
  by (intro updateDecorations_keeps_valid [of st bs])
     (auto simp: withinDocument_def list_all_iff)

lemma decorated_within:
  assumes c: "bookmarksCtl st' = bookmarksCtl (updateDecorations (st\<lparr>bookmarksCtl := setBookmarks i bs c\<rparr>))"
    and i: "activeBookmark c = Some i" "i < length (fileList c)"
    and v: "withinDocument st bs"
  shows "activeBookmarks st' = Some bs"
proof -
  let ?X = "st\<lparr>bookmarksCtl := setBookmarks i bs c\<rparr>"
  have a: "activeBookmarks ?X = Some bs"
    using i by (simp add: activeBookmarks_def activeFile_def)
  have "withinDocument ?X bs"
    using v by (simp add: withinDocument_def lineCount_def lineAt_def split: option.splits)
  from updateDecorations_within [OF a this] c have "bookmarksCtl st' = setBookmarks i bs c"
    by simp
  then show ?thesis using i by (simp add: activeBookmarks_def activeFile_def)
qed

lemma decorated_prefix:
  assumes c: "bookmarksCtl st' = bookmarksCtl (updateDecorations (st\<lparr>bookmarksCtl := setBookmarks i bs c\<rparr>))"
    and i: "activeBookmark c = Some i" "i < length (fileList c)"
  shows "\<exists>n. activeBookmarks st' = Some (take n bs)"
proof -
  let ?X = "st\<lparr>bookmarksCtl := setBookmarks i bs c\<rparr>"
  obtain n where "bookmarksCtl (updateDecorations ?X) = pruneActive n (bookmarksCtl ?X)"
    using updateDecorations_prunes by blast
  with c have "bookmarksCtl st' = pruneActive n (setBookmarks i bs c)" by simp
  from activeBookmarks_pruneActive [OF this i] show ?thesis by blast
qed

text \<open>
  C5. At every cursor position, \<^verbatim>\<open>toggle\<close> removes the bookmark of the cursor's line
  when \<^verbatim>\<open>indexOfBookmark\<close> finds one (the index is non-negative and is that of a
  bookmark at that line), and adds a bookmark at the cursor otherwise. The controller it
  saves has, as the bookmarks of the active file, the old ones without the entry at that
  index resp. with the new bookmark, sorted by line; these are all the events of the
  run but for the decorations drawn at the end, and the controller it leaves is what
  the decoration pass makes of the saved one: the saved one itself when the document has
  a line for every bookmark. So \<^verbatim>\<open>addBookmark\<close> is called only for a line without a
  bookmark, \<^verbatim>\<open>toggle\<close> fails with no other error than the \<^verbatim>\<open>TypeError\<close> of
  saving, and a set with at most one bookmark per line is left with at most one bookmark
  per line.
\<close>

theorem toggle_removes_or_adds:
  assumes w: "window_activeTextEditor st = Some wed"
    and a: "activeBookmarks (ensureActiveBookmark env wed st) = Some bs"
    and i: "activeBookmark (bookmarksCtl (ensureActiveBookmark env wed st)) = Some i"
  shows
    "let l = pos_line (selection_active wed);
         k = indexOfBookmark bs (Number (int l));
         new = \<lparr>line = l, column = character (selection_active wed), label = ''''\<rparr>;
         removed = sortByLine (take (nat k) bs @ drop (Suc (nat k)) bs);
         added = sortByLine (insort_key line new bs);
         saved = (\<lambda>bs'. setBookmarks i bs' (bookmarksCtl (ensureActiveBookmark env wed st)))
     in (\<forall>e. toggle env st = Inl e \<longrightarrow> e = TypeError) \<and>
        (\<forall>st'. toggle env st = Inr st' \<longrightarrow>
           (l \<in> set (map line bs) \<longrightarrow>
              0 \<le> k \<and> nat k < length bs \<and> line (bs ! nat k) = l \<and>
              (\<exists>ds. newEvents st st' =
                      [CallRemoveBookmark k (int l), SaveWorkspaceState (saved removed)] @ ds \<and>
                    list_all isSetDecorations ds) \<and>
              persisted env (saved removed) st' \<and>
              bookmarksCtl st' =
                bookmarksCtl (updateDecorations (st\<lparr>bookmarksCtl := saved removed\<rparr>)) \<and>
              (withinDocument st removed \<longrightarrow> activeBookmarks st' = Some removed) \<and>
              set removed \<subseteq> set bs \<and> length removed + 1 = length bs \<and>
              (distinct (map line bs) \<longrightarrow> l \<notin> set (map line removed))) \<and>
           (l \<notin> set (map line bs) \<longrightarrow>
              k < 0 \<and>
              (\<exists>ds. newEvents st st' =
                      [CallAddBookmark l, ShowTextDocument (document wed),
                       SaveWorkspaceState (saved added)] @ ds \<and>
                    list_all isSetDecorations ds) \<and>
              persisted env (saved added) st' \<and>
              bookmarksCtl st' =
                bookmarksCtl (updateDecorations (st\<lparr>bookmarksCtl := saved added\<rparr>)) \<and>
              (withinDocument st added \<longrightarrow> activeBookmarks st' = Some added) \<and>
              set added = insert new (set bs) \<and> length added = length bs + 1) \<and>
           (\<forall>bs'. activeFile (saved bs') =
                    Some ((fileList (bookmarksCtl (ensureActiveBookmark env wed st)) ! i)
                            \<lparr>bookmarks := bs'\<rparr>)) \<and>
           (\<forall>l'. CallAddBookmark l' \<in> set (newEvents st st') \<longrightarrow> l' \<notin> set (map line bs)) \<and>
           (\<forall>k' l'. CallRemoveBookmark k' l' \<in> set (newEvents st st') \<longrightarrow>
                 0 \<le> k' \<and> nat k' < length bs \<and> int (line (bs ! nat k')) = l' \<and> l' = int l) \<and>
           (distinct (map line bs) \<longrightarrow>
              distinct (map line removed) \<and> (l \<notin> set (map line bs) \<longrightarrow> distinct (map line added)) \<and>
              (\<exists>bs'. activeBookmarks st' = Some bs' \<and> distinct (map line bs'))))"
  unfolding Let_def
proof (intro conjI allI impI)
  fix e
  assume "toggle env st = Inl e"
  moreover from toggle_run [OF w a] obtain s where
    "toggle env st =
       (case saveWorkspaceState env s of Inl e \<Rightarrow> Inl e | Inr st3 \<Rightarrow> Inr (updateDecorations st3))"
    by blast
  ultimately have "saveWorkspaceState env s = Inl e"
    by (cases "saveWorkspaceState env s") simp_all
  then show "e = TypeError" by (rule saveWorkspaceState_Inl)
next
  fix st'
  assume r: "toggle env st = Inr st'"
  let ?s = "ensureActiveBookmark env wed st"
  let ?l = "pos_line (selection_active wed)"
  let ?k = "indexOfBookmark bs (Number (int ?l))"
  let ?rm = "take (nat ?k) bs @ drop (Suc (nat ?k)) bs"
  let ?new = "\<lparr>line = ?l, column = character (selection_active wed), label = ''''\<rparr>"
  let ?ad = "insort_key line ?new bs"
  from toggle_exact [OF w a i r] obtain evs bs1 ds where
    il: "i < length (fileList (bookmarksCtl ?s))" and
    rm: "?l \<in> set (map line bs) \<longrightarrow>
           0 \<le> ?k \<and> evs = [CallRemoveBookmark ?k (int ?l)] \<and> bs1 = ?rm" and
    ad: "?l \<notin> set (map line bs) \<longrightarrow>
           evs = [CallAddBookmark ?l, ShowTextDocument (document wed)] \<and> bs1 = ?ad" and
    ev: "newEvents st st' =
           evs @ [SaveWorkspaceState (setBookmarks i (sortByLine bs1) (bookmarksCtl ?s))] @ ds" and
    ds: "list_all isSetDecorations ds" and
    ps: "persisted env (setBookmarks i (sortByLine bs1) (bookmarksCtl ?s)) st'" and
    fin: "bookmarksCtl st' =
            bookmarksCtl (updateDecorations
              (st\<lparr>bookmarksCtl := setBookmarks i (sortByLine bs1) (bookmarksCtl ?s)\<rparr>))"
    by blast
  {
    assume m: "?l \<in> set (map line bs)"
    with rm have k0: "0 \<le> ?k" and e1: "evs = [CallRemoveBookmark ?k (int ?l)]"
      and b1: "bs1 = ?rm" by simp_all
    show "0 \<le> ?k" by (rule k0)
    from indexOfBookmark_found [OF k0]
    show kl: "nat ?k < length bs" and "line (bs ! nat ?k) = ?l" by simp_all
    show "\<exists>ds. newEvents st st' =
            [CallRemoveBookmark ?k (int ?l),
             SaveWorkspaceState (setBookmarks i (sortByLine ?rm) (bookmarksCtl ?s))] @ ds \<and>
          list_all isSetDecorations ds"
      using ev ds e1 b1 by simp
    show "persisted env (setBookmarks i (sortByLine ?rm) (bookmarksCtl ?s)) st'"
      using ps b1 by simp
    show f1: "bookmarksCtl st' =
            bookmarksCtl (updateDecorations
              (st\<lparr>bookmarksCtl := setBookmarks i (sortByLine ?rm) (bookmarksCtl ?s)\<rparr>))"
      using fin b1 by simp
    show "activeBookmarks st' = Some (sortByLine ?rm)" if "withinDocument st (sortByLine ?rm)"
      using decorated_within [OF f1 i il that] .
    show "set (sortByLine ?rm) \<subseteq> set bs"
      using set_take_subset [of "nat ?k" bs] set_drop_subset [of "Suc (nat ?k)" bs]
      by (auto simp: sortByLine_def)
    show "length (sortByLine ?rm) + 1 = length bs"
      using kl by (simp add: sortByLine_def min_def)
  }
  {
    assume m: "?l \<notin> set (map line bs)"
    with ad have e1: "evs = [CallAddBookmark ?l, ShowTextDocument (document wed)]"
      and b1: "bs1 = ?ad" by simp_all
    from m show "?k < 0" using indexOfBookmark_neg_iff [of bs ?l] by simp
    show "\<exists>ds. newEvents st st' =
            [CallAddBookmark ?l, ShowTextDocument (document wed),
             SaveWorkspaceState (setBookmarks i (sortByLine ?ad) (bookmarksCtl ?s))] @ ds \<and>
          list_all isSetDecorations ds"
      using ev ds e1 b1 by simp
    show "persisted env (setBookmarks i (sortByLine ?ad) (bookmarksCtl ?s)) st'"
      using ps b1 by simp
    show f1: "bookmarksCtl st' =
            bookmarksCtl (updateDecorations
              (st\<lparr>bookmarksCtl := setBookmarks i (sortByLine ?ad) (bookmarksCtl ?s)\<rparr>))"
      using fin b1 by simp
    show "activeBookmarks st' = Some (sortByLine ?ad)" if "withinDocument st (sortByLine ?ad)"
      using decorated_within [OF f1 i il that] .
    show "set (sortByLine ?ad) = insert ?new (set bs)"
      by (simp add: sortByLine_def set_insort_key)
    show "length (sortByLine ?ad) = length bs + 1"
      by (simp add: sortByLine_def)
  }
  show "activeFile (setBookmarks i bs' (bookmarksCtl ?s)) =
          Some ((fileList (bookmarksCtl ?s) ! i)\<lparr>bookmarks := bs'\<rparr>)" for bs'
    using i il by (simp add: activeFile_def setBookmarks_def)
  have nods: "CallAddBookmark l' \<notin> set ds" "CallRemoveBookmark k' l'' \<notin> set ds" for l' k' l''
    using ds by (auto simp: list_all_iff isSetDecorations_def)
  {
    fix l'
    assume "CallAddBookmark l' \<in> set (newEvents st st')"
    then show "l' \<notin> set (map line bs)"
      using rm ad ev nods by (cases "?l \<in> set (map line bs)") auto
  }
  {
    fix k' l'
    assume c: "CallRemoveBookmark k' l' \<in> set (newEvents st st')"
    then have m: "?l \<in> set (map line bs)" and kl: "k' = ?k" "l' = int ?l"
      using rm ad ev nods by (cases "?l \<in> set (map line bs)"; auto)+
    from m rm have k0: "0 \<le> ?k" by simp
    from indexOfBookmark_found [OF k0] kl k0
    show "0 \<le> k'" "nat k' < length bs" "int (line (bs ! nat k')) = l'" "l' = int ?l"
      by simp_all
  }
  {
    assume d: "distinct (map line bs)"
    have drm: "distinct (map line ?rm)" using d by (rule distinct_remove_line)
    then show dsr: "distinct (map line (sortByLine ?rm))"
      by (simp add: sortByLine_def map_sort_key)
    have dad: "distinct (map line (sortByLine ?ad))" if "?l \<notin> set (map line bs)"
    proof -
      have "distinct (map line ?ad)" using d that by (intro distinct_insort_line) simp_all
      then show ?thesis by (simp add: sortByLine_def map_sort_key)
    qed
    then show "distinct (map line (sortByLine ?ad))" if "?l \<notin> set (map line bs)"
      using that by simp
    have "distinct (map line bs1)"
    proof (cases "?l \<in> set (map line bs)")
      case True
      with rm drm show ?thesis by simp
    next
      case False
      then have "distinct (map line ?ad)" using d by (intro distinct_insort_line) simp_all
      with ad False show ?thesis by simp
    qed
    moreover obtain n where "activeBookmarks st' = Some (take n (sortByLine bs1))"
      using decorated_prefix [OF fin i il] by blast
    ultimately show "\<exists>bs'. activeBookmarks st' = Some bs' \<and> distinct (map line bs')"
      using distinct_take_sortByLine [of bs1 n] by simp
    show "?l \<notin> set (map line (sortByLine ?rm))" if m: "?l \<in> set (map line bs)"
    proof -
      from m rm have k0: "0 \<le> ?k" by simp
      from indexOfBookmark_found [OF k0] have kl: "nat ?k < length bs"
        and ln: "line (bs ! nat ?k) = ?l" by simp_all
      have "map line bs ! nat ?k \<notin> set (take (nat ?k) (map line bs) @ drop (Suc (nat ?k)) (map line bs))"
        using d kl
        by (metis distinct_remove_nth_notin length_map)
      then show ?thesis using kl ln by (auto simp: sortByLine_def take_map drop_map)
    qed
  }
qed

lemma toggle_example_removes_runs:
  "\<exists>st'. toggle exampleEnv (exampleState [mark 2, mark 5] fiveLines 5) = Inr st'"
  by (simp add: toggle_def exampleState_def exampleEnv_def exampleEditor_def mark_def
      ensureActiveBookmark_def activeFile_def removeBookmark_def sortBookmarksOf_def
      emit_def setBookmarks_def saveWorkspaceState_def canSaveBookmarksInProject_def Let_def)

lemma toggle_example_adds_runs:
  "\<exists>st'. toggle exampleEnv (exampleState [mark 2, mark 5] fiveLines 3) = Inr st'"
  by (simp add: toggle_def exampleState_def exampleEnv_def exampleEditor_def mark_def
      ensureActiveBookmark_def activeFile_def addBookmark_def sortBookmarksOf_def
      emit_def setBookmarks_def saveWorkspaceState_def canSaveBookmarksInProject_def Let_def)

theorem toggle_removes_or_adds_witness:
  "window_activeTextEditor (exampleState [mark 2, mark 5] fiveLines 5) = Some (exampleEditor 5) \<and>
   activeBookmarks (ensureActiveBookmark exampleEnv (exampleEditor 5)
                      (exampleState [mark 2, mark 5] fiveLines 5)) = Some [mark 2, mark 5] \<and>
   activeBookmark (bookmarksCtl (ensureActiveBookmark exampleEnv (exampleEditor 5)
                      (exampleState [mark 2, mark 5] fiveLines 5))) = Some 0 \<and>
   (\<exists>st'. toggle exampleEnv (exampleState [mark 2, mark 5] fiveLines 5) = Inr st' \<and>
          (\<exists>ds. newEvents (exampleState [mark 2, mark 5] fiveLines 5) st' =
                  [CallRemoveBookmark 1 5,
                   SaveWorkspaceState
                     \<lparr>fileList = [\<lparr>path = ''/a.txt'', bookmarks = [mark 2]\<rparr>],
                        activeBookmark = Some 0\<rparr>] @ ds \<and>
                list_all isSetDecorations ds) \<and>
          activeBookmarks st' = Some [mark 2]) \<and>
   window_activeTextEditor (exampleState [mark 2, mark 5] fiveLines 3) = Some (exampleEditor 3) \<and>
   activeBookmarks (ensureActiveBookmark exampleEnv (exampleEditor 3)
                      (exampleState [mark 2, mark 5] fiveLines 3)) = Some [mark 2, mark 5] \<and>
   activeBookmark (bookmarksCtl (ensureActiveBookmark exampleEnv (exampleEditor 3)
                      (exampleState [mark 2, mark 5] fiveLines 3))) = Some 0 \<and>
   (\<exists>st'. toggle exampleEnv (exampleState [mark 2, mark 5] fiveLines 3) = Inr st' \<and>
          (\<exists>ds. newEvents (exampleState [mark 2, mark 5] fiveLines 3) st' =
                  [CallAddBookmark 3, ShowTextDocument ''/a.txt'',
                   SaveWorkspaceState
                     \<lparr>fileList = [\<lparr>path = ''/a.txt'', bookmarks = [mark 2, mark 3, mark 5]\<rparr>],
                        activeBookmark = Some 0\<rparr>] @ ds \<and>
                list_all isSetDecorations ds) \<and>
          activeBookmarks st' = Some [mark 2, mark 3, mark 5])"
proof -
  let ?r = "exampleState [mark 2, mark 5] fiveLines 5"
  let ?a = "exampleState [mark 2, mark 5] fiveLines 3"
  have wr: "window_activeTextEditor ?r = Some (exampleEditor 5)" by (simp add: exampleState_def)
  have ar: "activeBookmarks (ensureActiveBookmark exampleEnv (exampleEditor 5) ?r) =
              Some [mark 2, mark 5]"
    by (simp add: ensureActiveBookmark_def activeBookmarks_def activeFile_def exampleState_def)
  have ir: "activeBookmark (bookmarksCtl (ensureActiveBookmark exampleEnv (exampleEditor 5) ?r)) =
              Some 0"
    by (simp add: ensureActiveBookmark_def activeFile_def exampleState_def)
  have wa: "window_activeTextEditor ?a = Some (exampleEditor 3)" by (simp add: exampleState_def)
  have aa: "activeBookmarks (ensureActiveBookmark exampleEnv (exampleEditor 3) ?a) =
              Some [mark 2, mark 5]"
    by (simp add: ensureActiveBookmark_def activeBookmarks_def activeFile_def exampleState_def)
  have ia: "activeBookmark (bookmarksCtl (ensureActiveBookmark exampleEnv (exampleEditor 3) ?a)) =
              Some 0"
    by (simp add: ensureActiveBookmark_def activeFile_def exampleState_def)
  obtain sr where sr: "toggle exampleEnv ?r = Inr sr" using toggle_example_removes_runs by blast
  obtain sa where sa: "toggle exampleEnv ?a = Inr sa" using toggle_example_adds_runs by blast
  have cr: "bookmarksCtl (ensureActiveBookmark exampleEnv (exampleEditor 5) ?r) =
              \<lparr>fileList = [\<lparr>path = ''/a.txt'', bookmarks = [mark 2, mark 5]\<rparr>],
                 activeBookmark = Some 0\<rparr>"
    and ca: "bookmarksCtl (ensureActiveBookmark exampleEnv (exampleEditor 3) ?a) =
              \<lparr>fileList = [\<lparr>path = ''/a.txt'', bookmarks = [mark 2, mark 5]\<rparr>],
                 activeBookmark = Some 0\<rparr>"
    by (simp_all add: ensureActiveBookmark_def activeFile_def exampleState_def)
  have vr: "pos_line (selection_active (exampleEditor 5)) = 5"
    "indexOfBookmark [mark 2, mark 5] (Number 5) = 1"
    "sortByLine (take (nat 1) [mark 2, mark 5] @ drop (Suc (nat 1)) [mark 2, mark 5]) = [mark 2]"
    "withinDocument ?r [mark 2]"
    by (simp_all add: exampleEditor_def mark_def sortByLine_def withinDocument_def
        exampleState_def lineCount_def lineAt_def fiveLines_def)
  have va: "pos_line (selection_active (exampleEditor 3)) = 3"
    "character (selection_active (exampleEditor 3)) = 0"
    "document (exampleEditor 3) = ''/a.txt''"
    "sortByLine (insort_key line \<lparr>line = 3, column = 0, label = ''''\<rparr> [mark 2, mark 5]) =
       [mark 2, mark 3, mark 5]"
    "withinDocument ?a [mark 2, mark 3, mark 5]"
    by (simp_all add: exampleEditor_def mark_def sortByLine_def withinDocument_def
        exampleState_def lineCount_def lineAt_def fiveLines_def)
  have lr: "5 \<in> set (map line [mark 2, mark 5])" and la: "3 \<notin> set (map line [mark 2, mark 5])"
    by (simp_all add: mark_def)
  note tr = toggle_removes_or_adds [OF wr ar ir, unfolded Let_def, THEN conjunct2, rule_format, OF sr]
  note ta = toggle_removes_or_adds [OF wa aa ia, unfolded Let_def, THEN conjunct2, rule_format, OF sa]
  have r: "(\<exists>ds. newEvents ?r sr =
                  [CallRemoveBookmark 1 5,
                   SaveWorkspaceState
                     \<lparr>fileList = [\<lparr>path = ''/a.txt'', bookmarks = [mark 2]\<rparr>],
                        activeBookmark = Some 0\<rparr>] @ ds \<and>
                list_all isSetDecorations ds) \<and>
          activeBookmarks sr = Some [mark 2]"
    using tr [unfolded vr(1) of_nat_numeral vr(2) vr(3) cr, THEN conjunct1, rule_format, OF lr]
      vr(4)
    by (simp add: setBookmarks_def)
  have a: "(\<exists>ds. newEvents ?a sa =
                  [CallAddBookmark 3, ShowTextDocument ''/a.txt'',
                   SaveWorkspaceState
                     \<lparr>fileList = [\<lparr>path = ''/a.txt'', bookmarks = [mark 2, mark 3, mark 5]\<rparr>],
                        activeBookmark = Some 0\<rparr>] @ ds \<and>
                list_all isSetDecorations ds) \<and>
          activeBookmarks sa = Some [mark 2, mark 3, mark 5]"
    using ta [unfolded va(1) va(2) va(3) va(4) ca, THEN conjunct2, THEN conjunct1, rule_format,
               OF la]
      va(5)
    by (simp add: setBookmarks_def)
  from wr ar ir sr r wa aa ia sa a show ?thesis by blast
qed

section \<open>Saving after a change\<close>

lemma filter_isSave_decorations: "list_all isSetDecorations ds \<Longrightarrow> filter isSave ds = []"
  by (induction ds) (auto simp: isSetDecorations_def isSave_def split: event.splits)

lemma savedStoreI:
  assumes "newEvents st st' = evs @ [SaveWorkspaceState c] @ ds"
    and "filter isSave evs = []" and "list_all isSetDecorations ds" and "persisted env c st'"
  shows "savedStore env st st' c"
  using assms filter_isSave_decorations [of ds] by (simp add: savedStore_def isSave_def)

text \<open>
  A handler that has mutated the controller of \<open>st\<close> into that of \<open>s\<close>, and then runs
  \<^verbatim>\<open>saveWorkspaceState(); updateDecorations();\<close>.
\<close>

lemma savedThenDecorated_run:
  assumes sv: "saveWorkspaceState env s = Inr s3" and t: "trace s = trace st @ evs"
    and ns: "filter isSave evs = []"
    and e: "activeEditor s = activeEditor st" and d: "docs s = docs st"
  shows "savedThenDecorated env st (updateDecorations s3) (bookmarksCtl s)"
proof -
  from save_then_decorate [OF sv t] obtain ds where
    ev: "newEvents st (updateDecorations s3) = evs @ [SaveWorkspaceState (bookmarksCtl s)] @ ds"
    and ds: "list_all isSetDecorations ds"
    and p: "persisted env (bookmarksCtl s) (updateDecorations s3)"
    by blast
  have "bookmarksCtl (updateDecorations s) =
        bookmarksCtl (updateDecorations (st\<lparr>bookmarksCtl := bookmarksCtl s\<rparr>))"
    using e d by (intro updateDecorations_ctl_cong) simp_all
  then have "bookmarksCtl (updateDecorations s3) =
        bookmarksCtl (updateDecorations (st\<lparr>bookmarksCtl := bookmarksCtl s\<rparr>))"
    using save_then_decorate_exact [OF sv] by simp
  with savedStoreI [OF ev ns ds p] show ?thesis by (simp add: savedThenDecorated_def)
qed

lemma clear_saves:
  assumes "window_activeTextEditor st = Some wed" and "clear env st = Inr st'"
  shows "\<exists>c. bookmarks_clear None (bookmarksCtl st) = Inr c \<and> savedThenDecorated env st st' c"
proof -
  from assms obtain c s1 where c: "bookmarks_clear None (bookmarksCtl st) = Inr c"
    and s: "saveWorkspaceState env (st\<lparr>bookmarksCtl := c\<rparr>) = Inr s1" "st' = updateDecorations s1"
    by (auto simp: clear_def split: sum.splits)
  from savedThenDecorated_run [OF s(1), of st "[]"] s(2) c show ?thesis by simp
qed

lemma clearFromAllFiles_saves:
  assumes "clearFromAllFiles env st = Inr st'"
  shows "savedThenDecorated env st st' (clearAll (bookmarksCtl st))"
proof -
  from assms obtain s1 where
    s: "saveWorkspaceState env (st\<lparr>bookmarksCtl := clearAll (bookmarksCtl st)\<rparr>) = Inr s1"
    "st' = updateDecorations s1"
    by (auto simp: clearFromAllFiles_def split: sum.splits)
  from savedThenDecorated_run [OF s(1), of st "[]"] s(2) show ?thesis by simp
qed

lemma deleteBookmark_saves:
  assumes "deleteBookmark env arg0 arg1 st = Inr st'"
  shows "\<exists>book f c. fromUri env arg0 (bookmarksCtl st) = Some book \<and>
           fileAt (bookmarksCtl st) book = Some f \<and>
           removeBookmark (indexOfBookmark (bookmarks f) (Number (arg1 - 1))) (arg1 - 1)
             (Some book) (bookmarksCtl st) = Inr c \<and>
           savedThenDecorated env st st' c"
proof -
  from assms obtain book f c s2 where
    b: "fromUri env arg0 (bookmarksCtl st) = Some book" "fileAt (bookmarksCtl st) book = Some f" and
    c: "removeBookmark (indexOfBookmark (bookmarks f) (Number (arg1 - 1))) (arg1 - 1)
             (Some book) (bookmarksCtl st) = Inr c" and
    s: "saveWorkspaceState env
          ((emit (CallRemoveBookmark (indexOfBookmark (bookmarks f) (Number (arg1 - 1))) (arg1 - 1)) st)
             \<lparr>bookmarksCtl := c\<rparr>) = Inr s2"
      "st' = updateDecorations s2"
    by (auto simp: deleteBookmark_def Let_def split: sum.splits option.splits)
  from savedThenDecorated_run [OF s(1), of st
      "[CallRemoveBookmark (indexOfBookmark (bookmarks f) (Number (arg1 - 1))) (arg1 - 1)]"]
  have "savedThenDecorated env st st' c" using s(2) by (simp add: emit_def isSave_def)
  with b c show ?thesis by blast
qed

lemma toggle_saves:
  assumes w: "window_activeTextEditor st = Some wed" and r: "toggle env st = Inr st'"
  shows "\<exists>f i c. activeFile (bookmarksCtl (ensureActiveBookmark env wed st)) = Some f \<and>
      activeBookmark (bookmarksCtl (ensureActiveBookmark env wed st)) = Some i \<and>
      (if indexOfBookmark (bookmarks f) (Number (int (pos_line (selection_active wed)))) < 0
       then addBookmark (selection_active wed) '''' None
              (bookmarksCtl (ensureActiveBookmark env wed st))
       else removeBookmark
              (indexOfBookmark (bookmarks f) (Number (int (pos_line (selection_active wed)))))
              (int (pos_line (selection_active wed))) None
              (bookmarksCtl (ensureActiveBookmark env wed st))) = Inr c \<and>
      savedThenDecorated env st st' (sortedAt i c)"
proof -
  let ?s = "ensureActiveBookmark env wed st"
  let ?l = "pos_line (selection_active wed)"
  obtain i f where i: "activeBookmark (bookmarksCtl ?s) = Some i"
    and f: "activeFile (bookmarksCtl ?s) = Some f"
    and il: "i < length (fileList (bookmarksCtl ?s))"
    and fi: "f = fileList (bookmarksCtl ?s) ! i"
    using ensureActiveBookmark_active [of env wed st] by blast
  let ?k = "indexOfBookmark (bookmarks f) (Number (int ?l))"
  have a: "activeBookmarks ?s = Some (bookmarks f)" using f by (simp add: activeBookmarks_def)
  from toggle_exact [OF w a i r] obtain evs bs1 ds where
    rm: "?l \<in> set (map line (bookmarks f)) \<longrightarrow>
           0 \<le> ?k \<and> evs = [CallRemoveBookmark ?k (int ?l)] \<and>
           bs1 = take (nat ?k) (bookmarks f) @ drop (Suc (nat ?k)) (bookmarks f)" and
    ad: "?l \<notin> set (map line (bookmarks f)) \<longrightarrow>
           evs = [CallAddBookmark ?l, ShowTextDocument (document wed)] \<and>
           bs1 = insort_key line
                   \<lparr>line = ?l, column = character (selection_active wed), label = ''''\<rparr>
                   (bookmarks f)" and
    ev: "newEvents st st' =
           evs @ [SaveWorkspaceState (setBookmarks i (sortByLine bs1) (bookmarksCtl ?s))] @ ds" and
    ds: "list_all isSetDecorations ds" and
    ps: "persisted env (setBookmarks i (sortByLine bs1) (bookmarksCtl ?s)) st'" and
    fin: "bookmarksCtl st' =
            bookmarksCtl (updateDecorations
              (st\<lparr>bookmarksCtl := setBookmarks i (sortByLine bs1) (bookmarksCtl ?s)\<rparr>))"
    by blast
  have ns: "filter isSave evs = []"
    using rm ad by (cases "?l \<in> set (map line (bookmarks f))") (simp_all add: isSave_def)
  have sd: "savedThenDecorated env st st' (setBookmarks i (sortByLine bs1) (bookmarksCtl ?s))"
    using savedStoreI [OF ev ns ds ps] fin by (simp add: savedThenDecorated_def)
  have so: "sortedAt i (setBookmarks i bs1 (bookmarksCtl ?s)) =
            setBookmarks i (sortByLine bs1) (bookmarksCtl ?s)"
    using il by (simp add: sortedAt_def)
  show ?thesis
  proof (cases "?l \<in> set (map line (bookmarks f))")
    case True
    with rm have k0: "0 \<le> ?k"
      and b1: "bs1 = take (nat ?k) (bookmarks f) @ drop (Suc (nat ?k)) (bookmarks f)"
      by simp_all
    from indexOfBookmark_found [OF k0] have kl: "nat ?k < length (bookmarks f)" by simp
    have "removeBookmark ?k (int ?l) None (bookmarksCtl ?s) =
            Inr (setBookmarks i bs1 (bookmarksCtl ?s))"
      using i il fi k0 kl b1 by (simp add: removeBookmark_def)
    with k0 have "(if ?k < 0
       then addBookmark (selection_active wed) '''' None (bookmarksCtl ?s)
       else removeBookmark ?k (int ?l) None (bookmarksCtl ?s)) =
         Inr (setBookmarks i bs1 (bookmarksCtl ?s))" by simp
    with f i sd so show ?thesis by metis
  next
    case False
    with ad have b1: "bs1 = insort_key line
                   \<lparr>line = ?l, column = character (selection_active wed), label = ''''\<rparr>
                   (bookmarks f)" by simp
    from False have kn: "?k < 0" using indexOfBookmark_neg_iff [of "bookmarks f" ?l] by simp
    have "addBookmark (selection_active wed) '''' None (bookmarksCtl ?s) =
            Inr (setBookmarks i bs1 (bookmarksCtl ?s))"
      using i il fi False b1 by (simp add: addBookmark_def)
    with kn have "(if ?k < 0
       then addBookmark (selection_active wed) '''' None (bookmarksCtl ?s)
       else removeBookmark ?k (int ?l) None (bookmarksCtl ?s)) =
         Inr (setBookmarks i bs1 (bookmarksCtl ?s))" by simp
    with f i sd so show ?thesis by metis
  qed
qed

lemma askForBookmarkLabel_saves:
  assumes lbl: "\<not> (lbl = '''' \<and> (oldLabel = Some '''' \<or> jumpToPosition))"
    and r: "askForBookmarkLabel env index position oldLabel jumpToPosition book (Some lbl) st = Inr st'"
  shows "\<exists>j c1 c2. bookOrActive book (bookmarksCtl st) = Some j \<and>
      (if 0 \<le> index
       then removeBookmark index (int (pos_line position)) book (bookmarksCtl st)
       else Inr (bookmarksCtl st)) = Inr c1 \<and>
      addBookmark position lbl book c1 = Inr c2 \<and>
      savedThenDecorated env st st' (sortedAt j c2)"
proof -
  from askForBookmarkLabel_chain [OF lbl r] obtain st1 c2 st3 st4 st5 where
    rm: "0 \<le> index \<longrightarrow>
         (\<exists>c1. removeBookmark index (int (pos_line position)) book (bookmarksCtl st) = Inr c1 \<and>
               st1 = emit (CallRemoveBookmark index (int (pos_line position)))
                       (st\<lparr>bookmarksCtl := c1\<rparr>))" and
    norm: "\<not> 0 \<le> index \<longrightarrow> st1 = st" and
    ad: "addBookmark position lbl book (bookmarksCtl st1) = Inr c2" and
    jp: "jumpToPosition \<longrightarrow>
         (\<exists>wed. window_activeTextEditor st1 = Some wed \<and>
                st3 = emit (ShowTextDocument (document wed))
                        (emit (CallAddBookmark (pos_line position)) (st1\<lparr>bookmarksCtl := c2\<rparr>)))" and
    nojp: "\<not> jumpToPosition \<longrightarrow>
         st3 = emit (CallAddBookmark (pos_line position)) (st1\<lparr>bookmarksCtl := c2\<rparr>)" and
    so: "sortBookmarksOf (bookOrActive book (bookmarksCtl st3)) st3 = Inr st4" and
    sv: "saveWorkspaceState env st4 = Inr st5" and
    st': "st' = updateDecorations st5"
    by blast
  have s1: "(if 0 \<le> index
       then removeBookmark index (int (pos_line position)) book (bookmarksCtl st)
       else Inr (bookmarksCtl st)) = Inr (bookmarksCtl st1)"
    and f1: "activeEditor st1 = activeEditor st" "docs st1 = docs st"
    and t1: "\<exists>ev1. trace st1 = trace st @ ev1 \<and> filter isSave ev1 = []"
    and b1: "bookOrActive book (bookmarksCtl st1) = bookOrActive book (bookmarksCtl st)"
  proof -
    show "(if 0 \<le> index
       then removeBookmark index (int (pos_line position)) book (bookmarksCtl st)
       else Inr (bookmarksCtl st)) = Inr (bookmarksCtl st1)"
      using rm norm by (cases "0 \<le> index") (auto simp: emit_def)
    show "activeEditor st1 = activeEditor st" "docs st1 = docs st"
      using rm norm by (cases "0 \<le> index"; auto simp: emit_def)+
    show "\<exists>ev1. trace st1 = trace st @ ev1 \<and> filter isSave ev1 = []"
    proof (cases "0 \<le> index")
      case True
      with rm have "trace st1 = trace st @ [CallRemoveBookmark index (int (pos_line position))] \<and>
          filter isSave [CallRemoveBookmark index (int (pos_line position))] = []"
        by (auto simp: emit_def isSave_def)
      then show ?thesis by blast
    next
      case False
      with norm have "trace st1 = trace st @ [] \<and> filter isSave [] = []" by simp
      then show ?thesis by blast
    qed
    show "bookOrActive book (bookmarksCtl st1) = bookOrActive book (bookmarksCtl st)"
    proof (cases "0 \<le> index")
      case True
      with rm obtain c1 where c1: "removeBookmark index (int (pos_line position)) book (bookmarksCtl st) = Inr c1"
        "bookmarksCtl st1 = c1"
        by (auto simp: emit_def)
      from removeBookmark_Inr [OF c1(1)] c1(2) show ?thesis by auto
    next
      case False
      with norm show ?thesis by simp
    qed
  qed
  from t1 obtain ev1 where ev1: "trace st1 = trace st @ ev1" "filter isSave ev1 = []" by blast
  have s3: "bookmarksCtl st3 = c2" "activeEditor st3 = activeEditor st" "docs st3 = docs st"
    using jp nojp f1 by (cases jumpToPosition; auto simp: emit_def)+
  have "\<exists>ev3. trace st3 = trace st @ ev3 \<and> filter isSave ev3 = []"
  proof (cases jumpToPosition)
    case True
    with jp obtain doc where "trace st3 = trace st @
        (ev1 @ [CallAddBookmark (pos_line position), ShowTextDocument doc])"
      using ev1 by (auto simp: emit_def)
    moreover have "filter isSave
        (ev1 @ [CallAddBookmark (pos_line position), ShowTextDocument doc]) = []"
      using ev1(2) by (simp add: isSave_def)
    ultimately show ?thesis by blast
  next
    case False
    with nojp have "trace st3 = trace st @ (ev1 @ [CallAddBookmark (pos_line position)])"
      using ev1 by (auto simp: emit_def)
    moreover have "filter isSave (ev1 @ [CallAddBookmark (pos_line position)]) = []"
      using ev1(2) by (simp add: isSave_def)
    ultimately show ?thesis by blast
  qed
  then obtain ev3 where ev3: "trace st3 = trace st @ ev3" "filter isSave ev3 = []" by blast
  from sortBookmarksOf_Inr [OF so] obtain j where
    j: "bookOrActive book (bookmarksCtl st3) = Some j" and
    s4: "st4 = st3\<lparr>bookmarksCtl := sortedAt j (bookmarksCtl st3)\<rparr>"
    by (auto simp: sortedAt_def)
  from addBookmark_Inr [OF ad] have "bookOrActive book c2 = bookOrActive book (bookmarksCtl st1)"
    by auto
  with j s3(1) b1 have jb: "bookOrActive book (bookmarksCtl st) = Some j" by simp
  have c4: "bookmarksCtl st4 = sortedAt j c2" and t4: "trace st4 = trace st @ ev3"
    and e4: "activeEditor st4 = activeEditor st" and d4: "docs st4 = docs st"
    using s4 s3 ev3 by simp_all
  from savedThenDecorated_run [OF sv t4 ev3(2) e4 d4] st' c4
  have "savedThenDecorated env st st' (sortedAt j c2)" by simp
  with jb s1 ad show ?thesis by blast
qed

lemma savedThenDecorated_from:
  assumes "trace s = trace st" and "activeEditor s = activeEditor st" and "docs s = docs st"
  shows "savedThenDecorated env s st' c = savedThenDecorated env st st' c"
proof -
  have "bookmarksCtl (updateDecorations (s\<lparr>bookmarksCtl := c\<rparr>)) =
        bookmarksCtl (updateDecorations (st\<lparr>bookmarksCtl := c\<rparr>))"
    using assms by (intro updateDecorations_ctl_cong) simp_all
  then show ?thesis using assms(1) by (simp add: savedThenDecorated_def savedStore_def newEvents_def)
qed

lemma toggleLabeled_saves:
  assumes w: "window_activeTextEditor st = Some wed" and l: "lbl \<noteq> ''''"
    and r: "toggleLabeled env (Some lbl) st = Inr st'"
  shows "\<exists>f i c1 c2. activeFile (bookmarksCtl (ensureActiveBookmark env wed st)) = Some f \<and>
      activeBookmark (bookmarksCtl (ensureActiveBookmark env wed st)) = Some i \<and>
      (if 0 \<le> indexOfBookmark (bookmarks f) (Number (int (pos_line (selection_active wed))))
       then removeBookmark
              (indexOfBookmark (bookmarks f) (Number (int (pos_line (selection_active wed)))))
              (int (pos_line (selection_active wed))) None
              (bookmarksCtl (ensureActiveBookmark env wed st))
       else Inr (bookmarksCtl (ensureActiveBookmark env wed st))) = Inr c1 \<and>
      addBookmark (selection_active wed) lbl None c1 = Inr c2 \<and>
      savedThenDecorated env st st' (sortedAt i c2)"
proof -
  let ?s = "ensureActiveBookmark env wed st"
  let ?pos = "selection_active wed"
  obtain f where f: "activeFile (bookmarksCtl ?s) = Some f"
    using ensureActiveBookmark_active [of env wed st] by blast
  let ?k = "indexOfBookmark (bookmarks f) (Number (int (pos_line ?pos)))"
  from r w f obtain oldLabel jp where
    a: "askForBookmarkLabel env ?k ?pos oldLabel jp None (Some lbl) ?s = Inr st'"
    by (auto simp: toggleLabeled_def Let_def split: if_splits)
  from l have "\<not> (lbl = '''' \<and> (oldLabel = Some '''' \<or> jp))" by simp
  from askForBookmarkLabel_saves [OF this a] obtain j c1 c2 where
    j: "bookOrActive None (bookmarksCtl ?s) = Some j" and
    c1: "(if 0 \<le> ?k then removeBookmark ?k (int (pos_line ?pos)) None (bookmarksCtl ?s)
          else Inr (bookmarksCtl ?s)) = Inr c1" and
    c2: "addBookmark ?pos lbl None c1 = Inr c2" and
    sd: "savedThenDecorated env ?s st' (sortedAt j c2)"
    by blast
  from sd have "savedThenDecorated env st st' (sortedAt j c2)"
    using savedThenDecorated_from [of ?s st env st' "sortedAt j c2"]
    by (simp add: ensureActiveBookmark_frame)
  with f j c1 c2 show ?thesis by auto
qed

lemma textChange_saves:
  assumes nw: "\<not> useWorkaroundForFormatters st" and e: "activeEditor st = Some ed"
    and d: "ev_document ev = document ed" and u: "fst (callSticky env ev ed st)"
    and r: "onDidChangeTextDocument env ev st = Inr st'"
  shows "\<exists>i f. activeBookmark (bookmarksCtl st) = Some i \<and>
      activeFile (bookmarksCtl st) = Some f \<and>
      bookmarksCtl st' =
        bookmarksCtl (updateDecorations
          (st\<lparr>bookmarksCtl :=
                setBookmarks i
                  (snd (stickyBookmarks env ev (activeEditorCountLine st) (bookmarks f) ed
                          (docs st (document ed))))
                  (bookmarksCtl st)\<rparr>)) \<and>
      savedStore env st st' (bookmarksCtl st') \<and>
      last (newEvents st st') = SaveWorkspaceState (bookmarksCtl st')"
proof -
  from u obtain i f where i: "activeBookmark (bookmarksCtl st) = Some i"
    and f: "activeFile (bookmarksCtl st) = Some f" and ne: "bookmarks f \<noteq> []"
    by (auto simp: callSticky_def split: option.splits if_splits)
  let ?bs = "snd (stickyBookmarks env ev (activeEditorCountLine st) (bookmarks f) ed
                    (docs st (document ed)))"
  let ?st1 = "emit (CallStickyBookmarks (activeEditorCountLine st))
                (st\<lparr>bookmarksCtl := setBookmarks i ?bs (bookmarksCtl st)\<rparr>)"
  have cs: "callSticky env ev ed st = (True, ?st1)"
    using u i f ne by (simp add: callSticky_def split_beta Let_def)
  let ?s3 = "updateDecorations (?st1\<lparr>activeEditorCountLine := Some (lineCount ?st1 (ev_document ev))\<rparr>)"
  from nw e d cs r have sv: "saveWorkspaceState env ?s3 = Inr st'"
    by (simp add: onDidChangeTextDocument_def Let_def)
  have c3: "bookmarksCtl ?s3 =
      bookmarksCtl (updateDecorations (st\<lparr>bookmarksCtl := setBookmarks i ?bs (bookmarksCtl st)\<rparr>))"
    by (intro updateDecorations_ctl_cong) (simp_all add: emit_def)
  obtain ds where ds: "trace ?s3 = trace ?st1 @ ds" "list_all isSetDecorations ds"
    using updateDecorations_trace
      [of "?st1\<lparr>activeEditorCountLine := Some (lineCount ?st1 (ev_document ev))\<rparr>"] by auto
  have t3: "trace ?s3 = trace st @ (CallStickyBookmarks (activeEditorCountLine st) # ds)"
    using ds(1) by (simp add: emit_def)
  have fr: "bookmarksCtl st' = bookmarksCtl ?s3"
    "trace st' = trace ?s3 @ [SaveWorkspaceState (bookmarksCtl ?s3)]"
    using saveWorkspaceState_frame [OF sv] by simp_all
  have ev: "newEvents st st' =
      (CallStickyBookmarks (activeEditorCountLine st) # ds) @ [SaveWorkspaceState (bookmarksCtl st')] @ []"
    using fr t3 by (simp add: newEvents_def)
  have ns: "filter isSave (CallStickyBookmarks (activeEditorCountLine st) # ds) = []"
    using filter_isSave_decorations [OF ds(2)] by (simp add: isSave_def)
  have p: "persisted env (bookmarksCtl st') st'"
    using saveWorkspaceState_persisted [OF sv] fr(1) by simp
  have "savedStore env st st' (bookmarksCtl st')"
    using savedStoreI [OF ev ns _ p] by simp
  moreover have "last (newEvents st st') = SaveWorkspaceState (bookmarksCtl st')"
    using ev by simp
  ultimately show ?thesis using i f fr(1) c3 by auto
qed

text \<open>
  C8. Each handler that changes the bookmarks calls \<^verbatim>\<open>saveWorkspaceState\<close> once, after
  the change and before it completes, and the controller it saves is the one after
  the change: for \<^verbatim>\<open>toggle\<close> the result of the core's add or remove, sorted; for
  \<^verbatim>\<open>toggleLabeled\<close> and the callback of \<^verbatim>\<open>askForBookmarkLabel\<close> when they add, the
  result of the removal (if an index was given) and the add, sorted; for
  \<^verbatim>\<open>deleteBookmark\<close> the result of the removal; for \<^verbatim>\<open>clear\<close> and
  \<^verbatim>\<open>clearFromAllFiles\<close> the cleared controller. The persistent storage of the state
  the handler leaves holds that controller, and the controller of that state is what
  the decoration pass, run after the save, makes of it. The text-change handler, when the
  adjuster reports an update, saves last: the controller it saves is the one it leaves,
  which is what the decoration pass makes of the adjusted bookmarks.
\<close>

theorem mutating_handlers_save:
  "(window_activeTextEditor st = Some wed \<and> toggle env st = Inr st1 \<longrightarrow>
      (\<exists>f i c. activeFile (bookmarksCtl (ensureActiveBookmark env wed st)) = Some f \<and>
         activeBookmark (bookmarksCtl (ensureActiveBookmark env wed st)) = Some i \<and>
         (if indexOfBookmark (bookmarks f) (Number (int (pos_line (selection_active wed)))) < 0
          then addBookmark (selection_active wed) '''' None
                 (bookmarksCtl (ensureActiveBookmark env wed st))
          else removeBookmark
                 (indexOfBookmark (bookmarks f) (Number (int (pos_line (selection_active wed)))))
                 (int (pos_line (selection_active wed))) None
                 (bookmarksCtl (ensureActiveBookmark env wed st))) = Inr c \<and>
         savedThenDecorated env st st1 (sortedAt i c))) \<and>
   (window_activeTextEditor st = Some wed \<and> lbl \<noteq> '''' \<and>
    toggleLabeled env (Some lbl) st = Inr st2 \<longrightarrow>
      (\<exists>f i c1 c2. activeFile (bookmarksCtl (ensureActiveBookmark env wed st)) = Some f \<and>
         activeBookmark (bookmarksCtl (ensureActiveBookmark env wed st)) = Some i \<and>
         (if 0 \<le> indexOfBookmark (bookmarks f) (Number (int (pos_line (selection_active wed))))
          then removeBookmark
                 (indexOfBookmark (bookmarks f) (Number (int (pos_line (selection_active wed)))))
                 (int (pos_line (selection_active wed))) None
                 (bookmarksCtl (ensureActiveBookmark env wed st))
          else Inr (bookmarksCtl (ensureActiveBookmark env wed st))) = Inr c1 \<and>
         addBookmark (selection_active wed) lbl None c1 = Inr c2 \<and>
         savedThenDecorated env st st2 (sortedAt i c2))) \<and>
   (\<not> (lbl' = '''' \<and> (oldLabel = Some '''' \<or> jumpToPosition)) \<and>
    askForBookmarkLabel env index position oldLabel jumpToPosition book (Some lbl') st = Inr st3
    \<longrightarrow>
      (\<exists>j c1 c2. bookOrActive book (bookmarksCtl st) = Some j \<and>
         (if 0 \<le> index
          then removeBookmark index (int (pos_line position)) book (bookmarksCtl st)
          else Inr (bookmarksCtl st)) = Inr c1 \<and>
         addBookmark position lbl' book c1 = Inr c2 \<and>
         savedThenDecorated env st st3 (sortedAt j c2))) \<and>
   (deleteBookmark env arg0 arg1 st = Inr st4 \<longrightarrow>
      (\<exists>b f c. fromUri env arg0 (bookmarksCtl st) = Some b \<and>
         fileAt (bookmarksCtl st) b = Some f \<and>
         removeBookmark (indexOfBookmark (bookmarks f) (Number (arg1 - 1))) (arg1 - 1)
           (Some b) (bookmarksCtl st) = Inr c \<and>
         savedThenDecorated env st st4 c)) \<and>
   (window_activeTextEditor st = Some wed \<and> clear env st = Inr st5 \<longrightarrow>
      (\<exists>c. bookmarks_clear None (bookmarksCtl st) = Inr c \<and> savedThenDecorated env st st5 c)) \<and>
   (clearFromAllFiles env st = Inr st6 \<longrightarrow>
      savedThenDecorated env st st6 (clearAll (bookmarksCtl st))) \<and>
   (\<not> useWorkaroundForFormatters st \<and> activeEditor st = Some ed \<and>
    ev_document ev = document ed \<and> fst (callSticky env ev ed st) \<and>
    onDidChangeTextDocument env ev st = Inr st7 \<longrightarrow>
      (\<exists>i f. activeBookmark (bookmarksCtl st) = Some i \<and>
         activeFile (bookmarksCtl st) = Some f \<and>
         bookmarksCtl st7 =
           bookmarksCtl (updateDecorations
             (st\<lparr>bookmarksCtl :=
                   setBookmarks i
                     (snd (stickyBookmarks env ev (activeEditorCountLine st) (bookmarks f) ed
                             (docs st (document ed))))
                     (bookmarksCtl st)\<rparr>)) \<and>
         savedStore env st st7 (bookmarksCtl st7) \<and>
         last (newEvents st st7) = SaveWorkspaceState (bookmarksCtl st7)))"
proof (intro conjI impI)
  show "\<exists>f i c. activeFile (bookmarksCtl (ensureActiveBookmark env wed st)) = Some f \<and>
         activeBookmark (bookmarksCtl (ensureActiveBookmark env wed st)) = Some i \<and>
         (if indexOfBookmark (bookmarks f) (Number (int (pos_line (selection_active wed)))) < 0
          then addBookmark (selection_active wed) '''' None
                 (bookmarksCtl (ensureActiveBookmark env wed st))
          else removeBookmark
                 (indexOfBookmark (bookmarks f) (Number (int (pos_line (selection_active wed)))))
                 (int (pos_line (selection_active wed))) None
                 (bookmarksCtl (ensureActiveBookmark env wed st))) = Inr c \<and>
         savedThenDecorated env st st1 (sortedAt i c)"
    if h: "window_activeTextEditor st = Some wed \<and> toggle env st = Inr st1"
    using toggle_saves [of st wed env st1] h by simp
  show "\<exists>f i c1 c2. activeFile (bookmarksCtl (ensureActiveBookmark env wed st)) = Some f \<and>
         activeBookmark (bookmarksCtl (ensureActiveBookmark env wed st)) = Some i \<and>
         (if 0 \<le> indexOfBookmark (bookmarks f) (Number (int (pos_line (selection_active wed))))
          then removeBookmark
                 (indexOfBookmark (bookmarks f) (Number (int (pos_line (selection_active wed)))))
                 (int (pos_line (selection_active wed))) None
                 (bookmarksCtl (ensureActiveBookmark env wed st))
          else Inr (bookmarksCtl (ensureActiveBookmark env wed st))) = Inr c1 \<and>
         addBookmark (selection_active wed) lbl None c1 = Inr c2 \<and>
         savedThenDecorated env st st2 (sortedAt i c2)"
    if h: "window_activeTextEditor st = Some wed \<and> lbl \<noteq> '''' \<and>
        toggleLabeled env (Some lbl) st = Inr st2"
    using toggleLabeled_saves [of st wed lbl env st2] h by simp
  show "\<exists>j c1 c2. bookOrActive book (bookmarksCtl st) = Some j \<and>
         (if 0 \<le> index
          then removeBookmark index (int (pos_line position)) book (bookmarksCtl st)
          else Inr (bookmarksCtl st)) = Inr c1 \<and>
         addBookmark position lbl' book c1 = Inr c2 \<and>
         savedThenDecorated env st st3 (sortedAt j c2)"
    if h: "\<not> (lbl' = '''' \<and> (oldLabel = Some '''' \<or> jumpToPosition)) \<and>
        askForBookmarkLabel env index position oldLabel jumpToPosition book (Some lbl') st = Inr st3"
    using askForBookmarkLabel_saves [of lbl' oldLabel jumpToPosition env index position book st st3] h
    by simp
  show "\<exists>b f c. fromUri env arg0 (bookmarksCtl st) = Some b \<and>
         fileAt (bookmarksCtl st) b = Some f \<and>
         removeBookmark (indexOfBookmark (bookmarks f) (Number (arg1 - 1))) (arg1 - 1)
           (Some b) (bookmarksCtl st) = Inr c \<and>
         savedThenDecorated env st st4 c"
    if "deleteBookmark env arg0 arg1 st = Inr st4"
    using that by (rule deleteBookmark_saves)
  show "\<exists>c. bookmarks_clear None (bookmarksCtl st) = Inr c \<and> savedThenDecorated env st st5 c"
    if h: "window_activeTextEditor st = Some wed \<and> clear env st = Inr st5"
    using clear_saves [of st wed env st5] h by simp
  show "savedThenDecorated env st st6 (clearAll (bookmarksCtl st))"
    if "clearFromAllFiles env st = Inr st6"
    using that by (rule clearFromAllFiles_saves)
  show "\<exists>i f. activeBookmark (bookmarksCtl st) = Some i \<and>
         activeFile (bookmarksCtl st) = Some f \<and>
         bookmarksCtl st7 =
           bookmarksCtl (updateDecorations
             (st\<lparr>bookmarksCtl :=
                   setBookmarks i
                     (snd (stickyBookmarks env ev (activeEditorCountLine st) (bookmarks f) ed
                             (docs st (document ed))))
                     (bookmarksCtl st)\<rparr>)) \<and>
         savedStore env st st7 (bookmarksCtl st7) \<and>
         last (newEvents st st7) = SaveWorkspaceState (bookmarksCtl st7)"
    if h: "\<not> useWorkaroundForFormatters st \<and> activeEditor st = Some ed \<and>
        ev_document ev = document ed \<and> fst (callSticky env ev ed st) \<and>
        onDidChangeTextDocument env ev st = Inr st7"
    using textChange_saves [of st ed ev env st7] h by simp
qed

lemma handlers_example_run:
  "\<exists>st1. toggle stickyEnv (exampleState [mark 2, mark 5] fiveLines 3) = Inr st1"
  "\<exists>st2. toggleLabeled stickyEnv (Some ''todo'') (exampleState [mark 2, mark 5] fiveLines 3) = Inr st2"
  "\<exists>st3. askForBookmarkLabel stickyEnv 0 \<lparr>pos_line = 2, character = 0\<rparr> (Some '''') False None
           (Some ''todo'') (exampleState [mark 2, mark 5] fiveLines 3) = Inr st3"
  "\<exists>st4. deleteBookmark stickyEnv ''/a.txt'' 3 (exampleState [mark 2, mark 5] fiveLines 3) = Inr st4"
  "\<exists>st5. clear stickyEnv (exampleState [mark 2, mark 5] fiveLines 3) = Inr st5"
  "\<exists>st6. clearFromAllFiles stickyEnv (exampleState [mark 2, mark 5] fiveLines 3) = Inr st6"
  "\<exists>st7. onDidChangeTextDocument stickyEnv exampleEvent
           (exampleState [mark 2, mark 5] fiveLines 3) = Inr st7"
  by (simp_all add: toggle_def toggleLabeled_def askForBookmarkLabel_def deleteBookmark_def
      clear_def clearFromAllFiles_def onDidChangeTextDocument_def callSticky_def
      stickyEnv_def exampleEvent_def
      exampleState_def exampleEnv_def exampleEditor_def mark_def
      ensureActiveBookmark_def activeFile_def addBookmark_def removeBookmark_def
      bookmarks_clear_def clearAll_def fromUri_def fileAt_def
      sortBookmarksOf_def emit_def setBookmarks_def saveWorkspaceState_def
      canSaveBookmarksInProject_def updateDecorations_frame Let_def)

theorem mutating_handlers_save_witness:
  "window_activeTextEditor (exampleState [mark 2, mark 5] fiveLines 3) = Some (exampleEditor 3) \<and>
   (\<exists>st1. toggle stickyEnv (exampleState [mark 2, mark 5] fiveLines 3) = Inr st1 \<and>
      savedThenDecorated stickyEnv (exampleState [mark 2, mark 5] fiveLines 3) st1
        \<lparr>fileList = [\<lparr>path = ''/a.txt'', bookmarks = [mark 2, mark 3, mark 5]\<rparr>],
           activeBookmark = Some 0\<rparr>) \<and>
   (\<exists>st2. toggleLabeled stickyEnv (Some ''todo'') (exampleState [mark 2, mark 5] fiveLines 3) = Inr st2 \<and>
      savedThenDecorated stickyEnv (exampleState [mark 2, mark 5] fiveLines 3) st2
        \<lparr>fileList = [\<lparr>path = ''/a.txt'',
                        bookmarks = [mark 2, \<lparr>line = 3, column = 0, label = ''todo''\<rparr>, mark 5]\<rparr>],
           activeBookmark = Some 0\<rparr>) \<and>
   (\<exists>st3. askForBookmarkLabel stickyEnv 0 \<lparr>pos_line = 2, character = 0\<rparr> (Some '''') False None
           (Some ''todo'') (exampleState [mark 2, mark 5] fiveLines 3) = Inr st3 \<and>
      savedThenDecorated stickyEnv (exampleState [mark 2, mark 5] fiveLines 3) st3
        \<lparr>fileList = [\<lparr>path = ''/a.txt'',
                        bookmarks = [\<lparr>line = 2, column = 0, label = ''todo''\<rparr>, mark 5]\<rparr>],
           activeBookmark = Some 0\<rparr>) \<and>
   (\<exists>st4. deleteBookmark stickyEnv ''/a.txt'' 3 (exampleState [mark 2, mark 5] fiveLines 3) = Inr st4 \<and>
      savedThenDecorated stickyEnv (exampleState [mark 2, mark 5] fiveLines 3) st4
        \<lparr>fileList = [\<lparr>path = ''/a.txt'', bookmarks = [mark 5]\<rparr>], activeBookmark = Some 0\<rparr>) \<and>
   (\<exists>st5. clear stickyEnv (exampleState [mark 2, mark 5] fiveLines 3) = Inr st5 \<and>
      savedThenDecorated stickyEnv (exampleState [mark 2, mark 5] fiveLines 3) st5
        \<lparr>fileList = [\<lparr>path = ''/a.txt'', bookmarks = []\<rparr>], activeBookmark = Some 0\<rparr>) \<and>
   (\<exists>st6. clearFromAllFiles stickyEnv (exampleState [mark 2, mark 5] fiveLines 3) = Inr st6 \<and>
      savedThenDecorated stickyEnv (exampleState [mark 2, mark 5] fiveLines 3) st6
        \<lparr>fileList = [\<lparr>path = ''/a.txt'', bookmarks = []\<rparr>], activeBookmark = Some 0\<rparr>) \<and>
   \<not> useWorkaroundForFormatters (exampleState [mark 2, mark 5] fiveLines 3) \<and>
   activeEditor (exampleState [mark 2, mark 5] fiveLines 3) = Some (exampleEditor 3) \<and>
   ev_document exampleEvent = document (exampleEditor 3) \<and>
   fst (callSticky stickyEnv exampleEvent (exampleEditor 3)
          (exampleState [mark 2, mark 5] fiveLines 3)) \<and>
   (\<exists>st7. onDidChangeTextDocument stickyEnv exampleEvent
           (exampleState [mark 2, mark 5] fiveLines 3) = Inr st7 \<and>
      bookmarksCtl st7 =
        \<lparr>fileList = [\<lparr>path = ''/a.txt'', bookmarks = [mark 3]\<rparr>], activeBookmark = Some 0\<rparr> \<and>
      savedStore stickyEnv (exampleState [mark 2, mark 5] fiveLines 3) st7
        \<lparr>fileList = [\<lparr>path = ''/a.txt'', bookmarks = [mark 3]\<rparr>], activeBookmark = Some 0\<rparr>)"
proof -
  let ?S = "exampleState [mark 2, mark 5] fiveLines 3"
  let ?pos = "\<lparr>pos_line = 2, character = 0\<rparr>"
  have w: "window_activeTextEditor ?S = Some (exampleEditor 3)"
    and nw: "\<not> useWorkaroundForFormatters ?S"
    and e: "activeEditor ?S = Some (exampleEditor 3)"
    by (simp_all add: exampleState_def)
  have d: "ev_document exampleEvent = document (exampleEditor 3)"
    by (simp add: exampleEvent_def exampleEditor_def)
  have u: "fst (callSticky stickyEnv exampleEvent (exampleEditor 3) ?S)"
    by (simp add: callSticky_def stickyEnv_def exampleEnv_def exampleState_def activeFile_def)
  have l: "''todo'' \<noteq> ''''" "\<not> (''todo'' = '''' \<and> (Some '''' = Some '''' \<or> False))"
    by simp_all
  obtain st1 where r1: "toggle stickyEnv ?S = Inr st1" using handlers_example_run(1) by blast
  obtain st2 where r2: "toggleLabeled stickyEnv (Some ''todo'') ?S = Inr st2"
    using handlers_example_run(2) by blast
  obtain st3 where r3: "askForBookmarkLabel stickyEnv 0 ?pos (Some '''') False None
           (Some ''todo'') ?S = Inr st3"
    using handlers_example_run(3) by blast
  obtain st4 where r4: "deleteBookmark stickyEnv ''/a.txt'' 3 ?S = Inr st4"
    using handlers_example_run(4) by blast
  obtain st5 where r5: "clear stickyEnv ?S = Inr st5" using handlers_example_run(5) by blast
  obtain st6 where r6: "clearFromAllFiles stickyEnv ?S = Inr st6"
    using handlers_example_run(6) by blast
  obtain st7 where r7: "onDidChangeTextDocument stickyEnv exampleEvent ?S = Inr st7"
    using handlers_example_run(7) by blast
  note inst = mutating_handlers_save
    [of ?S "exampleEditor 3" stickyEnv st1 "''todo''" st2 "''todo''" "Some ''''" False 0 ?pos None
        st3 "''/a.txt''" 3 st4 st5 st6 "exampleEditor 3" exampleEvent st7]
  have en: "ensureActiveBookmark stickyEnv (exampleEditor 3) (exampleState bs ls cur) =
              exampleState bs ls cur" for bs ls cur
    by (simp add: ensureActiveBookmark_def activeFile_def exampleState_def)
  have cS: "bookmarksCtl (exampleState bs ls cur) =
      \<lparr>fileList = [\<lparr>path = ''/a.txt'', bookmarks = bs\<rparr>], activeBookmark = Some 0\<rparr>"
    for bs ls cur
    by (simp add: exampleState_def)
  have sel: "selection_active (exampleEditor 3) = \<lparr>pos_line = 3, character = 0\<rparr>"
    by (simp add: exampleEditor_def)
  from inst [THEN conjunct1] w r1
  have t1: "savedThenDecorated stickyEnv ?S st1
        \<lparr>fileList = [\<lparr>path = ''/a.txt'', bookmarks = [mark 2, mark 3, mark 5]\<rparr>],
           activeBookmark = Some 0\<rparr>"
    by (auto simp: en cS sel activeFile_def addBookmark_def sortedAt_def setBookmarks_def
        sortByLine_def mark_def)
  from inst [THEN conjunct2, THEN conjunct1] w l(1) r2
  have t2: "savedThenDecorated stickyEnv ?S st2
        \<lparr>fileList = [\<lparr>path = ''/a.txt'',
                        bookmarks = [mark 2, \<lparr>line = 3, column = 0, label = ''todo''\<rparr>, mark 5]\<rparr>],
           activeBookmark = Some 0\<rparr>"
    by (auto simp: en cS sel activeFile_def addBookmark_def sortedAt_def setBookmarks_def
        sortByLine_def mark_def)
  from inst [THEN conjunct2, THEN conjunct2, THEN conjunct1] l(2) r3
  have t3: "savedThenDecorated stickyEnv ?S st3
        \<lparr>fileList = [\<lparr>path = ''/a.txt'',
                        bookmarks = [\<lparr>line = 2, column = 0, label = ''todo''\<rparr>, mark 5]\<rparr>],
           activeBookmark = Some 0\<rparr>"
    by (auto simp: cS removeBookmark_def addBookmark_def sortedAt_def setBookmarks_def
        sortByLine_def mark_def)
  from inst [THEN conjunct2, THEN conjunct2, THEN conjunct2, THEN conjunct1] r4
  have t4: "savedThenDecorated stickyEnv ?S st4
        \<lparr>fileList = [\<lparr>path = ''/a.txt'', bookmarks = [mark 5]\<rparr>], activeBookmark = Some 0\<rparr>"
    by (auto simp: cS fromUri_def stickyEnv_def exampleEnv_def fileAt_def removeBookmark_def
        setBookmarks_def mark_def split: if_splits)
  from inst [THEN conjunct2, THEN conjunct2, THEN conjunct2, THEN conjunct2, THEN conjunct1] w r5
  have t5: "savedThenDecorated stickyEnv ?S st5
        \<lparr>fileList = [\<lparr>path = ''/a.txt'', bookmarks = []\<rparr>], activeBookmark = Some 0\<rparr>"
    by (auto simp: cS bookmarks_clear_def setBookmarks_def)
  from inst [THEN conjunct2, THEN conjunct2, THEN conjunct2, THEN conjunct2, THEN conjunct2,
             THEN conjunct1] r6
  have t6: "savedThenDecorated stickyEnv ?S st6
        \<lparr>fileList = [\<lparr>path = ''/a.txt'', bookmarks = []\<rparr>], activeBookmark = Some 0\<rparr>"
    by (simp add: cS clearAll_def)
  from inst [THEN conjunct2, THEN conjunct2, THEN conjunct2, THEN conjunct2, THEN conjunct2,
             THEN conjunct2] nw e d u r7
  have t7: "bookmarksCtl st7 =
        \<lparr>fileList = [\<lparr>path = ''/a.txt'', bookmarks = [mark 3]\<rparr>], activeBookmark = Some 0\<rparr> \<and>
      savedStore stickyEnv ?S st7
        \<lparr>fileList = [\<lparr>path = ''/a.txt'', bookmarks = [mark 3]\<rparr>], activeBookmark = Some 0\<rparr>"
    by (auto simp: exampleState_def stickyEnv_def exampleEnv_def exampleEditor_def activeFile_def
        updateDecorations_def setBookmarks_def emit_def lineCount_def lineAt_def fiveLines_def
        splice_last mark_def Let_def)
  from w nw e d u r1 r2 r3 r4 r5 r6 r7 t1 t2 t3 t4 t5 t6 t7 show ?thesis by blast
qed

section \<open>Jumping between bookmarks\<close>

lemma checkBookmarks_cases:
  "checkBookmarks env v st =
     (if v = JSNumber (NO_BOOKMARKS_BEFORE env) \<or> v = JSNumber (NO_BOOKMARKS_AFTER env)
      then (False, emit (ShowInformationMessage ''No more bookmarks'') st) else (True, st))"
  by (simp add: checkBookmarks_def)

lemma revealPosition_run:
  assumes "window_activeTextEditor st = Some wed"
  shows "revealPosition ln (Some cl) st =
     Inr (emit (RevealRange ln cl (if ln = pos_line (selection_active wed)
                                   then InCenterIfOutsideViewport else InCenter))
            (st\<lparr>window_activeTextEditor :=
                  Some (wed\<lparr>selection_active := \<lparr>pos_line = ln, character = cl\<rparr>\<rparr>)\<rparr>))"
  using assms by (simp add: revealPosition_def Let_def)

lemma gotoNextDocument_other:
  assumes w: "window_activeTextEditor st = Some wed"
    and p: "p \<noteq> normalize env (document wed)"
    and o: "openTextDocument env p = Some d"
    and j: "findFile (normalize env d) (fileList (bookmarksCtl st)) = Some j"
    and b: "bookmarks (fileList (bookmarksCtl st) ! j) = b # bs"
  shows "\<exists>t st'. gotoNextDocument env dir (DocPath p) st = Inr st' \<and>
      trace st' = trace st @
        [ShowTextDocument d,
         RevealRange (line (case dir of Forward \<Rightarrow> b | Backward \<Rightarrow> last (b # bs)))
           (column (case dir of Forward \<Rightarrow> b | Backward \<Rightarrow> last (b # bs))) t] \<and>
      activeBookmark (bookmarksCtl st') = Some j \<and>
      fileList (bookmarksCtl st') = fileList (bookmarksCtl st) \<and>
      map_option document (window_activeTextEditor st') = Some d"
proof -
  from findFile_Some [OF j] have jl: "j < length (fileList (bookmarksCtl st))" by simp
  let ?s1 = "showTextDocument env d (onDidOpenTextDocument env d st)"
  have add: "bookmarks_add env d (bookmarksCtl st) = bookmarksCtl st"
    using j by (simp add: bookmarks_add_def Let_def)
  have s1: "bookmarksCtl ?s1 = (bookmarksCtl st)\<lparr>activeBookmark := Some j\<rparr>"
    "trace ?s1 = trace st @ [ShowTextDocument d]"
    "window_activeTextEditor ?s1 = Some \<lparr>document = d, selection_active = hostSelection env d\<rparr>"
    using j add
    by (simp_all add: showTextDocument_def onDidOpenTextDocument_def
        onDidChangeActiveTextEditor_def Let_def setActiveBookmark_def fromUri_def
        triggerUpdateDecorations_def emit_def)
  have af: "activeFile (bookmarksCtl ?s1) = Some (fileList (bookmarksCtl st) ! j)"
    using s1(1) jl by (simp add: activeFile_def)
  let ?target = "case dir of Forward \<Rightarrow> b | Backward \<Rightarrow> last (b # bs)"
  have "revealActiveBookmark dir ?s1 = revealPosition (line ?target) (Some (column ?target)) ?s1"
    using af b by (simp add: revealActiveBookmark_def Let_def)
  also have "\<dots> = Inr (emit (RevealRange (line ?target) (column ?target)
                 (if line ?target = pos_line (selection_active
                       \<lparr>document = d, selection_active = hostSelection env d\<rparr>)
                  then InCenterIfOutsideViewport else InCenter))
            (?s1\<lparr>window_activeTextEditor :=
                  Some (\<lparr>document = d, selection_active = hostSelection env d\<rparr>
                          \<lparr>selection_active :=
                             \<lparr>pos_line = line ?target, character = column ?target\<rparr>\<rparr>)\<rparr>))"
    (is "_ = Inr ?s2")
    by (rule revealPosition_run [OF s1(3)])
  finally have r: "revealActiveBookmark dir ?s1 = Inr ?s2" .
  have g: "gotoNextDocument env dir (DocPath p) st = Inr ?s2"
    using w p o r by (simp add: gotoNextDocument_def Let_def)
  have "trace ?s2 = trace st @ [ShowTextDocument d,
         RevealRange (line ?target) (column ?target)
           (if line ?target = pos_line (selection_active
                       \<lparr>document = d, selection_active = hostSelection env d\<rparr>)
                  then InCenterIfOutsideViewport else InCenter)]"
    using s1(2) by (simp add: emit_def)
  moreover have "activeBookmark (bookmarksCtl ?s2) = Some j"
    "fileList (bookmarksCtl ?s2) = fileList (bookmarksCtl st)"
    "map_option document (window_activeTextEditor ?s2) = Some d"
    using s1(1) by (simp_all add: emit_def)
  ultimately show ?thesis using g by blast
qed

lemma jumpToNext_found:
  assumes "window_activeTextEditor st = Some wed" and "activeFile (bookmarksCtl st) = Some f"
    and "nextBookmark env (bookmarks f) (selection_active wed) Forward = Inr (NavPosition p)"
  shows "newEvents st (jumpToNext env st) =
     [CallNextBookmark Forward,
      RevealRange (pos_line p) (character p)
        (if pos_line p = pos_line (selection_active wed)
         then InCenterIfOutsideViewport else InCenter)]"
  using assms
  by (simp add: jumpToNext_def Let_def revealPosition_def emit_def newEvents_def)

lemma jumpToPrevious_found:
  assumes "window_activeTextEditor st = Some wed" and "activeFile (bookmarksCtl st) = Some f"
    and "nextBookmark env (bookmarks f) (selection_active wed) Backward = Inr (NavPosition p)"
  shows "newEvents st (jumpToPrevious env st) =
     [CallNextBookmark Backward,
      RevealRange (pos_line p) (character p)
        (if pos_line p = pos_line (selection_active wed)
         then InCenterIfOutsideViewport else InCenter)]"
  using assms
  by (simp add: jumpToPrevious_def Let_def revealPosition_def emit_def newEvents_def
      checkBookmarks_def)

lemma jumpToNext_rejected:
  assumes "window_activeTextEditor st = Some wed" and "activeFile (bookmarksCtl st) = Some f"
    and "nextBookmark env (bookmarks f) (selection_active wed) Forward = Inl reason"
  shows "newEvents st (jumpToNext env st) =
     [CallNextBookmark Forward,
      ConsoleLog (''activeBookmark.nextBookmark REJECT'' @ valueToString reason)]"
  using assms by (simp add: jumpToNext_def Let_def logReject_def emit_def newEvents_def)

lemma jumpToPrevious_rejected:
  assumes "window_activeTextEditor st = Some wed" and "activeFile (bookmarksCtl st) = Some f"
    and "nextBookmark env (bookmarks f) (selection_active wed) Backward = Inl reason"
  shows "newEvents st (jumpToPrevious env st) =
     [CallNextBookmark Backward,
      ConsoleLog (''activeBookmark.nextBookmark REJECT'' @ valueToString reason)]"
  using assms by (simp add: jumpToPrevious_def Let_def logReject_def emit_def newEvents_def)

lemma jumpToNext_within_sentinel:
  assumes "window_activeTextEditor st = Some wed" and "activeFile (bookmarksCtl st) = Some f"
    and "nextBookmark env (bookmarks f) (selection_active wed) Forward = Inr (NavNumber n)"
    and "n = NO_BOOKMARKS_BEFORE env \<or> n = NO_BOOKMARKS_AFTER env"
  shows "newEvents st (jumpToNext env st) =
     [CallNextBookmark Forward, ShowInformationMessage ''No more bookmarks'']"
  using assms
  by (auto simp: jumpToNext_def Let_def checkBookmarks_def emit_def newEvents_def)

lemma jumpToPrevious_within_sentinel:
  assumes "window_activeTextEditor st = Some wed" and "activeFile (bookmarksCtl st) = Some f"
    and "nextBookmark env (bookmarks f) (selection_active wed) Backward = Inr (NavNumber n)"
    and "n = NO_BOOKMARKS_BEFORE env \<or> n = NO_BOOKMARKS_AFTER env"
  shows "newEvents st (jumpToPrevious env st) =
     [CallNextBookmark Backward, ShowInformationMessage ''No more bookmarks'']"
  using assms
  by (auto simp: jumpToPrevious_def Let_def checkBookmarks_def emit_def newEvents_def)

lemma jumpToNext_consults:
  assumes "window_activeTextEditor st = Some wed" and "activeFile (bookmarksCtl st) = Some f"
    and "nextBookmark env (bookmarks f) (selection_active wed) Forward = Inr (NavNumber n)"
    and "n \<noteq> NO_BOOKMARKS_BEFORE env" and "n \<noteq> NO_BOOKMARKS_AFTER env"
  shows "jumpToNext env st = consultNextDocument env Forward (emit (CallNextBookmark Forward) st)"
  using assms by (simp add: jumpToNext_def Let_def checkBookmarks_def)

lemma jumpToPrevious_consults:
  assumes "window_activeTextEditor st = Some wed" and "activeFile (bookmarksCtl st) = Some f"
    and "nextBookmark env (bookmarks f) (selection_active wed) Backward = Inr (NavNumber n)"
    and "n \<noteq> NO_BOOKMARKS_BEFORE env" and "n \<noteq> NO_BOOKMARKS_AFTER env"
  shows "jumpToPrevious env st =
           consultNextDocument env Backward (emit (CallNextBookmark Backward) st)"
  using assms by (simp add: jumpToPrevious_def Let_def checkBookmarks_def)

lemma consultNextDocument_no_more:
  assumes "nextDocumentWithBookmarks env (bookmarksCtl st) dir = Inr (DocNumber (NO_MORE_BOOKMARKS env))"
  shows "consultNextDocument env dir st = emit (CallNextDocumentWithBookmarks dir) st"
  using assms by (simp add: consultNextDocument_def Let_def gotoNextDocument_def)

lemma consultNextDocument_other:
  assumes w: "window_activeTextEditor st = Some wed"
    and n: "nextDocumentWithBookmarks env (bookmarksCtl st) dir = Inr (DocPath p)"
    and p: "p \<noteq> normalize env (document wed)"
    and o: "openTextDocument env p = Some d"
    and j: "findFile (normalize env d) (fileList (bookmarksCtl st)) = Some j"
    and b: "bookmarks (fileList (bookmarksCtl st) ! j) = b # bs"
  shows "\<exists>t. trace (consultNextDocument env dir st) = trace st @
        [CallNextDocumentWithBookmarks dir, ShowTextDocument d,
         RevealRange (line (case dir of Forward \<Rightarrow> b | Backward \<Rightarrow> last (b # bs)))
           (column (case dir of Forward \<Rightarrow> b | Backward \<Rightarrow> last (b # bs))) t] \<and>
      activeBookmark (bookmarksCtl (consultNextDocument env dir st)) = Some j \<and>
      map_option document (window_activeTextEditor (consultNextDocument env dir st)) = Some d"
proof -
  let ?s1 = "emit (CallNextDocumentWithBookmarks dir) st"
  have w1: "window_activeTextEditor ?s1 = Some wed" using w by simp
  have j1: "findFile (normalize env d) (fileList (bookmarksCtl ?s1)) = Some j" using j by simp
  have b1: "bookmarks (fileList (bookmarksCtl ?s1) ! j) = b # bs" using b by simp
  from gotoNextDocument_other [OF w1 p o j1 b1, of dir] obtain t st' where
    g: "gotoNextDocument env dir (DocPath p) ?s1 = Inr st'" and
    t: "trace st' = trace ?s1 @
        [ShowTextDocument d,
         RevealRange (line (case dir of Forward \<Rightarrow> b | Backward \<Rightarrow> last (b # bs)))
           (column (case dir of Forward \<Rightarrow> b | Backward \<Rightarrow> last (b # bs))) t]" and
    r: "activeBookmark (bookmarksCtl st') = Some j"
      "map_option document (window_activeTextEditor st') = Some d"
    by blast
  have "consultNextDocument env dir st = st'"
    using n g by (simp add: consultNextDocument_def Let_def)
  with t r show ?thesis by auto
qed

lemma revealPosition_trace:
  "revealPosition ln col st = Inr st' \<Longrightarrow>
   \<exists>cl t. trace st' = trace st @ [RevealRange ln cl t]"
  by (auto simp: revealPosition_def revealLine_def Let_def emit_def
      split: option.splits)

lemma revealActiveBookmark_trace:
  "revealActiveBookmark dir st = Inr st' \<Longrightarrow>
   \<exists>ln cl t. trace st' = trace st @ [RevealRange ln cl t]"
  by (auto simp: revealActiveBookmark_def Let_def split: option.splits list.splits
      dest: revealPosition_trace)

lemma showTextDocument_trace:
  "trace (showTextDocument env d st) = trace st @ [ShowTextDocument d]"
  by (simp add: showTextDocument_def onDidChangeActiveTextEditor_def Let_def
      setActiveBookmark_def triggerUpdateDecorations_def emit_def)

lemma onDidOpenTextDocument_trace: "trace (onDidOpenTextDocument env d st) = trace st"
  by (simp add: onDidOpenTextDocument_def)


lemma gotoNextDocument_trace:
  assumes "gotoNextDocument env dir nextDocument st = Inr st'"
  shows "\<exists>evs. trace st' = trace st @ evs \<and> \<not> list_ex isConsoleLog evs"
proof -
  consider (same) "st' = st"
    | (reveal) "revealActiveBookmark dir st = Inr st'"
    | (shown) d where "st' = showTextDocument env d (onDidOpenTextDocument env d st)"
    | (both) d where
        "revealActiveBookmark dir (showTextDocument env d (onDidOpenTextDocument env d st)) = Inr st'"
  proof (cases "nextDocument = DocNumber (NO_MORE_BOOKMARKS env)")
    case True
    with assms have "st' = st" by (simp add: gotoNextDocument_def)
    then show ?thesis by (rule same)
  next
    case nomore: False
    show ?thesis
    proof (cases "window_activeTextEditor st")
      case None
      with nomore assms show ?thesis by (simp add: gotoNextDocument_def)
    next
      case (Some wed)
      show ?thesis
      proof (cases "docToString nextDocument = normalize env (document wed)")
        case True
        with nomore Some assms have "revealActiveBookmark dir st = Inr st'"
          by (simp add: gotoNextDocument_def Let_def)
        then show ?thesis by (rule reveal)
      next
        case other: False
        show ?thesis
        proof (cases "openTextDocument env (docToString nextDocument)")
          case None
          with nomore Some other assms have "st' = st"
            by (simp add: gotoNextDocument_def Let_def)
          then show ?thesis by (rule same)
        next
          case d: (Some d)
          let ?s1 = "showTextDocument env d (onDidOpenTextDocument env d st)"
          show ?thesis
          proof (cases "revealActiveBookmark dir ?s1")
            case (Inl e)
            with nomore Some other d assms have "st' = ?s1"
              by (simp add: gotoNextDocument_def Let_def)
            then show ?thesis by (rule shown)
          next
            case (Inr s2)
            with nomore Some other d assms have "st' = s2"
              by (simp add: gotoNextDocument_def Let_def)
            with Inr have "revealActiveBookmark dir ?s1 = Inr st'" by simp
            then show ?thesis by (rule both)
          qed
        qed
      qed
    qed
  qed
  then show ?thesis
  proof cases
    case same
    then have "trace st' = trace st @ [] \<and> \<not> list_ex isConsoleLog []" by simp
    then show ?thesis by blast
  next
    case reveal
    from revealActiveBookmark_trace [OF this] obtain ln cl t where
      "trace st' = trace st @ [RevealRange ln cl t]" by blast
    then have "trace st' = trace st @ [RevealRange ln cl t] \<and>
               \<not> list_ex isConsoleLog [RevealRange ln cl t]"
      by (simp add: isConsoleLog_def)
    then show ?thesis by blast
  next
    case (shown d)
    then have "trace st' = trace st @ [ShowTextDocument d] \<and>
               \<not> list_ex isConsoleLog [ShowTextDocument d]"
      by (simp add: showTextDocument_trace onDidOpenTextDocument_trace isConsoleLog_def)
    then show ?thesis by blast
  next
    case (both d)
    from revealActiveBookmark_trace [OF this] obtain ln cl t where
      "trace st' = trace (showTextDocument env d (onDidOpenTextDocument env d st)) @
                     [RevealRange ln cl t]" by blast
    then have "trace st' = trace st @ [ShowTextDocument d, RevealRange ln cl t] \<and>
               \<not> list_ex isConsoleLog [ShowTextDocument d, RevealRange ln cl t]"
      by (simp add: showTextDocument_trace onDidOpenTextDocument_trace isConsoleLog_def)
    then show ?thesis by blast
  qed
qed

lemma checkBookmarks_trace:
  "\<exists>evs. trace (snd (checkBookmarks env v st)) = trace st @ evs \<and> \<not> list_ex isConsoleLog evs"
proof (cases "v = JSNumber (NO_BOOKMARKS_BEFORE env) \<or> v = JSNumber (NO_BOOKMARKS_AFTER env)")
  case True
  then have "trace (snd (checkBookmarks env v st)) =
               trace st @ [ShowInformationMessage ''No more bookmarks''] \<and>
             \<not> list_ex isConsoleLog [ShowInformationMessage ''No more bookmarks'']"
    by (simp add: checkBookmarks_def isConsoleLog_def)
  then show ?thesis by blast
next
  case False
  then have "trace (snd (checkBookmarks env v st)) = trace st @ [] \<and> \<not> list_ex isConsoleLog []"
    by (simp add: checkBookmarks_def)
  then show ?thesis by blast
qed

lemma consultNextDocument_trace:
  "\<exists>evs. trace (consultNextDocument env dir st) =
           trace st @ CallNextDocumentWithBookmarks dir # evs \<and> \<not> list_ex isConsoleLog evs"
proof -
  let ?s1 = "emit (CallNextDocumentWithBookmarks dir) st"
  have t1: "trace ?s1 = trace st @ [CallNextDocumentWithBookmarks dir]" by simp
  consider (check) v where "consultNextDocument env dir st = snd (checkBookmarks env v ?s1)"
    | (goto) nextDocument st2 where "gotoNextDocument env dir nextDocument ?s1 = Inr st2"
        "consultNextDocument env dir st = st2"
  proof (cases "nextDocumentWithBookmarks env (bookmarksCtl st) dir")
    case (Inl reason)
    then have "consultNextDocument env dir st = snd (checkBookmarks env reason ?s1)"
      by (simp add: consultNextDocument_def Let_def)
    then show ?thesis by (rule check)
  next
    case (Inr nextDocument)
    show ?thesis
    proof (cases "gotoNextDocument env dir nextDocument ?s1")
      case (Inl e)
      with Inr have "consultNextDocument env dir st = snd (checkBookmarks env (JSError e) ?s1)"
        by (simp add: consultNextDocument_def Let_def)
      then show ?thesis by (rule check)
    next
      case g: (Inr st2)
      with Inr have "consultNextDocument env dir st = st2"
        by (simp add: consultNextDocument_def Let_def)
      with g show ?thesis by (rule goto)
    qed
  qed
  then show ?thesis
  proof cases
    case (check v)
    from checkBookmarks_trace [of env v ?s1] obtain evs where
      "trace (snd (checkBookmarks env v ?s1)) = trace ?s1 @ evs" "\<not> list_ex isConsoleLog evs"
      by blast
    with check t1 show ?thesis by simp
  next
    case (goto nextDocument st2)
    from gotoNextDocument_trace [OF goto(1)] obtain evs where
      "trace st2 = trace ?s1 @ evs" "\<not> list_ex isConsoleLog evs" by blast
    with goto(2) t1 show ?thesis by simp
  qed
qed

text \<open>
  C6. \<^verbatim>\<open>jumpToNext\<close> and \<^verbatim>\<open>jumpToPrevious\<close> first ask the active file for its next
  bookmark, and ask \<^verbatim>\<open>nextDocumentWithBookmarks\<close> only when that search resolved to a
  number, that is, found no bookmark. When the document they are then given is another
  one than the active one, they open and show it and reveal the first bookmark of its
  file (index 0) going forward, and the last one (index length - 1) going backward.
\<close>

theorem jump_searches_file_then_documents:
  assumes w: "window_activeTextEditor st = Some wed"
    and a: "activeFile (bookmarksCtl st) = Some f"
  shows "hd (newEvents st (jumpToNext env st)) = CallNextBookmark Forward \<and>
    hd (newEvents st (jumpToPrevious env st)) = CallNextBookmark Backward \<and>
    (\<forall>dir. CallNextDocumentWithBookmarks dir \<in> set (newEvents st (jumpToNext env st)) \<longrightarrow>
       (\<exists>n. nextBookmark env (bookmarks f) (selection_active wed) Forward = Inr (NavNumber n))) \<and>
    (\<forall>dir. CallNextDocumentWithBookmarks dir \<in> set (newEvents st (jumpToPrevious env st)) \<longrightarrow>
       (\<exists>n. nextBookmark env (bookmarks f) (selection_active wed) Backward = Inr (NavNumber n))) \<and>
    (\<forall>n p d j bs.
       nextBookmark env (bookmarks f) (selection_active wed) Forward = Inr (NavNumber n) \<and>
       n \<noteq> NO_BOOKMARKS_BEFORE env \<and> n \<noteq> NO_BOOKMARKS_AFTER env \<and>
       nextDocumentWithBookmarks env (bookmarksCtl st) Forward = Inr (DocPath p) \<and>
       p \<noteq> normalize env (document wed) \<and> openTextDocument env p = Some d \<and>
       normalize env d = p \<and> findFile p (fileList (bookmarksCtl st)) = Some j \<and>
       bookmarks (fileList (bookmarksCtl st) ! j) = bs \<and> bs \<noteq> [] \<longrightarrow>
       (\<exists>t. newEvents st (jumpToNext env st) =
          [CallNextBookmark Forward, CallNextDocumentWithBookmarks Forward, ShowTextDocument d,
           RevealRange (line (bs ! 0)) (column (bs ! 0)) t])) \<and>
    (\<forall>n p d j bs.
       nextBookmark env (bookmarks f) (selection_active wed) Backward = Inr (NavNumber n) \<and>
       n \<noteq> NO_BOOKMARKS_BEFORE env \<and> n \<noteq> NO_BOOKMARKS_AFTER env \<and>
       nextDocumentWithBookmarks env (bookmarksCtl st) Backward = Inr (DocPath p) \<and>
       p \<noteq> normalize env (document wed) \<and> openTextDocument env p = Some d \<and>
       normalize env d = p \<and> findFile p (fileList (bookmarksCtl st)) = Some j \<and>
       bookmarks (fileList (bookmarksCtl st) ! j) = bs \<and> bs \<noteq> [] \<longrightarrow>
       (\<exists>t. newEvents st (jumpToPrevious env st) =
          [CallNextBookmark Backward, CallNextDocumentWithBookmarks Backward, ShowTextDocument d,
           RevealRange (line (bs ! (length bs - 1))) (column (bs ! (length bs - 1))) t]))"
proof -
  let ?s1 = "\<lambda>dir. emit (CallNextBookmark dir) st"
  have w1: "window_activeTextEditor (?s1 dir) = Some wed" for dir using w by simp
  have shape: "(\<exists>evs. newEvents st (jumpToNext env st) = CallNextBookmark Forward # evs \<and>
                  ((\<exists>n. nextBookmark env (bookmarks f) (selection_active wed) Forward = Inr (NavNumber n))
                   \<or> (\<forall>dir. CallNextDocumentWithBookmarks dir \<notin> set evs)))"
  proof (cases "nextBookmark env (bookmarks f) (selection_active wed) Forward")
    case (Inl reason)
    from jumpToNext_rejected [OF w a Inl] show ?thesis by simp
  next
    case (Inr nxt)
    show ?thesis
    proof (cases nxt)
      case (NavPosition p)
      with Inr jumpToNext_found [OF w a] show ?thesis by simp
    next
      case (NavNumber n)
      show ?thesis
      proof (cases "n = NO_BOOKMARKS_BEFORE env \<or> n = NO_BOOKMARKS_AFTER env")
        case True
        with Inr NavNumber jumpToNext_within_sentinel [OF w a] show ?thesis by simp
      next
        case False
        with Inr NavNumber jumpToNext_consults [OF w a] have
          "jumpToNext env st = consultNextDocument env Forward (?s1 Forward)" by simp
        moreover obtain evs where
          "trace (consultNextDocument env Forward (?s1 Forward)) =
             trace (?s1 Forward) @ CallNextDocumentWithBookmarks Forward # evs"
          using consultNextDocument_trace by blast
        ultimately have "newEvents st (jumpToNext env st) =
           CallNextBookmark Forward # CallNextDocumentWithBookmarks Forward # evs"
          by (simp add: newEvents_def)
        with Inr NavNumber show ?thesis by simp
      qed
    qed
  qed
  have shape': "(\<exists>evs. newEvents st (jumpToPrevious env st) = CallNextBookmark Backward # evs \<and>
                  ((\<exists>n. nextBookmark env (bookmarks f) (selection_active wed) Backward = Inr (NavNumber n))
                   \<or> (\<forall>dir. CallNextDocumentWithBookmarks dir \<notin> set evs)))"
  proof (cases "nextBookmark env (bookmarks f) (selection_active wed) Backward")
    case (Inl reason)
    from jumpToPrevious_rejected [OF w a Inl] show ?thesis by simp
  next
    case (Inr nxt)
    show ?thesis
    proof (cases nxt)
      case (NavPosition p)
      with Inr jumpToPrevious_found [OF w a] show ?thesis by simp
    next
      case (NavNumber n)
      show ?thesis
      proof (cases "n = NO_BOOKMARKS_BEFORE env \<or> n = NO_BOOKMARKS_AFTER env")
        case True
        with Inr NavNumber jumpToPrevious_within_sentinel [OF w a] show ?thesis by simp
      next
        case False
        with Inr NavNumber jumpToPrevious_consults [OF w a] have
          "jumpToPrevious env st = consultNextDocument env Backward (?s1 Backward)" by simp
        moreover obtain evs where
          "trace (consultNextDocument env Backward (?s1 Backward)) =
             trace (?s1 Backward) @ CallNextDocumentWithBookmarks Backward # evs"
          using consultNextDocument_trace by blast
        ultimately have "newEvents st (jumpToPrevious env st) =
           CallNextBookmark Backward # CallNextDocumentWithBookmarks Backward # evs"
          by (simp add: newEvents_def)
        with Inr NavNumber show ?thesis by simp
      qed
    qed
  qed
  have cross: "\<exists>t. newEvents st (consultNextDocument env dir (?s1 dir)) =
          [CallNextBookmark dir, CallNextDocumentWithBookmarks dir, ShowTextDocument d,
           RevealRange (line (case dir of Forward \<Rightarrow> bs ! 0 | Backward \<Rightarrow> bs ! (length bs - 1)))
             (column (case dir of Forward \<Rightarrow> bs ! 0 | Backward \<Rightarrow> bs ! (length bs - 1))) t]"
    if "nextDocumentWithBookmarks env (bookmarksCtl st) dir = Inr (DocPath p)"
      "p \<noteq> normalize env (document wed)" "openTextDocument env p = Some d"
      "findFile (normalize env d) (fileList (bookmarksCtl st)) = Some j"
      "bookmarks (fileList (bookmarksCtl st) ! j) = bs" "bs \<noteq> []"
    for dir p d j bs
  proof -
    from that(6) obtain b bs' where bs: "bs = b # bs'" by (cases bs) auto
    have n: "nextDocumentWithBookmarks env (bookmarksCtl (?s1 dir)) dir = Inr (DocPath p)"
      using that(1) by simp
    have j: "findFile (normalize env d) (fileList (bookmarksCtl (?s1 dir))) = Some j"
      using that(4) by simp
    have b: "bookmarks (fileList (bookmarksCtl (?s1 dir)) ! j) = b # bs'"
      using that(5) bs by simp
    from consultNextDocument_other [OF w1 n that(2) that(3) j b] obtain t where
      "trace (consultNextDocument env dir (?s1 dir)) = trace (?s1 dir) @
        [CallNextDocumentWithBookmarks dir, ShowTextDocument d,
         RevealRange (line (case dir of Forward \<Rightarrow> b | Backward \<Rightarrow> last (b # bs')))
           (column (case dir of Forward \<Rightarrow> b | Backward \<Rightarrow> last (b # bs'))) t]"
      by blast
    moreover have "last (b # bs') = bs ! (length bs - 1)" "b = bs ! 0"
      using bs by (simp_all add: last_conv_nth)
    ultimately show ?thesis by (cases dir) (auto simp: newEvents_def)
  qed
  show ?thesis
  proof (intro conjI allI impI)
    from shape show "hd (newEvents st (jumpToNext env st)) = CallNextBookmark Forward" by auto
    from shape' show "hd (newEvents st (jumpToPrevious env st)) = CallNextBookmark Backward" by auto
  next
    fix dir
    assume "CallNextDocumentWithBookmarks dir \<in> set (newEvents st (jumpToNext env st))"
    with shape show "\<exists>n. nextBookmark env (bookmarks f) (selection_active wed) Forward = Inr (NavNumber n)"
      by auto
  next
    fix dir
    assume "CallNextDocumentWithBookmarks dir \<in> set (newEvents st (jumpToPrevious env st))"
    with shape' show "\<exists>n. nextBookmark env (bookmarks f) (selection_active wed) Backward = Inr (NavNumber n)"
      by auto
  next
    fix n p d j bs
    assume h: "nextBookmark env (bookmarks f) (selection_active wed) Forward = Inr (NavNumber n) \<and>
       n \<noteq> NO_BOOKMARKS_BEFORE env \<and> n \<noteq> NO_BOOKMARKS_AFTER env \<and>
       nextDocumentWithBookmarks env (bookmarksCtl st) Forward = Inr (DocPath p) \<and>
       p \<noteq> normalize env (document wed) \<and> openTextDocument env p = Some d \<and>
       normalize env d = p \<and> findFile p (fileList (bookmarksCtl st)) = Some j \<and>
       bookmarks (fileList (bookmarksCtl st) ! j) = bs \<and> bs \<noteq> []"
    then have "jumpToNext env st = consultNextDocument env Forward (?s1 Forward)"
      using jumpToNext_consults [OF w a] by blast
    moreover from h cross [of Forward p d j bs] have
      "\<exists>t. newEvents st (consultNextDocument env Forward (?s1 Forward)) =
          [CallNextBookmark Forward, CallNextDocumentWithBookmarks Forward, ShowTextDocument d,
           RevealRange (line (bs ! 0)) (column (bs ! 0)) t]"
      by simp
    ultimately show "\<exists>t. newEvents st (jumpToNext env st) =
          [CallNextBookmark Forward, CallNextDocumentWithBookmarks Forward, ShowTextDocument d,
           RevealRange (line (bs ! 0)) (column (bs ! 0)) t]"
      by simp
  next
    fix n p d j bs
    assume h: "nextBookmark env (bookmarks f) (selection_active wed) Backward = Inr (NavNumber n) \<and>
       n \<noteq> NO_BOOKMARKS_BEFORE env \<and> n \<noteq> NO_BOOKMARKS_AFTER env \<and>
       nextDocumentWithBookmarks env (bookmarksCtl st) Backward = Inr (DocPath p) \<and>
       p \<noteq> normalize env (document wed) \<and> openTextDocument env p = Some d \<and>
       normalize env d = p \<and> findFile p (fileList (bookmarksCtl st)) = Some j \<and>
       bookmarks (fileList (bookmarksCtl st) ! j) = bs \<and> bs \<noteq> []"
    then have "jumpToPrevious env st = consultNextDocument env Backward (?s1 Backward)"
      using jumpToPrevious_consults [OF w a] by blast
    moreover from h cross [of Backward p d j bs] have
      "\<exists>t. newEvents st (consultNextDocument env Backward (?s1 Backward)) =
          [CallNextBookmark Backward, CallNextDocumentWithBookmarks Backward, ShowTextDocument d,
           RevealRange (line (bs ! (length bs - 1))) (column (bs ! (length bs - 1))) t]"
      by simp
    ultimately show "\<exists>t. newEvents st (jumpToPrevious env st) =
          [CallNextBookmark Backward, CallNextDocumentWithBookmarks Backward, ShowTextDocument d,
           RevealRange (line (bs ! (length bs - 1))) (column (bs ! (length bs - 1))) t]"
      by simp
  qed
qed

theorem jump_searches_file_then_documents_witness:
  "window_activeTextEditor twoFileState = Some (exampleEditor 0) \<and>
   activeFile (bookmarksCtl twoFileState) = Some \<lparr>path = ''/a.txt'', bookmarks = [mark 1]\<rparr> \<and>
   nextBookmark crossFileEnv [mark 1] (selection_active (exampleEditor 0)) Forward =
     Inr (NavNumber (NO_MORE_BOOKMARKS crossFileEnv)) \<and>
   nextDocumentWithBookmarks crossFileEnv (bookmarksCtl twoFileState) Forward =
     Inr (DocPath ''/b.txt'') \<and>
   normalize crossFileEnv ''/b.txt'' = ''/b.txt'' \<and>
   findFile ''/b.txt'' (fileList (bookmarksCtl twoFileState)) = Some 1 \<and>
   (\<exists>t. newEvents twoFileState (jumpToNext crossFileEnv twoFileState) =
      [CallNextBookmark Forward, CallNextDocumentWithBookmarks Forward, ShowTextDocument ''/b.txt'',
       RevealRange 4 0 t]) \<and>
   (\<exists>t. newEvents twoFileState (jumpToPrevious crossFileEnv twoFileState) =
      [CallNextBookmark Backward, CallNextDocumentWithBookmarks Backward,
       ShowTextDocument ''/b.txt'', RevealRange 9 0 t])"
proof -
  let ?f = "\<lparr>path = ''/a.txt'', bookmarks = [mark 1]\<rparr>"
  have w: "window_activeTextEditor twoFileState = Some (exampleEditor 0)"
    by (simp add: twoFileState_def exampleState_def)
  have a: "activeFile (bookmarksCtl twoFileState) = Some ?f"
    by (simp add: twoFileState_def activeFile_def)
  have nb: "nextBookmark crossFileEnv (bookmarks ?f) (selection_active (exampleEditor 0)) dir =
              Inr (NavNumber (- 3))" for dir
    by (simp add: crossFileEnv_def exampleEnv_def)
  have s: "NO_MORE_BOOKMARKS crossFileEnv = - 3" "NO_BOOKMARKS_BEFORE crossFileEnv = - 1"
    "NO_BOOKMARKS_AFTER crossFileEnv = - 2"
    by (simp_all add: crossFileEnv_def exampleEnv_def)
  have nd: "nextDocumentWithBookmarks crossFileEnv (bookmarksCtl twoFileState) dir =
              Inr (DocPath ''/b.txt'')" for dir
    by (simp add: crossFileEnv_def)
  have p: "''/b.txt'' \<noteq> normalize crossFileEnv (document (exampleEditor 0))"
    by (simp add: crossFileEnv_def exampleEnv_def exampleEditor_def)
  have o: "openTextDocument crossFileEnv ''/b.txt'' = Some ''/b.txt''"
    by (simp add: crossFileEnv_def)
  have nz: "normalize crossFileEnv ''/b.txt'' = ''/b.txt''"
    by (simp add: crossFileEnv_def exampleEnv_def)
  have j: "findFile ''/b.txt'' (fileList (bookmarksCtl twoFileState)) = Some 1"
    by (simp add: twoFileState_def)
  have b: "bookmarks (fileList (bookmarksCtl twoFileState) ! 1) = [mark 4, mark 9]"
    "[mark 4, mark 9] \<noteq> []"
    by (simp_all add: twoFileState_def)
  have v: "line ([mark 4, mark 9] ! 0) = 4" "column ([mark 4, mark 9] ! 0) = 0"
    "line ([mark 4, mark 9] ! (length [mark 4, mark 9] - 1)) = 9"
    "column ([mark 4, mark 9] ! (length [mark 4, mark 9] - 1)) = 0"
    by (simp_all add: mark_def)
  note inst = jump_searches_file_then_documents [OF w a, of crossFileEnv]
  have d1: "- 3 \<noteq> NO_BOOKMARKS_BEFORE crossFileEnv" "- 3 \<noteq> NO_BOOKMARKS_AFTER crossFileEnv"
    by (simp_all add: s)
  have hf: "nextBookmark crossFileEnv (bookmarks ?f) (selection_active (exampleEditor 0)) Forward =
       Inr (NavNumber (- 3)) \<and>
     - 3 \<noteq> NO_BOOKMARKS_BEFORE crossFileEnv \<and> - 3 \<noteq> NO_BOOKMARKS_AFTER crossFileEnv \<and>
     nextDocumentWithBookmarks crossFileEnv (bookmarksCtl twoFileState) Forward =
       Inr (DocPath ''/b.txt'') \<and>
     ''/b.txt'' \<noteq> normalize crossFileEnv (document (exampleEditor 0)) \<and>
     openTextDocument crossFileEnv ''/b.txt'' = Some ''/b.txt'' \<and>
     normalize crossFileEnv ''/b.txt'' = ''/b.txt'' \<and>
     findFile ''/b.txt'' (fileList (bookmarksCtl twoFileState)) = Some 1 \<and>
     bookmarks (fileList (bookmarksCtl twoFileState) ! 1) = [mark 4, mark 9] \<and>
     [mark 4, mark 9] \<noteq> []"
    by (intro conjI nb d1 nd p o nz j b)
  have hb: "nextBookmark crossFileEnv (bookmarks ?f) (selection_active (exampleEditor 0)) Backward =
       Inr (NavNumber (- 3)) \<and>
     - 3 \<noteq> NO_BOOKMARKS_BEFORE crossFileEnv \<and> - 3 \<noteq> NO_BOOKMARKS_AFTER crossFileEnv \<and>
     nextDocumentWithBookmarks crossFileEnv (bookmarksCtl twoFileState) Backward =
       Inr (DocPath ''/b.txt'') \<and>
     ''/b.txt'' \<noteq> normalize crossFileEnv (document (exampleEditor 0)) \<and>
     openTextDocument crossFileEnv ''/b.txt'' = Some ''/b.txt'' \<and>
     normalize crossFileEnv ''/b.txt'' = ''/b.txt'' \<and>
     findFile ''/b.txt'' (fileList (bookmarksCtl twoFileState)) = Some 1 \<and>
     bookmarks (fileList (bookmarksCtl twoFileState) ! 1) = [mark 4, mark 9] \<and>
     [mark 4, mark 9] \<noteq> []"
    by (intro conjI nb d1 nd p o nz j b)
  from inst hf
  have "\<exists>t. newEvents twoFileState (jumpToNext crossFileEnv twoFileState) =
      [CallNextBookmark Forward, CallNextDocumentWithBookmarks Forward, ShowTextDocument ''/b.txt'',
       RevealRange (line ([mark 4, mark 9] ! 0)) (column ([mark 4, mark 9] ! 0)) t]"
    by blast
  then have fwd: "\<exists>t. newEvents twoFileState (jumpToNext crossFileEnv twoFileState) =
      [CallNextBookmark Forward, CallNextDocumentWithBookmarks Forward, ShowTextDocument ''/b.txt'',
       RevealRange 4 0 t]"
    by (simp only: v)
  from inst hb
  have "\<exists>t. newEvents twoFileState (jumpToPrevious crossFileEnv twoFileState) =
      [CallNextBookmark Backward, CallNextDocumentWithBookmarks Backward,
       ShowTextDocument ''/b.txt'',
       RevealRange (line ([mark 4, mark 9] ! (length [mark 4, mark 9] - 1)))
         (column ([mark 4, mark 9] ! (length [mark 4, mark 9] - 1))) t]"
    by blast
  then have bwd: "\<exists>t. newEvents twoFileState (jumpToPrevious crossFileEnv twoFileState) =
      [CallNextBookmark Backward, CallNextDocumentWithBookmarks Backward,
       ShowTextDocument ''/b.txt'', RevealRange 9 0 t]"
    by (simp only: v)
  from w a nb [of Forward] s nd [of Forward] nz j fwd bwd show ?thesis by simp
qed

lemma withNavigator_simps [simp]:
  "nextBookmark (withNavigator env) bs p dir = Inr (nextWithinFile env bs p dir)"
  "nextDocumentWithBookmarks (withNavigator env) c dir = Inr (nextFileWithBookmarks env c dir)"
  "NO_BOOKMARKS_BEFORE (withNavigator env) = NO_BOOKMARKS_BEFORE env"
  "NO_BOOKMARKS_AFTER (withNavigator env) = NO_BOOKMARKS_AFTER env"
  "NO_MORE_BOOKMARKS (withNavigator env) = NO_MORE_BOOKMARKS env"
  by (simp_all add: withNavigator_def)

lemma find_SomeD: "find P xs = Some x \<Longrightarrow> x \<in> set xs \<and> P x"
  by (induction xs) (auto split: if_splits)

lemma nextWithinFile_empty: "nextWithinFile env [] p dir = NavNumber (NO_MORE_BOOKMARKS env)"
  by (simp add: nextWithinFile_def)

lemma nextWithinFile_after:
  assumes "bs \<noteq> []" and "\<forall>b\<in>set bs. \<not> positionBefore p (positionOf b)"
  shows "nextWithinFile env bs p Forward = NavNumber (NO_BOOKMARKS_AFTER env)"
proof -
  have "find (\<lambda>b. positionBefore p (positionOf b)) (sortByLine bs) = None"
    using assms(2) by (simp add: find_None_iff sortByLine_def)
  with assms(1) show ?thesis by (simp add: nextWithinFile_def)
qed

lemma nextWithinFile_before:
  assumes "bs \<noteq> []" and "\<forall>b\<in>set bs. \<not> positionBefore (positionOf b) p"
  shows "nextWithinFile env bs p Backward = NavNumber (NO_BOOKMARKS_BEFORE env)"
proof -
  have "find (\<lambda>b. positionBefore (positionOf b) p) (rev (sortByLine bs)) = None"
    using assms(2) by (simp add: find_None_iff sortByLine_def)
  with assms(1) show ?thesis by (simp add: nextWithinFile_def)
qed

lemma nextWithinFile_forward_found:
  assumes "\<exists>b\<in>set bs. positionBefore p (positionOf b)"
  shows "\<exists>b\<in>set bs. positionBefore p (positionOf b) \<and>
           nextWithinFile env bs p Forward = NavPosition (positionOf b)"
proof -
  from assms have ne: "bs \<noteq> []" by auto
  from assms have "find (\<lambda>b. positionBefore p (positionOf b)) (sortByLine bs) \<noteq> None"
    by (auto simp: find_None_iff sortByLine_def)
  then obtain b where b: "find (\<lambda>b. positionBefore p (positionOf b)) (sortByLine bs) = Some b"
    by auto
  then have "b \<in> set bs \<and> positionBefore p (positionOf b)"
    using find_SomeD [OF b] by (simp add: sortByLine_def)
  with ne b show ?thesis by (auto simp: nextWithinFile_def)
qed

lemma nextWithinFile_backward_found:
  assumes "\<exists>b\<in>set bs. positionBefore (positionOf b) p"
  shows "\<exists>b\<in>set bs. positionBefore (positionOf b) p \<and>
           nextWithinFile env bs p Backward = NavPosition (positionOf b)"
proof -
  from assms have ne: "bs \<noteq> []" by auto
  from assms have "find (\<lambda>b. positionBefore (positionOf b) p) (rev (sortByLine bs)) \<noteq> None"
    by (auto simp: find_None_iff sortByLine_def)
  then obtain b where
    b: "find (\<lambda>b. positionBefore (positionOf b) p) (rev (sortByLine bs)) = Some b"
    by auto
  from find_SomeD [OF b] have "b \<in> set bs \<and> positionBefore (positionOf b) p"
    by (simp add: sortByLine_def)
  with ne b show ?thesis by (auto simp: nextWithinFile_def)
qed

text \<open>A number from the search in the file is a sentinel, and nothing was left to find.\<close>

lemma nextWithinFile_number:
  assumes "nextWithinFile env bs p dir = NavNumber n"
  shows "(bs = [] \<and> n = NO_MORE_BOOKMARKS env) \<or>
         (bs \<noteq> [] \<and> dir = Forward \<and> n = NO_BOOKMARKS_AFTER env \<and>
            (\<forall>b\<in>set bs. \<not> positionBefore p (positionOf b))) \<or>
         (bs \<noteq> [] \<and> dir = Backward \<and> n = NO_BOOKMARKS_BEFORE env \<and>
            (\<forall>b\<in>set bs. \<not> positionBefore (positionOf b) p))"
proof (cases "bs = []")
  case True
  with assms show ?thesis by (simp add: nextWithinFile_def)
next
  case ne: False
  show ?thesis
  proof (cases dir)
    case Forward
    with assms ne have "find (\<lambda>b. positionBefore p (positionOf b)) (sortByLine bs) = None"
      and "n = NO_BOOKMARKS_AFTER env"
      by (auto simp: nextWithinFile_def split: option.splits)
    then show ?thesis using ne Forward by (simp add: find_None_iff sortByLine_def)
  next
    case Backward
    with assms ne have
      "find (\<lambda>b. positionBefore (positionOf b) p) (rev (sortByLine bs)) = None"
      and "n = NO_BOOKMARKS_BEFORE env"
      by (auto simp: nextWithinFile_def split: option.splits)
    then show ?thesis using ne Backward by (simp add: find_None_iff sortByLine_def)
  qed
qed

lemma nextFileWithBookmarks_none:
  assumes "\<forall>j<length (fileList c). activeBookmark c \<noteq> Some j \<longrightarrow> bookmarks (fileList c ! j) = []"
  shows "nextFileWithBookmarks env c dir = DocNumber (NO_MORE_BOOKMARKS env)"
proof (cases "activeBookmark c")
  case None
  then show ?thesis by (simp add: nextFileWithBookmarks_def)
next
  case (Some i)
  let ?n = "length (fileList c)"
  have "find (\<lambda>j. bookmarks (fileList c ! j) \<noteq> []) js = None"
    if "set js \<subseteq> {0..<?n} - {i}" for js
    using that assms Some by (fastforce simp: find_None_iff)
  moreover have "set ([Suc i..<?n] @ [0..<min i ?n]) \<subseteq> {0..<?n} - {i}"
    "set (rev [0..<min i ?n] @ rev [Suc i..<?n]) \<subseteq> {0..<?n} - {i}"
    by auto
  ultimately show ?thesis using Some
    by (cases dir) (simp_all add: nextFileWithBookmarks_def Let_def del: set_append set_rev set_upt)
qed

text \<open>A path from the search across the files is that of another file with bookmarks.\<close>

lemma nextFileWithBookmarks_path:
  assumes "nextFileWithBookmarks env c dir = DocPath p"
  shows "\<exists>i j. activeBookmark c = Some i \<and> j < length (fileList c) \<and> j \<noteq> i \<and>
           bookmarks (fileList c ! j) \<noteq> [] \<and> p = path (fileList c ! j)"
proof -
  from assms obtain i where i: "activeBookmark c = Some i"
    by (auto simp: nextFileWithBookmarks_def split: option.splits)
  let ?n = "length (fileList c)"
  let ?others = "case dir of Forward \<Rightarrow> [Suc i..<?n] @ [0..<min i ?n]
                          | Backward \<Rightarrow> rev [0..<min i ?n] @ rev [Suc i..<?n]"
  from assms i obtain j where
    j: "find (\<lambda>j. bookmarks (fileList c ! j) \<noteq> []) ?others = Some j" "p = path (fileList c ! j)"
    by (auto simp: nextFileWithBookmarks_def Let_def split: option.splits)
  from find_SomeD [OF j(1)] have m: "j \<in> set ?others" and b: "bookmarks (fileList c ! j) \<noteq> []"
    by simp_all
  from m have "j < ?n \<and> j \<noteq> i" by (cases dir) auto
  with i j(2) b show ?thesis by blast
qed

lemma jump_message:
  assumes "window_activeTextEditor st = Some wed" and "activeFile (bookmarksCtl st) = Some f"
    and "n = NO_BOOKMARKS_BEFORE env \<or> n = NO_BOOKMARKS_AFTER env"
  shows "nextBookmark env (bookmarks f) (selection_active wed) Forward = Inr (NavNumber n) \<Longrightarrow>
           jumpToNext env st =
             emit (ShowInformationMessage ''No more bookmarks'') (emit (CallNextBookmark Forward) st)"
    and "nextBookmark env (bookmarks f) (selection_active wed) Backward = Inr (NavNumber n) \<Longrightarrow>
           jumpToPrevious env st =
             emit (ShowInformationMessage ''No more bookmarks'') (emit (CallNextBookmark Backward) st)"
  using assms by (auto simp: jumpToNext_def jumpToPrevious_def Let_def checkBookmarks_def)

lemma jump_never_logs:
  assumes w: "window_activeTextEditor st = Some wed" and a: "activeFile (bookmarksCtl st) = Some f"
  shows "\<not> list_ex isConsoleLog (newEvents st (jumpToNext (withNavigator env) st))"
    and "\<not> list_ex isConsoleLog (newEvents st (jumpToPrevious (withNavigator env) st))"
proof -
  let ?E = "withNavigator env"
  have c: "\<not> list_ex isConsoleLog (newEvents st (consultNextDocument ?E dir (emit (CallNextBookmark dir) st)))"
    for dir
  proof -
    obtain evs where
      "trace (consultNextDocument ?E dir (emit (CallNextBookmark dir) st)) =
         trace (emit (CallNextBookmark dir) st) @ CallNextDocumentWithBookmarks dir # evs"
      "\<not> list_ex isConsoleLog evs"
      using consultNextDocument_trace by blast
    then show ?thesis by (simp add: newEvents_def isConsoleLog_def)
  qed
  show "\<not> list_ex isConsoleLog (newEvents st (jumpToNext ?E st))"
  proof (cases "nextWithinFile env (bookmarks f) (selection_active wed) Forward")
    case (NavNumber n)
    then have nb: "nextBookmark ?E (bookmarks f) (selection_active wed) Forward = Inr (NavNumber n)"
      by simp
    show ?thesis
    proof (cases "n = NO_BOOKMARKS_BEFORE ?E \<or> n = NO_BOOKMARKS_AFTER ?E")
      case True
      from jumpToNext_within_sentinel [OF w a nb True] show ?thesis
        by (simp add: isConsoleLog_def)
    next
      case False
      then have "jumpToNext ?E st = consultNextDocument ?E Forward (emit (CallNextBookmark Forward) st)"
        using jumpToNext_consults [OF w a nb] by simp
      with c [of Forward] show ?thesis by simp
    qed
  next
    case (NavPosition p)
    then have "nextBookmark ?E (bookmarks f) (selection_active wed) Forward = Inr (NavPosition p)"
      by simp
    from jumpToNext_found [OF w a this] show ?thesis by (simp add: isConsoleLog_def)
  qed
  show "\<not> list_ex isConsoleLog (newEvents st (jumpToPrevious ?E st))"
  proof (cases "nextWithinFile env (bookmarks f) (selection_active wed) Backward")
    case (NavNumber n)
    then have nb: "nextBookmark ?E (bookmarks f) (selection_active wed) Backward = Inr (NavNumber n)"
      by simp
    show ?thesis
    proof (cases "n = NO_BOOKMARKS_BEFORE ?E \<or> n = NO_BOOKMARKS_AFTER ?E")
      case True
      from jumpToPrevious_within_sentinel [OF w a nb True] show ?thesis
        by (simp add: isConsoleLog_def)
    next
      case False
      then have "jumpToPrevious ?E st =
          consultNextDocument ?E Backward (emit (CallNextBookmark Backward) st)"
        using jumpToPrevious_consults [OF w a nb] by simp
      with c [of Backward] show ?thesis by simp
    qed
  next
    case (NavPosition p)
    then have "nextBookmark ?E (bookmarks f) (selection_active wed) Backward = Inr (NavPosition p)"
      by simp
    from jumpToPrevious_found [OF w a this] show ?thesis by (simp add: isConsoleLog_def)
  qed
qed

lemma jump_silent:
  assumes w: "window_activeTextEditor st = Some wed" and a: "activeFile (bookmarksCtl st) = Some f"
    and d1: "NO_MORE_BOOKMARKS env \<noteq> NO_BOOKMARKS_BEFORE env"
    and d2: "NO_MORE_BOOKMARKS env \<noteq> NO_BOOKMARKS_AFTER env"
    and h: "\<not> hasAnyBookmark (bookmarksCtl st)"
  shows "jumpToNext (withNavigator env) st =
           emit (CallNextDocumentWithBookmarks Forward) (emit (CallNextBookmark Forward) st)"
    and "jumpToPrevious (withNavigator env) st =
           emit (CallNextDocumentWithBookmarks Backward) (emit (CallNextBookmark Backward) st)"
proof -
  let ?E = "withNavigator env"
  from h have all: "\<forall>g\<in>set (fileList (bookmarksCtl st)). bookmarks g = []"
    by (simp add: hasAnyBookmark_def list_ex_iff)
  from a have "f \<in> set (fileList (bookmarksCtl st))"
    using activeFile_SomeD [OF a] by auto
  with all have e: "bookmarks f = []" by simp
  have nb: "nextBookmark ?E (bookmarks f) (selection_active wed) dir =
              Inr (NavNumber (NO_MORE_BOOKMARKS env))" for dir
    using e by (simp add: nextWithinFile_empty)
  have nd: "nextDocumentWithBookmarks ?E (bookmarksCtl (emit (CallNextBookmark dir) st)) dir =
              Inr (DocNumber (NO_MORE_BOOKMARKS ?E))" for dir
    using all by (simp add: nextFileWithBookmarks_none)
  have "jumpToNext ?E st = consultNextDocument ?E Forward (emit (CallNextBookmark Forward) st)"
    using jumpToNext_consults [OF w a nb] d1 d2 by simp
  then show "jumpToNext ?E st =
           emit (CallNextDocumentWithBookmarks Forward) (emit (CallNextBookmark Forward) st)"
    using consultNextDocument_no_more [OF nd] by simp
  have "jumpToPrevious ?E st =
          consultNextDocument ?E Backward (emit (CallNextBookmark Backward) st)"
    using jumpToPrevious_consults [OF w a nb] d1 d2 by simp
  then show "jumpToPrevious ?E st =
           emit (CallNextDocumentWithBookmarks Backward) (emit (CallNextBookmark Backward) st)"
    using consultNextDocument_no_more [OF nd] by simp
qed

text \<open>
  C7. With the navigator of the spec, a navigation that has run out is a value, and the
  jump commands handle it as one. The navigator never rejects; a search in a file with
  bookmarks of which none lies after (before) the cursor resolves to
  \<^verbatim>\<open>NO_BOOKMARKS_AFTER\<close> (\<^verbatim>\<open>NO_BOOKMARKS_BEFORE\<close>), a search in a file without
  bookmarks and a search across files of which no other has bookmarks resolve to
  \<^verbatim>\<open>NO_MORE_BOOKMARKS\<close>, and every number the search in a file resolves to is one of
  the three. \<^verbatim>\<open>checkBookmarks\<close> answers the sentinels of the file with the message
  "No more bookmarks" and \<open>False\<close>, and lets \<^verbatim>\<open>NO_MORE_BOOKMARKS\<close> pass. So the
  jump commands never reach the handler that logs a rejection; when the file has
  bookmarks but none in their direction they show the message and do nothing else, when
  no file has a bookmark they return after the second search without message or error,
  and when a bookmark lies in their direction they reveal one. The three sentinels are
  numbers of the core; \<^verbatim>\<open>NO_MORE_BOOKMARKS\<close> differs from the other two.
\<close>

theorem sentinels_are_handled_as_values:
  assumes w: "window_activeTextEditor st = Some wed"
    and a: "activeFile (bookmarksCtl st) = Some f"
    and d1: "NO_MORE_BOOKMARKS env \<noteq> NO_BOOKMARKS_BEFORE env"
    and d2: "NO_MORE_BOOKMARKS env \<noteq> NO_BOOKMARKS_AFTER env"
  shows
    "(\<forall>bs p dir reason. nextBookmark (withNavigator env) bs p dir \<noteq> Inl reason) \<and>
     (\<forall>c dir reason. nextDocumentWithBookmarks (withNavigator env) c dir \<noteq> Inl reason) \<and>
     (\<forall>bs p. bs \<noteq> [] \<and> (\<forall>b\<in>set bs. \<not> positionBefore p (positionOf b)) \<longrightarrow>
        nextBookmark (withNavigator env) bs p Forward =
          Inr (NavNumber (NO_BOOKMARKS_AFTER env))) \<and>
     (\<forall>bs p. bs \<noteq> [] \<and> (\<forall>b\<in>set bs. \<not> positionBefore (positionOf b) p) \<longrightarrow>
        nextBookmark (withNavigator env) bs p Backward =
          Inr (NavNumber (NO_BOOKMARKS_BEFORE env))) \<and>
     (\<forall>p dir. nextBookmark (withNavigator env) [] p dir =
        Inr (NavNumber (NO_MORE_BOOKMARKS env))) \<and>
     (\<forall>c dir.
        (\<forall>j<length (fileList c). activeBookmark c \<noteq> Some j \<longrightarrow> bookmarks (fileList c ! j) = [])
        \<longrightarrow> nextDocumentWithBookmarks (withNavigator env) c dir =
              Inr (DocNumber (NO_MORE_BOOKMARKS env))) \<and>
     (\<forall>bs p dir n. nextBookmark (withNavigator env) bs p dir = Inr (NavNumber n) \<longrightarrow>
        n = NO_BOOKMARKS_AFTER env \<or> n = NO_BOOKMARKS_BEFORE env \<or> n = NO_MORE_BOOKMARKS env) \<and>
     checkBookmarks env (JSNumber (NO_BOOKMARKS_BEFORE env)) st =
       (False, emit (ShowInformationMessage ''No more bookmarks'') st) \<and>
     checkBookmarks env (JSNumber (NO_BOOKMARKS_AFTER env)) st =
       (False, emit (ShowInformationMessage ''No more bookmarks'') st) \<and>
     checkBookmarks env (JSNumber (NO_MORE_BOOKMARKS env)) st = (True, st) \<and>
     \<not> list_ex isConsoleLog (newEvents st (jumpToNext (withNavigator env) st)) \<and>
     \<not> list_ex isConsoleLog (newEvents st (jumpToPrevious (withNavigator env) st)) \<and>
     (bookmarks f \<noteq> [] \<and>
      (\<forall>b\<in>set (bookmarks f). \<not> positionBefore (selection_active wed) (positionOf b)) \<longrightarrow>
        jumpToNext (withNavigator env) st =
          emit (ShowInformationMessage ''No more bookmarks'') (emit (CallNextBookmark Forward) st)) \<and>
     (bookmarks f \<noteq> [] \<and>
      (\<forall>b\<in>set (bookmarks f). \<not> positionBefore (positionOf b) (selection_active wed)) \<longrightarrow>
        jumpToPrevious (withNavigator env) st =
          emit (ShowInformationMessage ''No more bookmarks'') (emit (CallNextBookmark Backward) st)) \<and>
     (\<not> hasAnyBookmark (bookmarksCtl st) \<longrightarrow>
        jumpToNext (withNavigator env) st =
          emit (CallNextDocumentWithBookmarks Forward) (emit (CallNextBookmark Forward) st) \<and>
        jumpToPrevious (withNavigator env) st =
          emit (CallNextDocumentWithBookmarks Backward) (emit (CallNextBookmark Backward) st)) \<and>
     ((\<exists>b\<in>set (bookmarks f). positionBefore (selection_active wed) (positionOf b)) \<longrightarrow>
        (\<exists>b\<in>set (bookmarks f). positionBefore (selection_active wed) (positionOf b) \<and>
           newEvents st (jumpToNext (withNavigator env) st) =
             [CallNextBookmark Forward,
              RevealRange (line b) (column b)
                (if line b = pos_line (selection_active wed)
                 then InCenterIfOutsideViewport else InCenter)])) \<and>
     ((\<exists>b\<in>set (bookmarks f). positionBefore (positionOf b) (selection_active wed)) \<longrightarrow>
        (\<exists>b\<in>set (bookmarks f). positionBefore (positionOf b) (selection_active wed) \<and>
           newEvents st (jumpToPrevious (withNavigator env) st) =
             [CallNextBookmark Backward,
              RevealRange (line b) (column b)
                (if line b = pos_line (selection_active wed)
                 then InCenterIfOutsideViewport else InCenter)]))"
proof (intro conjI allI impI)
  show "nextBookmark (withNavigator env) bs p dir \<noteq> Inl reason" for bs p dir reason by simp
  show "nextDocumentWithBookmarks (withNavigator env) c dir \<noteq> Inl reason" for c dir reason
    by simp
  show "nextBookmark (withNavigator env) bs p Forward = Inr (NavNumber (NO_BOOKMARKS_AFTER env))"
    if "bs \<noteq> [] \<and> (\<forall>b\<in>set bs. \<not> positionBefore p (positionOf b))" for bs p
    using that by (simp add: nextWithinFile_after)
  show "nextBookmark (withNavigator env) bs p Backward = Inr (NavNumber (NO_BOOKMARKS_BEFORE env))"
    if "bs \<noteq> [] \<and> (\<forall>b\<in>set bs. \<not> positionBefore (positionOf b) p)" for bs p
    using that by (simp add: nextWithinFile_before)
  show "nextBookmark (withNavigator env) [] p dir = Inr (NavNumber (NO_MORE_BOOKMARKS env))"
    for p dir
    by (simp add: nextWithinFile_empty)
  show "nextDocumentWithBookmarks (withNavigator env) c dir =
          Inr (DocNumber (NO_MORE_BOOKMARKS env))"
    if "\<forall>j<length (fileList c). activeBookmark c \<noteq> Some j \<longrightarrow> bookmarks (fileList c ! j) = []"
    for c dir
    using that by (simp add: nextFileWithBookmarks_none)
  show "n = NO_BOOKMARKS_AFTER env \<or> n = NO_BOOKMARKS_BEFORE env \<or> n = NO_MORE_BOOKMARKS env"
    if "nextBookmark (withNavigator env) bs p dir = Inr (NavNumber n)" for bs p dir n
    using that nextWithinFile_number [of env bs p dir n] by auto
  show "checkBookmarks env (JSNumber (NO_BOOKMARKS_BEFORE env)) st =
           (False, emit (ShowInformationMessage ''No more bookmarks'') st)"
    "checkBookmarks env (JSNumber (NO_BOOKMARKS_AFTER env)) st =
           (False, emit (ShowInformationMessage ''No more bookmarks'') st)"
    by (simp_all add: checkBookmarks_def)
  show "checkBookmarks env (JSNumber (NO_MORE_BOOKMARKS env)) st = (True, st)"
    using d1 d2 by (simp add: checkBookmarks_def)
  show "\<not> list_ex isConsoleLog (newEvents st (jumpToNext (withNavigator env) st))"
    "\<not> list_ex isConsoleLog (newEvents st (jumpToPrevious (withNavigator env) st))"
    using jump_never_logs [OF w a] by simp_all
  show "jumpToNext (withNavigator env) st =
          emit (ShowInformationMessage ''No more bookmarks'') (emit (CallNextBookmark Forward) st)"
    if h: "bookmarks f \<noteq> [] \<and>
      (\<forall>b\<in>set (bookmarks f). \<not> positionBefore (selection_active wed) (positionOf b))"
  proof -
    from h have "nextBookmark (withNavigator env) (bookmarks f) (selection_active wed) Forward =
        Inr (NavNumber (NO_BOOKMARKS_AFTER (withNavigator env)))"
      by (simp add: nextWithinFile_after)
    then show ?thesis by (intro jump_message(1) [OF w a]) simp_all
  qed
  show "jumpToPrevious (withNavigator env) st =
          emit (ShowInformationMessage ''No more bookmarks'') (emit (CallNextBookmark Backward) st)"
    if h: "bookmarks f \<noteq> [] \<and>
      (\<forall>b\<in>set (bookmarks f). \<not> positionBefore (positionOf b) (selection_active wed))"
  proof -
    from h have "nextBookmark (withNavigator env) (bookmarks f) (selection_active wed) Backward =
        Inr (NavNumber (NO_BOOKMARKS_BEFORE (withNavigator env)))"
      by (simp add: nextWithinFile_before)
    then show ?thesis by (intro jump_message(2) [OF w a]) simp_all
  qed
  show "jumpToNext (withNavigator env) st =
          emit (CallNextDocumentWithBookmarks Forward) (emit (CallNextBookmark Forward) st)"
    "jumpToPrevious (withNavigator env) st =
          emit (CallNextDocumentWithBookmarks Backward) (emit (CallNextBookmark Backward) st)"
    if "\<not> hasAnyBookmark (bookmarksCtl st)"
    using jump_silent [OF w a d1 d2 that] by simp_all
  show "\<exists>b\<in>set (bookmarks f). positionBefore (selection_active wed) (positionOf b) \<and>
           newEvents st (jumpToNext (withNavigator env) st) =
             [CallNextBookmark Forward,
              RevealRange (line b) (column b)
                (if line b = pos_line (selection_active wed)
                 then InCenterIfOutsideViewport else InCenter)]"
    if "\<exists>b\<in>set (bookmarks f). positionBefore (selection_active wed) (positionOf b)"
  proof -
    from nextWithinFile_forward_found [OF that, of env] obtain b where
      b: "b \<in> set (bookmarks f)" "positionBefore (selection_active wed) (positionOf b)"
      "nextWithinFile env (bookmarks f) (selection_active wed) Forward = NavPosition (positionOf b)"
      by blast
    then have "nextBookmark (withNavigator env) (bookmarks f) (selection_active wed) Forward =
        Inr (NavPosition (positionOf b))" by simp
    from jumpToNext_found [OF w a this] b(1,2) show ?thesis
      by (auto simp: positionOf_def)
  qed
  show "\<exists>b\<in>set (bookmarks f). positionBefore (positionOf b) (selection_active wed) \<and>
           newEvents st (jumpToPrevious (withNavigator env) st) =
             [CallNextBookmark Backward,
              RevealRange (line b) (column b)
                (if line b = pos_line (selection_active wed)
                 then InCenterIfOutsideViewport else InCenter)]"
    if "\<exists>b\<in>set (bookmarks f). positionBefore (positionOf b) (selection_active wed)"
  proof -
    from nextWithinFile_backward_found [OF that, of env] obtain b where
      b: "b \<in> set (bookmarks f)" "positionBefore (positionOf b) (selection_active wed)"
      "nextWithinFile env (bookmarks f) (selection_active wed) Backward = NavPosition (positionOf b)"
      by blast
    then have "nextBookmark (withNavigator env) (bookmarks f) (selection_active wed) Backward =
        Inr (NavPosition (positionOf b))" by simp
    from jumpToPrevious_found [OF w a this] b(1,2) show ?thesis
      by (auto simp: positionOf_def)
  qed
qed

theorem sentinels_are_handled_as_values_witness:
  "window_activeTextEditor (exampleState [mark 2, mark 5] fiveLines 5) = Some (exampleEditor 5) \<and>
   activeFile (bookmarksCtl (exampleState [mark 2, mark 5] fiveLines 5)) =
     Some \<lparr>path = ''/a.txt'', bookmarks = [mark 2, mark 5]\<rparr> \<and>
   window_activeTextEditor (exampleState [] fiveLines 0) = Some (exampleEditor 0) \<and>
   activeFile (bookmarksCtl (exampleState [] fiveLines 0)) =
     Some \<lparr>path = ''/a.txt'', bookmarks = []\<rparr> \<and>
   NO_MORE_BOOKMARKS exampleEnv \<noteq> NO_BOOKMARKS_BEFORE exampleEnv \<and>
   NO_MORE_BOOKMARKS exampleEnv \<noteq> NO_BOOKMARKS_AFTER exampleEnv \<and>
   nextBookmark (withNavigator exampleEnv) [mark 2, mark 5] \<lparr>pos_line = 5, character = 0\<rparr> Forward =
     Inr (NavNumber (- 2)) \<and>
   nextBookmark (withNavigator exampleEnv) [mark 2, mark 5] \<lparr>pos_line = 2, character = 0\<rparr> Backward =
     Inr (NavNumber (- 1)) \<and>
   nextDocumentWithBookmarks (withNavigator exampleEnv)
     (bookmarksCtl (exampleState [mark 2, mark 5] fiveLines 5)) Forward = Inr (DocNumber (- 3)) \<and>
   newEvents (exampleState [mark 2, mark 5] fiveLines 5)
     (jumpToNext (withNavigator exampleEnv) (exampleState [mark 2, mark 5] fiveLines 5)) =
     [CallNextBookmark Forward, ShowInformationMessage ''No more bookmarks''] \<and>
   newEvents (exampleState [mark 2, mark 5] fiveLines 5)
     (jumpToPrevious (withNavigator exampleEnv) (exampleState [mark 2, mark 5] fiveLines 5)) =
     [CallNextBookmark Backward, RevealRange 2 0 InCenter] \<and>
   newEvents (exampleState [] fiveLines 0)
     (jumpToNext (withNavigator exampleEnv) (exampleState [] fiveLines 0)) =
     [CallNextBookmark Forward, CallNextDocumentWithBookmarks Forward] \<and>
   newEvents (exampleState [] fiveLines 0)
     (jumpToPrevious (withNavigator exampleEnv) (exampleState [] fiveLines 0)) =
     [CallNextBookmark Backward, CallNextDocumentWithBookmarks Backward]"
proof -
  let ?S = "exampleState [mark 2, mark 5] fiveLines 5"
  let ?N = "exampleState [] fiveLines 0"
  let ?f = "\<lparr>path = ''/a.txt'', bookmarks = [mark 2, mark 5]\<rparr>"
  let ?g = "\<lparr>path = ''/a.txt'', bookmarks = []\<rparr>"
  have w: "window_activeTextEditor ?S = Some (exampleEditor 5)" by (simp add: exampleState_def)
  have a: "activeFile (bookmarksCtl ?S) = Some ?f" by (simp add: exampleState_def activeFile_def)
  have wn: "window_activeTextEditor ?N = Some (exampleEditor 0)" by (simp add: exampleState_def)
  have an: "activeFile (bookmarksCtl ?N) = Some ?g" by (simp add: exampleState_def activeFile_def)
  have e: "NO_MORE_BOOKMARKS exampleEnv \<noteq> NO_BOOKMARKS_BEFORE exampleEnv"
    "NO_MORE_BOOKMARKS exampleEnv \<noteq> NO_BOOKMARKS_AFTER exampleEnv"
    by (simp_all add: exampleEnv_def)
  have s: "NO_BOOKMARKS_AFTER exampleEnv = - 2" "NO_BOOKMARKS_BEFORE exampleEnv = - 1"
    "NO_MORE_BOOKMARKS exampleEnv = - 3"
    by (simp_all add: exampleEnv_def)
  note ts = sentinels_are_handled_as_values [OF w a e]
  note tn = sentinels_are_handled_as_values [OF wn an e]
  have sel: "selection_active (exampleEditor 5) = \<lparr>pos_line = 5, character = 0\<rparr>"
    by (simp add: exampleEditor_def)
  have ex5: "[mark 2, mark 5] \<noteq> [] \<and>
      (\<forall>b\<in>set [mark 2, mark 5]. \<not> positionBefore \<lparr>pos_line = 5, character = 0\<rparr> (positionOf b))"
    and ex2: "[mark 2, mark 5] \<noteq> [] \<and>
      (\<forall>b\<in>set [mark 2, mark 5]. \<not> positionBefore (positionOf b) \<lparr>pos_line = 2, character = 0\<rparr>)"
    by (simp_all add: positionBefore_def positionOf_def mark_def)
  have one: "\<forall>j<length (fileList (bookmarksCtl ?S)).
      activeBookmark (bookmarksCtl ?S) \<noteq> Some j \<longrightarrow> bookmarks (fileList (bookmarksCtl ?S) ! j) = []"
    by (simp add: exampleState_def)
  have none: "\<not> hasAnyBookmark (bookmarksCtl ?N)"
    by (simp add: exampleState_def hasAnyBookmark_def)
  have n1: "nextBookmark (withNavigator exampleEnv) [mark 2, mark 5]
              \<lparr>pos_line = 5, character = 0\<rparr> Forward = Inr (NavNumber (- 2))"
    using ts ex5 s by metis
  have n2: "nextBookmark (withNavigator exampleEnv) [mark 2, mark 5]
              \<lparr>pos_line = 2, character = 0\<rparr> Backward = Inr (NavNumber (- 1))"
    using ts ex2 s by metis
  have n3: "nextDocumentWithBookmarks (withNavigator exampleEnv) (bookmarksCtl ?S) Forward =
              Inr (DocNumber (- 3))"
    using ts one s by metis
  have "bookmarks ?f \<noteq> [] \<and>
      (\<forall>b\<in>set (bookmarks ?f). \<not> positionBefore (selection_active (exampleEditor 5)) (positionOf b))"
    using ex5 by (simp add: sel)
  with ts have "jumpToNext (withNavigator exampleEnv) ?S =
      emit (ShowInformationMessage ''No more bookmarks'') (emit (CallNextBookmark Forward) ?S)"
    by blast
  then have j1: "newEvents ?S (jumpToNext (withNavigator exampleEnv) ?S) =
      [CallNextBookmark Forward, ShowInformationMessage ''No more bookmarks'']"
    by (simp add: newEvents_def emit_def)
  have "\<exists>b\<in>set (bookmarks ?f). positionBefore (positionOf b) (selection_active (exampleEditor 5))"
    by (simp add: sel positionBefore_def positionOf_def mark_def)
  with ts have "\<exists>b\<in>set (bookmarks ?f).
      positionBefore (positionOf b) (selection_active (exampleEditor 5)) \<and>
      newEvents ?S (jumpToPrevious (withNavigator exampleEnv) ?S) =
        [CallNextBookmark Backward,
         RevealRange (line b) (column b)
           (if line b = pos_line (selection_active (exampleEditor 5))
            then InCenterIfOutsideViewport else InCenter)]"
    by blast
  then have j2: "newEvents ?S (jumpToPrevious (withNavigator exampleEnv) ?S) =
      [CallNextBookmark Backward, RevealRange 2 0 InCenter]"
    by (auto simp: sel positionBefore_def positionOf_def mark_def)
  from tn none have "jumpToNext (withNavigator exampleEnv) ?N =
      emit (CallNextDocumentWithBookmarks Forward) (emit (CallNextBookmark Forward) ?N)"
    and "jumpToPrevious (withNavigator exampleEnv) ?N =
      emit (CallNextDocumentWithBookmarks Backward) (emit (CallNextBookmark Backward) ?N)"
    by blast+
  then have j3: "newEvents ?N (jumpToNext (withNavigator exampleEnv) ?N) =
      [CallNextBookmark Forward, CallNextDocumentWithBookmarks Forward]"
    and j4: "newEvents ?N (jumpToPrevious (withNavigator exampleEnv) ?N) =
      [CallNextBookmark Backward, CallNextDocumentWithBookmarks Backward]"
    by (simp_all add: newEvents_def emit_def)
  from w a wn an e n1 n2 n3 j1 j2 j3 j4 show ?thesis by (intro conjI)
qed

end
